(* ===== verification/Fermat.thy ===== *)
theory Fermat
  imports Complex_Main
begin

text \<open>
  The number theory the primality test rests on, proved here because the library sessions with
  it are not loaded: Euclid's lemma, Fermat's little theorem, the square roots of one modulo a
  prime, and the strong probable-prime property of primes.
\<close>

definition nat_prime :: "nat \<Rightarrow> bool" where
  "nat_prime p \<longleftrightarrow> 1 < p \<and> (\<forall>m. m dvd p \<longrightarrow> m = 1 \<or> m = p)"

lemma nat_prime_coprime: "nat_prime p \<Longrightarrow> \<not> p dvd a \<Longrightarrow> coprime p a"
  unfolding nat_prime_def coprime_iff_gcd_eq_1 by (metis gcd_dvd1 gcd_dvd2)

lemma nat_prime_dvd_mult: "nat_prime p \<Longrightarrow> p dvd a * b \<Longrightarrow> p dvd a \<or> p dvd b"
  using nat_prime_coprime coprime_dvd_mult_right_iff by blast

lemma prime_dvd_choose:
  assumes "nat_prime p" "0 < k" "k < p"
  shows "p dvd p choose k"
proof -
  have "k * (p choose k) = p * ((p - 1) choose (k - 1))"
    using binomial_absorption [of "k - 1" p] assms(2) by simp
  then have "p dvd k * (p choose k)" by simp
  moreover have "\<not> p dvd k" using assms(2,3) by (simp add: nat_dvd_not_less)
  ultimately show ?thesis using nat_prime_dvd_mult [OF assms(1)] by blast
qed

lemma fermat_pow:
  assumes "nat_prime p"
  shows "a ^ p mod p = a mod p"
proof (induction a)
  case 0
  have "0 < p" using assms by (simp add: nat_prime_def)
  then show ?case by (simp add: zero_power)
next
  case (Suc a)
  have p: "0 < p" using assms by (simp add: nat_prime_def)
  have "(a + 1) ^ p = (\<Sum>k\<le>p. (p choose k) * a ^ k)"
    using binomial_ring [of a 1 p] by simp
  also have "{..p} = insert 0 (insert p {0<..<p})" using p by auto
  also have "(\<Sum>k\<in>\<dots>. (p choose k) * a ^ k) = 1 + a ^ p + (\<Sum>k\<in>{0<..<p}. (p choose k) * a ^ k)"
    using p by simp
  finally have eq: "(a + 1) ^ p = 1 + a ^ p + (\<Sum>k\<in>{0<..<p}. (p choose k) * a ^ k)" .
  have "p dvd (\<Sum>k\<in>{0<..<p}. (p choose k) * a ^ k)"
    by (intro dvd_sum dvd_mult2 prime_dvd_choose [OF assms]) auto
  then obtain q where "(\<Sum>k\<in>{0<..<p}. (p choose k) * a ^ k) = p * q" by blast
  with eq have "(a + 1) ^ p mod p = (1 + a ^ p) mod p" by simp
  also have "\<dots> = (1 + a) mod p" using Suc by (metis mod_add_right_eq)
  finally show ?case by simp
qed

lemma fermat_little:
  assumes "nat_prime p" "\<not> p dvd a"
  shows "a ^ (p - 1) mod p = 1"
proof -
  have p: "1 < p" using assms(1) by (simp add: nat_prime_def)
  have pos: "0 < a" using assms(2) by (cases a) auto
  have "a * a ^ (p - 1) = a ^ p" using p by (simp add: power_eq_if)
  moreover have "p dvd a ^ p - a" using fermat_pow [OF assms(1), of a]
    by (metis mod_eq_dvd_iff_nat nat_le_linear dvd_0_right diff_is_0_eq')
  ultimately have "p dvd a * (a ^ (p - 1) - 1)" by (simp add: diff_mult_distrib2)
  then have d: "p dvd a ^ (p - 1) - 1" using nat_prime_dvd_mult [OF assms(1)] assms(2) by blast
  have "1 \<le> a ^ (p - 1)" using pos by simp
  then have "a ^ (p - 1) mod p = 1 mod p" using d mod_eq_dvd_iff_nat by metis
  with p show ?thesis by simp
qed

lemma sqrt_one:
  assumes "nat_prime p" "x < p" "x * x mod p = 1"
  shows "x = 1 \<or> x = p - 1"
proof -
  have p: "1 < p" using assms(1) by (simp add: nat_prime_def)
  have x: "1 \<le> x" using assms(3) by (cases x) auto
  have "x * x mod p = 1 mod p" using assms(3) p by simp
  then have "p dvd x * x - 1" using x by (metis mod_eq_dvd_iff_nat mult_le_mono nat_mult_1)
  moreover have "x * x - 1 = (x - 1) * (x + 1)" using x by (simp add: algebra_simps)
  ultimately have "p dvd x - 1 \<or> p dvd x + 1" using nat_prime_dvd_mult [OF assms(1)] by simp
  then show ?thesis
  proof
    assume "p dvd x - 1"
    then show ?thesis using assms(2) x by (metis diff_is_0_eq dvd_imp_le le_antisym less_imp_diff_less not_le bot_nat_0.not_eq_extremum)
  next
    assume "p dvd x + 1"
    then have "p \<le> x + 1" by (simp add: dvd_imp_le)
    then show ?thesis using assms(2) by linarith
  qed
qed

lemma strong_sequence:
  assumes "nat_prime p" "x < p" "x ^ 2 ^ r mod p = 1"
  shows "x = 1 \<or> (\<exists>i<r. x ^ 2 ^ i mod p = p - 1)"
  using assms(3)
proof (induction r)
  case 0
  then show ?case using assms(2) by simp
next
  case (Suc r)
  let ?y = "x ^ 2 ^ r mod p"
  have "?y * ?y mod p = x ^ 2 ^ Suc r mod p"
    by (simp add: mod_mult_eq power_add [symmetric] mult_2)
  with Suc.prems have "?y * ?y mod p = 1" by simp
  moreover have "?y < p" using assms(2) by simp
  ultimately have "?y = 1 \<or> ?y = p - 1" using sqrt_one [OF assms(1)] by blast
  then show ?case using Suc.IH less_Suc_eq by auto
qed

lemma strong_prp_prime:
  assumes "nat_prime p" "\<not> p dvd a" "p - 1 = d * 2 ^ r"
  shows "a ^ d mod p = 1 \<or> (\<exists>i<r. (a ^ d) ^ 2 ^ i mod p = p - 1)"
proof -
  have p: "1 < p" using assms(1) by (simp add: nat_prime_def)
  let ?x = "a ^ d mod p"
  have pw: "?x ^ 2 ^ i mod p = (a ^ d) ^ 2 ^ i mod p" for i by (simp add: power_mod)
  have "(a ^ d) ^ 2 ^ r mod p = 1"
    using fermat_little [OF assms(1,2)] assms(3) by (simp add: power_mult)
  then have "?x ^ 2 ^ r mod p = 1" by (simp add: pw)
  moreover have "?x < p" using p by simp
  ultimately have "?x = 1 \<or> (\<exists>i<r. ?x ^ 2 ^ i mod p = p - 1)"
    using strong_sequence [OF assms(1)] by blast
  then show ?thesis by (simp add: pw)
qed

text \<open>A composite number has a divisor at most its square root.\<close>

lemma composite_small_divisor:
  assumes "1 < n" "\<not> nat_prime n"
  shows "\<exists>m. m dvd n \<and> 1 < m \<and> m * m \<le> n"
proof -
  obtain m where m: "m dvd n" "m \<noteq> 1" "m \<noteq> n" using assms by (auto simp: nat_prime_def)
  then obtain k where k: "n = m * k" by blast
  have pos: "0 < m" "0 < k" using k assms(1) by (auto intro: Nat.gr0I)
  have "k \<noteq> 1" using k m(3) by simp
  then have "1 < m" "1 < k" using pos m(2) by linarith+
  show ?thesis
  proof (cases "m \<le> k")
    case True
    then show ?thesis using k m(1) \<open>1 < m\<close> by (intro exI [of _ m]) simp
  next
    case False
    then show ?thesis using k \<open>1 < k\<close> by (intro exI [of _ k]) simp
  qed
qed

end
