(* ===== verification/Prelude.thy ===== *)
theory Prelude
  imports Main "HOL-Library.Word" "HOL-Library.AList" "HOL-Library.Multiset"
    "HOL-Library.Char_ord" "HOL-Library.List_Lexorder"
begin

text \<open>
  What every component shares: the machine types of the Go code, the outcome of an RPC handler
  (a value, a gRPC error, a panic or a self-deadlock), Go maps as association lists behind one
  interface, and the collections of facts the component theories fill.
\<close>

section \<open>Types\<close>

type_synonym i32 = "32 word"
type_synonym u64 = "64 word"
type_synonym bytes = string
type_synonym time = int

text \<open>
  A Go \<open>string\<close> and a \<open>[]byte\<close> are both sequences of bytes, and the code converts between
  them freely; both are \<open>string\<close> here (a HOL \<open>char\<close> is a byte). Times are nanoseconds.
  Strings are compared byte by byte, as Go's \<open><\<close> does (\<open>Char_ord\<close>, \<open>List_Lexorder\<close>).
\<close>

definition second :: time where "second = 1000000000"
definition minute :: time where "minute = 60 * second"

text \<open>
  \<open>server_defs\<close> collects the definitions a handler proof unfolds, \<open>inv_intros\<close> the
  preservation lemmas of the state invariants, \<open>go_simps\<close> the evaluation rules of the Go
  library functions.
\<close>

named_theorems server_defs
named_theorems inv_intros
named_theorems go_simps

section \<open>Outcomes of a handler\<close>

text \<open>The gRPC status codes the program uses; \<open>Unknown\<close> is what gRPC gives a plain Go error.\<close>

datatype code = Unavailable | Internal | FailedPrecondition | PermissionDenied | AlreadyExists
  | NotFound | ResourceExhausted | Aborted | InvalidArgument | DeadlineExceeded | Unknown

primrec code_name :: "code \<Rightarrow> string" where
  "code_name Unavailable = ''Unavailable''"
| "code_name Internal = ''Internal''"
| "code_name FailedPrecondition = ''FailedPrecondition''"
| "code_name PermissionDenied = ''PermissionDenied''"
| "code_name AlreadyExists = ''AlreadyExists''"
| "code_name NotFound = ''NotFound''"
| "code_name ResourceExhausted = ''ResourceExhausted''"
| "code_name Aborted = ''Aborted''"
| "code_name InvalidArgument = ''InvalidArgument''"
| "code_name DeadlineExceeded = ''DeadlineExceeded''"
| "code_name Unknown = ''Unknown''"

datatype rpc_error = RpcError (err_code: code) (err_msg: string)

text \<open>The text of a gRPC status error, which the client searches.\<close>

definition error_text :: "rpc_error \<Rightarrow> string" where
  "error_text e = ''rpc error: code = '' @ code_name (err_code e) @ '' desc = '' @ err_msg e"

text \<open>An error value on the client: a status of gRPC, or any other error, which has only its text.\<close>

datatype go_error = Status rpc_error | Plain string

primrec go_text :: "go_error \<Rightarrow> string" where
  "go_text (Status e) = error_text e"
| "go_text (Plain t) = t"

text \<open>
  \<open>Panic\<close> is a Go run-time panic (a failed type assertion, a zero divisor), which ends the
  process, and \<open>Exit\<close> a call of \<open>os.Exit\<close>. \<open>Deadlock\<close> is a goroutine that waits for a mutex
  it holds itself, which never returns and keeps the mutex. \<open>Blocked\<close> is a goroutine that waits
  for another one to release a file lock.
\<close>

datatype 'a outcome = Ok 'a | Fail rpc_error | Panic | Exit | Deadlock | Blocked

abbreviation fail :: "code \<Rightarrow> string \<Rightarrow> 'a outcome" where
  "fail c m \<equiv> Fail (RpcError c m)"

section \<open>Go maps\<close>

text \<open>
  A Go map is an association list with distinct keys. Go's \<open>range\<close> visits the keys in an
  order that changes from loop to loop; a loop over a map is modelled over the list, and what
  depends on the order is stated for every list that represents the map.
\<close>

type_synonym ('k, 'v) gomap = "('k \<times> 'v) list"

abbreviation mget :: "('k, 'v) gomap \<Rightarrow> 'k \<Rightarrow> 'v option" where
  "mget m k \<equiv> map_of m k"

abbreviation mput :: "'k \<Rightarrow> 'v \<Rightarrow> ('k, 'v) gomap \<Rightarrow> ('k, 'v) gomap" where
  "mput \<equiv> AList.update"

abbreviation mdel :: "'k \<Rightarrow> ('k, 'v) gomap \<Rightarrow> ('k, 'v) gomap" where
  "mdel \<equiv> AList.delete"

abbreviation mlen :: "('k, 'v) gomap \<Rightarrow> nat" where
  "mlen \<equiv> length"

definition mwf :: "('k, 'v) gomap \<Rightarrow> bool" where
  "mwf m \<longleftrightarrow> distinct (map fst m)"

lemmas mget_mput [simp] = AList.update_conv'
lemmas mget_mdel [simp] = AList.delete_conv'

lemma mwf_Nil [simp]: "mwf []"
  by (simp add: mwf_def)

lemma mwf_Cons [simp]: "mwf ((k, v) # m) \<longleftrightarrow> mget m k = None \<and> mwf m"
  by (auto simp: mwf_def map_of_eq_None_iff)

lemma mwf_mput [simp, intro]: "mwf m \<Longrightarrow> mwf (mput k v m)"
  by (simp add: mwf_def distinct_update)

lemma mwf_mdel [simp, intro]: "mwf m \<Longrightarrow> mwf (mdel k m)"
  by (simp add: mwf_def AList.distinct_delete)

lemma mlen_mput_new: "mget m k = None \<Longrightarrow> mlen (mput k v m) = Suc (mlen m)"
  by (induction m) (auto split: if_splits)

lemma mlen_mput_old: "mget m k = Some v' \<Longrightarrow> mlen (mput k v m) = mlen m"
  by (induction m) (auto split: if_splits)

lemma mlen_mdel: "mlen (mdel k m) \<le> mlen m"
  by (simp add: AList.delete_eq)

subsection \<open>The interface the components rely on\<close>

locale go_map =
  fixes get :: "'m \<Rightarrow> 'k \<Rightarrow> 'v option"
    and put :: "'k \<Rightarrow> 'v \<Rightarrow> 'm \<Rightarrow> 'm"
    and del :: "'k \<Rightarrow> 'm \<Rightarrow> 'm"
    and len :: "'m \<Rightarrow> nat"
    and wf :: "'m \<Rightarrow> bool"
  assumes get_put: "get (put k v m) k' = (if k' = k then Some v else get m k')"
    and get_del: "get (del k m) k' = (if k' = k then None else get m k')"
    and len_put: "len (put k v m) = (if get m k = None then Suc (len m) else len m)"
    and len_del: "len (del k m) \<le> len m"
    and wf_put: "wf m \<Longrightarrow> wf (put k v m)"
    and wf_del: "wf m \<Longrightarrow> wf (del k m)"
begin

lemma get_put_same: "get (put k v m) k = Some v"
  by (simp add: get_put)

lemma get_put_other: "k' \<noteq> k \<Longrightarrow> get (put k v m) k' = get m k'"
  by (simp add: get_put)

lemma get_del_put: "get (del k (put k v m)) k' = get (del k m) k'"
  by (simp add: get_put get_del)

lemma len_put_le: "len (put k v m) \<le> Suc (len m)"
  by (simp add: len_put)

lemma len_put_ge: "len m \<le> len (put k v m)"
  by (simp add: len_put)

text \<open>What holds of every entry holds after an operation that keeps it for the entry it writes.\<close>

lemma all_put: "(\<And>k v. get m k = Some v \<Longrightarrow> P k v) \<Longrightarrow> P k0 v0 \<Longrightarrow>
    get (put k0 v0 m) k = Some v \<Longrightarrow> P k v"
  by (auto simp: get_put split: if_splits)

lemma all_del: "(\<And>k v. get m k = Some v \<Longrightarrow> P k v) \<Longrightarrow>
    get (del k0 m) k = Some v \<Longrightarrow> P k v"
  by (auto simp: get_del split: if_splits)

end

interpretation gm: go_map map_of AList.update AList.delete length mwf
  by unfold_locales (auto simp: mlen_mput_new mlen_mput_old mlen_mdel)

section \<open>Lists\<close>

lemma set_filter_append: "set (filter P (xs @ ys)) = {x \<in> set xs \<union> set ys. P x}"
  by auto

lemma take_append_eq: "n \<le> length xs \<Longrightarrow> take n (xs @ ys) = take n xs"
  by simp

lemma foldl_append_single: "foldl f a (xs @ [x]) = f (foldl f a xs) x"
  by simp

end
