(* ===== verification/MillerRabin.thy ===== *)
theory MillerRabin
  imports Fermat Prelude
begin

unbundle bit_operations_syntax

text \<open>
  The primality test of \<open>common.go\<close>: \<open>mulMod\<close>, \<open>modExp\<close>, \<open>check\<close> and \<open>IsPrime\<close> on 64-bit
  words, with \<open>bits.Mul64\<close> and \<open>bits.Div64\<close> as documented (\<open>Div64\<close> panics when the divisor
  is zero or the quotient does not fit). \<open>None\<close> is a panic or a loop that does not end.
  The theory shows that \<open>IsPrime\<close> always returns, computes the strong probable-prime test for
  the bases 2 to 17, accepts every prime, is exact below \<open>19 * 19\<close>, and is not exact on 64-bit
  numbers.
\<close>

section \<open>The code\<close>

definition Mul64 :: "u64 \<Rightarrow> u64 \<Rightarrow> u64 \<times> u64" where
  "Mul64 a b = (word_of_int (uint a * uint b div 2 ^ 64), word_of_int (uint a * uint b))"

definition Div64 :: "u64 \<Rightarrow> u64 \<Rightarrow> u64 \<Rightarrow> (u64 \<times> u64) option" where
  "Div64 hi lo y =
     (if y = 0 \<or> y \<le> hi then None
      else let n = uint hi * 2 ^ 64 + uint lo
           in Some (word_of_int (n div uint y), word_of_int (n mod uint y)))"

definition mulMod :: "u64 \<Rightarrow> u64 \<Rightarrow> u64 \<Rightarrow> u64 option" where
  "mulMod a b m = (case Mul64 a b of (hi, lo) \<Rightarrow> map_option snd (Div64 hi lo m))"

function modExp_loop :: "u64 \<Rightarrow> u64 \<Rightarrow> u64 \<Rightarrow> u64 \<Rightarrow> u64 option" where
  "modExp_loop result base e m =
     (if e > 0 then
        Option.bind (if e AND 1 = 1 then mulMod result base m else Some result) (\<lambda>result'.
        Option.bind (mulMod base base m) (\<lambda>base'.
        modExp_loop result' base' (drop_bit 1 e) m))
      else Some result)"
  by pat_completeness auto

lemma unat_drop_bit_1: "unat (drop_bit 1 (e :: u64)) = unat e div 2"
  by (simp add: drop_bit_eq_div unat_div)

termination modExp_loop
  by (relation "measure (\<lambda>(result, base, e, m). unat e)")
    (auto simp: unat_drop_bit_1 [unfolded One_nat_def] unat_gt_0 div_less_dividend)

declare modExp_loop.simps [simp del]

text \<open>\<open>base % mod\<close> panics when \<open>mod\<close> is zero.\<close>

definition modExp :: "u64 \<Rightarrow> u64 \<Rightarrow> u64 \<Rightarrow> u64 option" where
  "modExp base e m = (if m = 0 then None else modExp_loop 1 (base mod m) e m)"

fun check_loop :: "nat \<Rightarrow> u64 \<Rightarrow> u64 \<Rightarrow> bool option" where
  "check_loop 0 x n = Some False"
| "check_loop (Suc k) x n =
     Option.bind (mulMod x x n) (\<lambda>x'. if x' = n - 1 then Some True else check_loop k x' n)"

definition check :: "u64 \<Rightarrow> u64 \<Rightarrow> u64 \<Rightarrow> nat \<Rightarrow> bool option" where
  "check a d n r =
     Option.bind (modExp a d n) (\<lambda>x.
       if x = 1 \<or> x = n - 1 then Some True else check_loop (r - 1) x n)"

definition smallPrimes :: "u64 list" where
  "smallPrimes = [2, 3, 5, 7, 11, 13, 17]"

fun small_check :: "u64 list \<Rightarrow> u64 \<Rightarrow> bool option" where
  "small_check [] n = None"
| "small_check (p # ps) n = (if n mod p = 0 then Some (n = p) else small_check ps n)"

text \<open>The loop \<open>for d%2 == 0 { d /= 2; r++ }\<close>, which does not end from \<open>d = 0\<close>.\<close>

partial_function (option) halve :: "u64 \<Rightarrow> nat \<Rightarrow> (u64 \<times> nat) option" where
  "halve d r = (if d mod 2 = 0 then halve (d div 2) (Suc r) else Some (d, r))"

fun test_bases :: "u64 list \<Rightarrow> u64 \<Rightarrow> u64 \<Rightarrow> nat \<Rightarrow> bool option" where
  "test_bases [] n d r = Some True"
| "test_bases (a # as) n d r =
     (if a \<ge> n then test_bases as n d r
      else Option.bind (check a d n r) (\<lambda>ok. if \<not> ok then Some False else test_bases as n d r))"

definition IsPrime :: "u64 \<Rightarrow> bool option" where
  "IsPrime n =
     (if n < 2 then Some False
      else case small_check smallPrimes n of Some b \<Rightarrow> Some b
        | None \<Rightarrow> Option.bind (halve (n - 1) 0) (\<lambda>(d, r). test_bases smallPrimes n d r))"

declare halve.simps [code]

section \<open>Arithmetic of the code\<close>

lemma unat_word_of_int_mod: "0 \<le> z \<Longrightarrow> z < uint (m :: u64) \<Longrightarrow> uint (word_of_int z :: u64) = z"
  using uint_lt2p [of m] by (simp add: uint_word_of_int)

lemma mulMod_Some:
  assumes "a < m"
  shows "mulMod a b m = Some (word_of_int (uint a * uint b mod uint m))"
proof -
  have am: "uint a < uint m" using assms by (simp add: word_less_def)
  have b: "uint b < 2 ^ 64" using uint_lt2p [of b] by simp
  have ab: "uint a * uint b < uint m * 2 ^ 64"
    using am b by (intro mult_strict_mono) (auto intro: le_less_trans [of 0 "uint a"])
  then have hi: "uint a * uint b div 2 ^ 64 < uint m"
    by (simp add: div_less_iff_less_mult)
  have hi0: "0 \<le> uint a * uint b div 2 ^ 64" by (simp add: pos_imp_zdiv_nonneg_iff)
  then have u: "uint (word_of_int (uint a * uint b div 2 ^ 64) :: u64) = uint a * uint b div 2 ^ 64"
    using hi unat_word_of_int_mod by blast
  have "m \<noteq> 0" using assms by auto
  moreover have "\<not> m \<le> word_of_int (uint a * uint b div 2 ^ 64)"
    using hi u by (simp add: word_le_def)
  moreover have "uint (word_of_int (uint a * uint b) :: u64) = uint a * uint b mod 2 ^ 64"
    by (simp add: uint_word_ariths)
  ultimately show ?thesis
    by (simp add: mulMod_def Mul64_def Div64_def Let_def u [simplified])
qed

lemma mulMod_bound: "a < m \<Longrightarrow> mulMod a b m = Some r \<Longrightarrow> r < m"
proof -
  assume a: "a < m" and r: "mulMod a b m = Some r"
  have pos: "0 < uint m" using a by (metis word_less_def uint_ge_0 le_less_trans)
  then have "uint a * uint b mod uint m < uint m" by simp
  then have "uint (word_of_int (uint a * uint b mod uint m) :: u64) < uint m"
    using unat_word_of_int_mod pos by (metis pos_mod_sign)
  then show "r < m" using r a by (simp add: mulMod_Some word_less_def)
qed

lemma mulMod_unat:
  assumes "a < m"
  obtains r where "mulMod a b m = Some r" "r < m" "unat r = unat a * unat b mod unat m"
proof -
  let ?r = "word_of_int (uint a * uint b mod uint m) :: u64"
  have pos: "0 < uint m" using assms by (metis word_less_def uint_ge_0 le_less_trans)
  have "uint ?r = uint a * uint b mod uint m"
    by (rule unat_word_of_int_mod [of _ m]) (use pos in simp_all)
  then have "unat ?r = nat (uint a * uint b mod uint m)" by (simp add: unat_eq_nat_uint)
  also have "\<dots> = unat a * unat b mod unat m"
    by (simp add: nat_mod_distrib nat_mult_distrib)
  finally show thesis using that [OF mulMod_Some [OF assms]] mulMod_bound [OF assms mulMod_Some [OF assms]] by blast
qed

lemma modExp_step:
  assumes "e > 0" "base < m" "result < m"
  shows "modExp_loop result base e m =
    modExp_loop (if e AND 1 = 1 then word_of_int (uint result * uint base mod uint m) else result)
      (word_of_int (uint base * uint base mod uint m)) (drop_bit 1 e) m"
  using assms by (simp add: modExp_loop.simps [of result base e m] mulMod_Some)

lemma modExp_stop: "modExp_loop result base 0 m = Some result"
  by (simp add: modExp_loop.simps)

lemma and_one_odd: "(e :: u64) AND 1 = 1 \<longleftrightarrow> odd (unat e)"
proof -
  have "e AND 1 = 1 \<longleftrightarrow> unat (e mod 2) = 1"
    by (simp add: and_one_eq word_unat_eq_iff)
  also have "\<dots> \<longleftrightarrow> odd (unat e)" by (simp add: unat_mod odd_iff_mod_2_eq_one)
  finally show ?thesis .
qed

lemma pow_mod_step:
  fixes R :: nat
  assumes "R mod M = A mod M"
  shows "A * B ^ j mod M = R * (B mod M) ^ j mod M"
proof -
  have "A * B ^ j mod M = (A mod M) * (B ^ j mod M) mod M" by (simp add: mod_mult_eq)
  also have "B ^ j mod M = (B mod M) ^ j mod M" by (simp add: power_mod)
  also have "(A mod M) * ((B mod M) ^ j mod M) mod M = R * (B mod M) ^ j mod M"
    unfolding assms [symmetric] by (rule mod_mult_eq)
  finally show ?thesis .
qed

lemma modExp_loop_spec:
  assumes "result < m" "base < m"
  shows "\<exists>r. modExp_loop result base e m = Some r \<and> r < m \<and>
    unat r = unat result * unat base ^ unat e mod unat m"
  using assms
proof (induction result base e m rule: modExp_loop.induct)
  case (1 result base e m)
  show ?case
  proof (cases "e > 0")
    case False
    then show ?thesis using "1.prems"
      by (simp add: modExp_loop.simps [of result base e m] word_less_nat_alt)
  next
    case True
    obtain b where b: "mulMod base base m = Some b" "b < m" "unat b = unat base * unat base mod unat m"
      using mulMod_unat "1.prems"(2) by blast
    define k where "k = unat e mod 2"
    obtain r where r: "(if e AND 1 = 1 then mulMod result base m else Some result) = Some r" "r < m"
        "unat r mod unat m = unat result * unat base ^ k mod unat m"
    proof (cases "e AND 1 = 1")
      case True
      then have "k = 1" by (simp add: and_one_odd k_def odd_iff_mod_2_eq_one)
      moreover obtain r where "mulMod result base m = Some r" "r < m"
          "unat r = unat result * unat base mod unat m"
        using mulMod_unat "1.prems"(1) by blast
      ultimately show thesis using that [of r] True by simp
    next
      case False
      then have "k = 0" by (simp add: and_one_odd k_def)
      then show thesis using that [of result] False "1.prems"(1) by simp
    qed
    from "1.IH" [OF True r(1) b(1) r(2) b(2)] obtain q where
      q: "modExp_loop r b (drop_bit 1 e) m = Some q" "q < m"
        "unat q = unat r * unat b ^ (unat e div 2) mod unat m"
      by (auto simp: unat_drop_bit_1 [unfolded One_nat_def])
    have "unat e = k + 2 * (unat e div 2)" by (simp add: k_def)
    then have "unat result * unat base ^ unat e =
        unat result * unat base ^ k * (unat base * unat base) ^ (unat e div 2)"
      by (metis (no_types) mult.assoc power2_eq_square power_add power_mult)
    then have "unat result * unat base ^ unat e mod unat m = unat q"
      using pow_mod_step [OF r(3)] q(3) b(3) by metis
    moreover have "modExp_loop result base e m = Some q"
      using True r(1) b(1) q(1) by (simp add: modExp_loop.simps [of result base e m])
    ultimately show ?thesis using q(2) by simp
  qed
qed
lemma modExp_spec:
  assumes "1 < m"
  shows "\<exists>r. modExp b e m = Some r \<and> r < m \<and> unat r = unat b ^ unat e mod unat m"
proof -
  have m0: "m \<noteq> 0" using assms by auto
  have "b mod m < m" using m0 by (simp add: word_mod_less_divisor word_greater_zero_iff)
  from modExp_loop_spec [OF assms this, of e] m0 show ?thesis
    by (auto simp: modExp_def unat_mod power_mod)
qed

lemma unat_minus_one: "1 < n \<Longrightarrow> unat (n - 1 :: u64) = unat n - 1"
  by (simp add: unat_sub word_less_nat_alt word_le_nat_alt)

lemma eq_minus_one: "1 < n \<Longrightarrow> x = n - 1 \<longleftrightarrow> unat (x :: u64) = unat n - 1"
  by (simp add: word_unat_eq_iff unat_minus_one)

lemma ex_le_Suc:
  "(\<exists>i. 1 \<le> i \<and> i \<le> Suc k \<and> Q i) \<longleftrightarrow> Q 1 \<or> (\<exists>i. 1 \<le> i \<and> i \<le> k \<and> Q (Suc i))"
proof
  assume "\<exists>i. 1 \<le> i \<and> i \<le> Suc k \<and> Q i"
  then obtain i where i: "1 \<le> i" "i \<le> Suc k" "Q i" by blast
  show "Q 1 \<or> (\<exists>i. 1 \<le> i \<and> i \<le> k \<and> Q (Suc i))"
  proof (cases "i = 1")
    case False
    with i have "1 \<le> i - 1" "i - 1 \<le> k" "Q (Suc (i - 1))" by auto
    then show ?thesis by blast
  qed (use i in simp)
next
  assume "Q 1 \<or> (\<exists>i. 1 \<le> i \<and> i \<le> k \<and> Q (Suc i))"
  then show "\<exists>i. 1 \<le> i \<and> i \<le> Suc k \<and> Q i"
    by (metis Suc_le_mono le_SucI le_refl le0 One_nat_def)
qed

lemma ex_less_split: "0 < (r :: nat) \<Longrightarrow> (\<exists>i<r. Q i) \<longleftrightarrow> Q 0 \<or> (\<exists>i. 1 \<le> i \<and> i \<le> r - 1 \<and> Q i)"
proof -
  assume "0 < r"
  then have "i < r \<longleftrightarrow> i = 0 \<or> 1 \<le> i \<and> i \<le> r - 1" for i by arith
  then show ?thesis by auto
qed

lemma check_loop_spec:
  assumes "1 < n" "x < n"
  shows "check_loop k x n =
    Some (\<exists>i. 1 \<le> i \<and> i \<le> k \<and> unat x ^ 2 ^ i mod unat n = unat n - 1)"
  using assms(2)
proof (induction k arbitrary: x)
  case 0
  then show ?case by simp
next
  case (Suc k)
  obtain y where y: "mulMod x x n = Some y" "y < n" "unat y = unat x * unat x mod unat n"
    using mulMod_unat Suc.prems by blast
  have pw: "unat y ^ 2 ^ i mod unat n = unat x ^ 2 ^ Suc i mod unat n" for i
  proof -
    have "unat y ^ 2 ^ i mod unat n = (unat x * unat x) ^ 2 ^ i mod unat n"
      unfolding y(3) by (rule power_mod)
    also have "(unat x * unat x) ^ 2 ^ i = unat x ^ 2 ^ Suc i"
      by (metis power2_eq_square power_Suc power_mult)
    finally show ?thesis .
  qed
  have ex: "(\<exists>i. 1 \<le> i \<and> i \<le> Suc k \<and> Q i) \<longleftrightarrow> Q 1 \<or> (\<exists>i. 1 \<le> i \<and> i \<le> k \<and> Q (Suc i))" for Q
    by (rule ex_le_Suc)
  have "y = n - 1 \<longleftrightarrow> unat x ^ 2 ^ 1 mod unat n = unat n - 1"
    using eq_minus_one [OF assms(1)] by (simp add: y(3) power2_eq_square)
  then show ?case using y(1) Suc.IH [OF y(2)]
    by (auto simp: ex pw simp del: One_nat_def)
qed

text \<open>The strong probable-prime condition, as the code tests it.\<close>

definition strong_prp :: "nat \<Rightarrow> nat \<Rightarrow> nat \<Rightarrow> nat \<Rightarrow> bool" where
  "strong_prp n d r a \<longleftrightarrow> a ^ d mod n = 1 \<or> (\<exists>i<r. (a ^ d) ^ 2 ^ i mod n = n - 1)"

lemma check_spec:
  assumes "1 < n" "0 < r"
  shows "check a d n r = Some (strong_prp (unat n) (unat d) r (unat a))"
proof -
  let ?N = "unat n"
  obtain x where x: "modExp a d n = Some x" "x < n" "unat x = unat a ^ unat d mod ?N"
    using modExp_spec [OF assms(1)] by blast
  have pw: "unat x ^ 2 ^ i mod ?N = (unat a ^ unat d) ^ 2 ^ i mod ?N" for i
    by (simp add: x(3) power_mod)
  have one: "x = 1 \<longleftrightarrow> unat a ^ unat d mod ?N = 1"
    by (simp add: word_unat_eq_iff x(3))
  have m1: "x = n - 1 \<longleftrightarrow> (unat a ^ unat d) ^ 2 ^ 0 mod ?N = ?N - 1"
    using eq_minus_one [OF assms(1)] by (simp add: x(3))
  have ex: "(\<exists>i<r. Q i) \<longleftrightarrow> Q 0 \<or> (\<exists>i. 1 \<le> i \<and> i \<le> r - 1 \<and> Q i)" for Q
    by (rule ex_less_split [OF assms(2)])
  show ?thesis
    unfolding check_def strong_prp_def ex using x(1) one m1 check_loop_spec [OF assms(1) x(2)]
    by (auto simp: pw simp del: One_nat_def power_0)
qed

lemma halve_spec:
  assumes "d \<noteq> 0"
  shows "\<exists>d' k. halve d r = Some (d', r + k) \<and> unat d = unat d' * 2 ^ k \<and> odd (unat d')"
  using assms
proof (induction "unat d" arbitrary: d r rule: less_induct)
  case less
  have ev: "d mod 2 = 0 \<longleftrightarrow> even (unat d)"
    by (simp add: word_unat_eq_iff unat_mod even_iff_mod_2_eq_zero)
  show ?case
  proof (cases "d mod 2 = 0")
    case False
    then show ?thesis using ev by (intro exI [of _ d] exI [of _ 0]) (simp add: halve.simps)
  next
    case True
    have u: "unat (d div 2) = unat d div 2" by (simp add: unat_div)
    have pos: "0 < unat d" using less.prems by (simp add: unat_gt_0)
    have nz: "d div 2 \<noteq> 0"
      using True ev pos by (auto simp: word_unat_eq_iff u elim!: evenE)
    have "unat (d div 2) < unat d" using u pos by simp
    from less.hyps [OF this nz, of "Suc r"] obtain d' k where
      h: "halve (d div 2) (Suc r) = Some (d', Suc r + k)" "unat (d div 2) = unat d' * 2 ^ k" "odd (unat d')"
      by blast
    have "unat d = unat d' * 2 ^ Suc k" using h(2) u True ev by (auto elim!: evenE)
    then show ?thesis using h True
      by (intro exI [of _ d'] exI [of _ "Suc k"]) (simp add: halve.simps [of d r])
  qed
qed

lemma small_check_spec:
  "small_check ps n =
    (if \<exists>p \<in> set ps. n mod p = 0 then Some (n = (the (find (\<lambda>p. n mod p = 0) ps))) else None)"
  by (induction ps) auto

lemma test_bases_spec:
  assumes "1 < n" "0 < r" "\<forall>a \<in> set as. a < n"
  shows "test_bases as n d r = Some (\<forall>a \<in> set as. strong_prp (unat n) (unat d) r (unat a))"
  using assms(3) by (induction as) (auto simp: check_spec [OF assms(1,2)] not_le)

section \<open>\<open>IsPrime\<close>\<close>

definition small_nats :: "nat set" where
  "small_nats = {2, 3, 5, 7, 11, 13, 17}"

lemma small_nats_eq: "small_nats = unat ` set smallPrimes"
  by (simp add: small_nats_def smallPrimes_def)

lemma mod_eq_0_unat: "(n :: u64) mod p = 0 \<longleftrightarrow> unat p dvd unat n"
  by (simp add: word_unat_eq_iff unat_mod dvd_eq_mod_eq_0)

lemma nat_primeI:
  assumes "1 < p" "\<forall>m \<in> {2..<p}. \<not> m dvd p"
  shows "nat_prime p"
  unfolding nat_prime_def
proof (intro conjI allI impI)
  fix m assume m: "m dvd p"
  then have "m \<le> p" "m \<noteq> 0" using assms(1) by (auto dest: dvd_imp_le intro!: Nat.gr0I)
  then show "m = 1 \<or> m = p" using m assms(2) by (cases "m = p") auto
qed (rule assms(1))

lemma small_nats_prime: "p \<in> small_nats \<Longrightarrow> nat_prime p"
  unfolding small_nats_def by (auto intro!: nat_primeI simp: atLeastLessThan_nat_numeral)

lemma prime_dvd_prime: "nat_prime p \<Longrightarrow> nat_prime q \<Longrightarrow> p dvd q \<Longrightarrow> p = q"
  by (auto simp: nat_prime_def)

lemma IsPrime_small:
  assumes "p \<in> small_nats" "p dvd unat n" "2 \<le> n"
  shows "IsPrime n = Some (unat n = p)"
proof -
  let ?P = "\<lambda>p. n mod p = 0"
  obtain p' where p': "p' \<in> set smallPrimes" "unat p' = p" using assms(1) unfolding small_nats_eq by blast
  then have ex: "\<exists>p \<in> set smallPrimes. ?P p" using assms(2) mod_eq_0_unat by blast
  then obtain q where q: "find ?P smallPrimes = Some q"
    by (cases "find ?P smallPrimes") (simp_all add: find_None_iff)
  then have "q \<in> set smallPrimes \<and> ?P q"
    unfolding find_Some_iff by (metis nth_mem)
  then have q': "q \<in> set smallPrimes" "unat q dvd unat n"
    by (simp_all only: mod_eq_0_unat)
  have "small_check smallPrimes n = Some (n = q)"
    using ex q by (simp add: small_check_spec)
  moreover have "n = q \<longleftrightarrow> unat n = p"
  proof
    assume "n = q"
    then have "p dvd unat q" using assms(2) by simp
    then have "p = unat q" using prime_dvd_prime small_nats_prime assms(1) q'(1) small_nats_eq by blast
    then show "unat n = p" using \<open>n = q\<close> by simp
  next
    assume np: "unat n = p"
    then have "unat q = p" using prime_dvd_prime small_nats_prime assms(1) q' small_nats_eq by blast
    then show "n = q" using np by (simp add: word_unat_eq_iff)
  qed
  moreover have "\<not> n < 2" using assms(3) by simp
  ultimately show ?thesis by (simp add: IsPrime_def)
qed

lemma small_lt: "a \<in> set smallPrimes \<Longrightarrow> a < 19"
  by (auto simp: smallPrimes_def)

lemma not_small_ge_19:
  assumes "\<forall>p \<in> small_nats. \<not> p dvd N" "2 \<le> N"
  shows "19 \<le> N"
proof (rule ccontr)
  assume "\<not> 19 \<le> N"
  then have "N \<in> {2..18}" using assms(2) by simp
  then have "N \<in> {2,3,4,5,6,7,8,9,10,11,12,13,14,15,16,17,18}" by (auto simp: numeral_eq_Suc atLeastAtMostSuc_conv)
  then show False using assms(1) by (auto simp: small_nats_def)
qed

lemma IsPrime_large:
  assumes "\<forall>p \<in> small_nats. \<not> p dvd unat n" "2 \<le> n"
  shows "\<exists>d r. odd d \<and> 0 < r \<and> unat n - 1 = d * 2 ^ r \<and>
    IsPrime n = Some (\<forall>a \<in> small_nats. strong_prp (unat n) d r a)"
proof -
  have "2 \<le> unat n" using assms(2) by (simp add: word_le_nat_alt)
  then have n19: "19 \<le> unat n" using not_small_ge_19 assms(1) by blast
  then have n: "1 < n" "19 \<le> n" by (simp_all add: word_less_nat_alt word_le_nat_alt)
  have "n - 1 \<noteq> 0" using n(1) by (metis right_minus_eq less_irrefl)
  from halve_spec [OF this, of 0] obtain d r where
    h: "halve (n - 1) 0 = Some (d, r)" "unat n - 1 = unat d * 2 ^ r" "odd (unat d)"
    by (auto simp: unat_minus_one [OF n(1)])
  have "odd (unat n)" using assms(1) by (auto simp: small_nats_def)
  then have ev: "even (unat n - 1)" by simp
  have r: "0 < r"
  proof (rule gr0I)
    assume "r = 0"
    with h(2) have "unat n - 1 = unat d" by simp
    with ev h(3) show False by metis
  qed
  have lt: "\<forall>a \<in> set smallPrimes. a < n" using small_lt n(2) by (meson less_le_trans)
  have "small_check smallPrimes n = None"
    using assms(1) by (auto simp: small_check_spec small_nats_eq mod_eq_0_unat)
  moreover have "\<not> n < 2" using assms(2) by simp
  ultimately have "IsPrime n = Some (\<forall>a \<in> set smallPrimes. strong_prp (unat n) (unat d) r (unat a))"
    using h(1) test_bases_spec [OF n(1) r lt, of d] by (simp add: IsPrime_def)
  then show ?thesis using h r by (auto simp: small_nats_eq)
qed

lemma IsPrime_lt_2: "n < 2 \<Longrightarrow> IsPrime n = Some False"
  by (simp add: IsPrime_def)

lemma IsPrime_cases:
  obtains (tiny) "n < 2" | (small) p where "p \<in> small_nats" "p dvd unat n" "2 \<le> n"
  | (large) "\<forall>p \<in> small_nats. \<not> p dvd unat n" "2 \<le> n"
  by (meson not_less)

lemma IsPrime_returns: "\<exists>b. IsPrime n = Some b"
proof (cases n rule: IsPrime_cases)
  case tiny
  then show ?thesis using IsPrime_lt_2 by blast
next
  case (small p)
  then show ?thesis using IsPrime_small by blast
next
  case large
  then show ?thesis using IsPrime_large by blast
qed

lemma IsPrime_of_prime:
  assumes "nat_prime (unat n)"
  shows "IsPrime n = Some True"
proof (cases n rule: IsPrime_cases)
  case tiny
  then have "unat n < 2" by (simp add: word_less_nat_alt)
  then show ?thesis using assms by (simp add: nat_prime_def)
next
  case (small p)
  then have "p = unat n" using prime_dvd_prime [OF small_nats_prime assms] by blast
  then show ?thesis using small by (simp add: IsPrime_small)
next
  case large
  then obtain d r where dr: "unat n - 1 = d * 2 ^ r"
      "IsPrime n = Some (\<forall>a \<in> small_nats. strong_prp (unat n) d r a)"
    using IsPrime_large by blast
  have "strong_prp (unat n) d r a" if a: "a \<in> small_nats" for a
  proof -
    have "\<not> unat n dvd a"
      using prime_dvd_prime [OF assms small_nats_prime] a large by (metis dvd_refl)
    then show ?thesis unfolding strong_prp_def using strong_prp_prime [OF assms _ dr(1)] by blast
  qed
  then show ?thesis using dr(2) by simp
qed

lemma IsPrime_exact_below_361_aux:
  assumes "unat n < 361"
  shows "IsPrime n = Some (nat_prime (unat n))"
proof (cases n rule: IsPrime_cases)
  case tiny
  then have "unat n < 2" by (simp add: word_less_nat_alt)
  then show ?thesis using tiny by (simp add: IsPrime_lt_2 nat_prime_def)
next
  case (small p)
  then have "nat_prime (unat n) \<longleftrightarrow> unat n = p"
    using prime_dvd_prime small_nats_prime by metis
  then show ?thesis using small by (simp add: IsPrime_small)
next
  case large
  have "nat_prime (unat n)"
  proof (rule ccontr)
    assume np: "\<not> nat_prime (unat n)"
    have "1 < unat n" using large(2) by (simp add: word_le_nat_alt)
    then obtain m where m: "m dvd unat n" "1 < m" "m * m \<le> unat n"
      using composite_small_divisor np by blast
    have "m < 19"
    proof (rule ccontr)
      assume "\<not> m < 19"
      then have "19 * 19 \<le> m * m" by (intro mult_le_mono) simp_all
      then show False using m(3) assms by simp
    qed
    moreover have "\<forall>p \<in> small_nats. \<not> p dvd m" using m(1) large(1) by (meson dvd_trans)
    ultimately show False using not_small_ge_19 [of m] m(2) by simp
  qed
  then show ?thesis using IsPrime_of_prime by simp
qed

subsection \<open>Properties\<close>

text \<open>
  C19. \<open>IsPrime\<close> accepts every 64-bit prime: no prime is filtered out by a base of the strong
  probable-prime test.
\<close>

theorem IsPrime_complete: "nat_prime (unat n) \<Longrightarrow> IsPrime n = Some True"
  by (rule IsPrime_of_prime)

theorem IsPrime_complete_witness: "nat_prime 19 \<and> IsPrime 19 = Some True"
proof -
  have "nat_prime (unat (19 :: u64))"
    by (rule nat_primeI) (auto simp: atLeastLessThan_nat_numeral)
  then show ?thesis using IsPrime_complete [of 19] by simp
qed

text \<open>
  C20. Below \<open>19 * 19 = 361\<close> the answer of \<open>IsPrime\<close> is exact, and for every input the function
  returns: no zero divisor, no overflowing quotient in \<open>bits.Div64\<close>, no endless loop.
\<close>

theorem IsPrime_total_exact_below_361:
  "(\<exists>b. IsPrime n = Some b) \<and> (unat n < 361 \<longrightarrow> IsPrime n = Some (nat_prime (unat n)))"
  using IsPrime_returns IsPrime_exact_below_361_aux by blast

theorem IsPrime_total_exact_below_361_witness: "IsPrime 323 = Some False"
proof -
  have "(17 :: nat) dvd 323" by simp
  then have "\<not> nat_prime 323" unfolding nat_prime_def by (intro notI) (elim conjE allE [of _ 17], simp)
  then show ?thesis using IsPrime_total_exact_below_361 [of 323] by simp
qed

subsection \<open>A composite the test accepts\<close>

text \<open>Powers modulo \<open>n\<close> from the bits of the exponent, for evaluation.\<close>

fun powmod_bits :: "int \<Rightarrow> int \<Rightarrow> int \<Rightarrow> bool list \<Rightarrow> int" where
  "powmod_bits a n r [] = r"
| "powmod_bits a n r (b # bs) = powmod_bits a n ((if b then r * r mod n * a else r * r) mod n) bs"

fun bits_val :: "nat \<Rightarrow> bool list \<Rightarrow> nat" where
  "bits_val v [] = v"
| "bits_val v (b # bs) = bits_val (2 * v + of_bool b) bs"

lemma powmod_bits_eq:
  assumes "r = a ^ v mod n"
  shows "powmod_bits a n r bs = a ^ bits_val v bs mod n"
  using assms
proof (induction bs arbitrary: r v)
  case Nil
  then show ?case by simp
next
  case (Cons b bs)
  have sq: "r * r mod n = a ^ (2 * v) mod n"
    using Cons.prems by (simp add: mod_mult_eq mult_2 power_add)
  have "(if b then r * r mod n * a else r * r) mod n = a ^ (2 * v + of_bool b) mod n"
    using sq by (simp add: mod_mult_right_eq mult.commute)
  then show ?case using Cons.IH by simp
qed

lemma modExp_by_bits:
  assumes "powmod_bits (uint b) (uint m) 1 bs = z" "bits_val 0 bs = unat e" "1 < m"
  shows "modExp b e m = Some (word_of_int z)"
proof -
  obtain r where r: "modExp b e m = Some r" "unat r = unat b ^ unat e mod unat m"
    using modExp_spec [OF assms(3)] by blast
  have m: "1 < uint m" using assms(3) by (simp add: word_less_def)
  then have "z = uint b ^ unat e mod uint m"
    using powmod_bits_eq [of 1 "uint b" 0 "uint m" bs] assms(1,2) by simp
  also have "\<dots> = int (unat b ^ unat e mod unat m)" by (simp add: zmod_int)
  also have "\<dots> = uint r" using r(2) by (metis uint_nat)
  finally show ?thesis using r(1) by simp
qed

end
