(* ===== verification/PseudoPrime.thy ===== *)
theory PseudoPrime
  imports MillerRabin
begin

text \<open>
  The least composite that is a strong probable prime for all the bases \<open>IsPrime\<close> tries,
  evaluated in the kernel: powers modulo \<open>n\<close> are computed from the bits of the exponent
  (\<open>modExp_by_bits\<close>), the rest of the test by rewriting.
\<close>

definition pseudo_bits :: "bool list" where
  "pseudo_bits = map (\<lambda>c. c = CHR ''1'') ''1001101101010001101010010101100101100100011''"

lemma pseudo_bits_val: "bits_val 0 pseudo_bits = 5336719870755"
  by (simp add: pseudo_bits_def)

lemma pseudo_pow_2: "powmod_bits 2 341550071728321 1 pseudo_bits = 27393523843088"
  by code_simp

lemma pseudo_pow_3: "powmod_bits 3 341550071728321 1 pseudo_bits = 1"
  by code_simp

lemma pseudo_pow_5: "powmod_bits 5 341550071728321 1 pseudo_bits = 314156547885233"
  by code_simp

lemma pseudo_pow_7: "powmod_bits 7 341550071728321 1 pseudo_bits = 1"
  by code_simp

lemma pseudo_pow_11: "powmod_bits 11 341550071728321 1 pseudo_bits = 1"
  by code_simp

lemma pseudo_pow_13: "powmod_bits 13 341550071728321 1 pseudo_bits = 1"
  by code_simp

lemma pseudo_pow_17: "powmod_bits 17 341550071728321 1 pseudo_bits = 305393958919937"
  by code_simp

lemmas pseudo_pow = pseudo_pow_2 pseudo_pow_3 pseudo_pow_5 pseudo_pow_7 pseudo_pow_11 pseudo_pow_13 pseudo_pow_17

lemma pseudo_modExp:
  "modExp 2 5336719870755 341550071728321 = Some 27393523843088"
  "modExp 3 5336719870755 341550071728321 = Some 1"
  "modExp 5 5336719870755 341550071728321 = Some 314156547885233"
  "modExp 7 5336719870755 341550071728321 = Some 1"
  "modExp 11 5336719870755 341550071728321 = Some 1"
  "modExp 13 5336719870755 341550071728321 = Some 1"
  "modExp 17 5336719870755 341550071728321 = Some 305393958919937"
  by (simp_all add: modExp_by_bits [where bs = pseudo_bits, OF refl] pseudo_pow pseudo_bits_val)

lemma pseudo_square:
  "mulMod 27393523843088 27393523843088 341550071728321 = Some 341550071728320"
  "mulMod 314156547885233 314156547885233 341550071728321 = Some 341550071728320"
  "mulMod 305393958919937 305393958919937 341550071728321 = Some 341550071728320"
  by (simp_all add: mulMod_Some)

lemma pseudo_halve: "halve 341550071728320 0 = Some (5336719870755, 6)"
  by (simp add: halve.simps)

lemma pseudo_check: "a \<in> {2, 3, 5, 7, 11, 13, 17} \<Longrightarrow> check a 5336719870755 341550071728321 6 = Some True"
  by (auto simp: check_def pseudo_modExp pseudo_square numeral_eq_Suc)

text \<open>
  \<open>IsPrime\<close> is called deterministic for 64-bit integers, but the seven bases decide only up to
  \<open>341550071728320\<close>: the next number, \<open>10670053 * 32010157\<close>, is composite and accepted.
\<close>

theorem IsPrime_false_positive:
  "IsPrime 341550071728321 = Some True \<and> \<not> nat_prime 341550071728321"
proof
  show "IsPrime 341550071728321 = Some True"
    by (simp add: IsPrime_def smallPrimes_def pseudo_halve pseudo_check)
  have "(10670053 :: nat) dvd 341550071728321" by simp
  then show "\<not> nat_prime 341550071728321"
    unfolding nat_prime_def by (intro notI) (elim conjE allE [of _ 10670053], simp)
qed

end
