(* ===== verification/GoStrings.thy ===== *)
theory GoStrings
  imports Prelude
begin

text \<open>
  The functions of Go's \<open>strings\<close>, \<open>strconv\<close> and \<open>fmt\<close> that the program calls, by
  their documented behaviour, on byte strings; and the two text searches the program writes
  itself (\<open>containsStr\<close>, \<open>isAlreadyExists\<close> of \<open>server_handle.go\<close>,
  \<open>extractLeaderAddr\<close> of \<open>client_basics.go\<close>).
\<close>

section \<open>Prefixes, suffixes, substrings\<close>

definition HasPrefix :: "string \<Rightarrow> string \<Rightarrow> bool" where
  "HasPrefix s p \<longleftrightarrow> take (length p) s = p"

definition HasSuffix :: "string \<Rightarrow> string \<Rightarrow> bool" where
  "HasSuffix s q \<longleftrightarrow> HasPrefix (rev s) (rev q)"

definition TrimPrefix :: "string \<Rightarrow> string \<Rightarrow> string" where
  "TrimPrefix s p = (if HasPrefix s p then drop (length p) s else s)"

definition TrimSuffix :: "string \<Rightarrow> string \<Rightarrow> string" where
  "TrimSuffix s q = (if HasSuffix s q then take (length s - length q) s else s)"

fun Contains :: "string \<Rightarrow> string \<Rightarrow> bool" where
  "Contains [] q \<longleftrightarrow> q = []"
| "Contains (c # cs) q \<longleftrightarrow> HasPrefix (c # cs) q \<or> Contains cs q"

lemma HasPrefix_append [simp, go_simps]: "HasPrefix (p @ s) p"
  by (simp add: HasPrefix_def)

lemma HasPrefix_iff: "HasPrefix s p \<longleftrightarrow> (\<exists>t. s = p @ t)"
  unfolding HasPrefix_def by (metis append_eq_conv_conj append_take_drop_id)

lemma HasPrefix_Nil [simp]: "HasPrefix s []"
  by (simp add: HasPrefix_def)

lemma HasPrefix_Nil2 [simp]: "HasPrefix [] p \<longleftrightarrow> p = []"
  by (auto simp: HasPrefix_def)

lemma HasPrefix_Cons [simp]: "HasPrefix (c # s) (d # p) \<longleftrightarrow> c = d \<and> HasPrefix s p"
  by (auto simp: HasPrefix_def)

lemma HasSuffix_iff: "HasSuffix s q \<longleftrightarrow> (\<exists>t. s = t @ q)"
  unfolding HasSuffix_def HasPrefix_iff by (metis rev_append rev_rev_ident)

lemma TrimPrefix_append [simp, go_simps]: "TrimPrefix (p @ s) p = s"
  by (simp add: TrimPrefix_def)

lemma TrimSuffix_append [simp, go_simps]: "TrimSuffix (s @ q) q = s"
  by (simp add: TrimSuffix_def HasSuffix_iff)

lemma Contains_iff: "Contains s q \<longleftrightarrow> (\<exists>a b. s = a @ q @ b)"
proof (induction s)
  case Nil
  then show ?case by auto
next
  case (Cons c cs)
  show ?case
  proof
    assume "Contains (c # cs) q"
    then consider "HasPrefix (c # cs) q" | "Contains cs q" by auto
    then show "\<exists>a b. c # cs = a @ q @ b"
    proof cases
      case 1
      then show ?thesis unfolding HasPrefix_iff by (metis append_Nil)
    next
      case 2
      then show ?thesis using Cons.IH by (metis append_Cons)
    qed
  next
    assume "\<exists>a b. c # cs = a @ q @ b"
    then obtain a b where ab: "c # cs = a @ q @ b" by blast
    show "Contains (c # cs) q"
    proof (cases a)
      case Nil
      with ab have "HasPrefix (c # cs) q" by (simp add: HasPrefix_iff)
      then show ?thesis by simp
    next
      case (Cons d ds)
      with ab have "cs = ds @ q @ b" by simp
      then show ?thesis using Cons.IH by auto
    qed
  qed
qed

lemma Contains_append_left: "Contains s q \<Longrightarrow> Contains (t @ s) q"
  unfolding Contains_iff by (metis append_assoc)

lemma Contains_append_right: "Contains s q \<Longrightarrow> Contains (s @ t) q"
  unfolding Contains_iff by (metis append_assoc)

subsection \<open>The program's own search\<close>

text \<open>
  \<open>containsStr\<close> of \<open>server_handle.go\<close>: a loop over the start positions
  \<open>0 .. len(s) - len(sub)\<close> that compares slices.
\<close>

fun containsStr_from :: "string \<Rightarrow> string \<Rightarrow> nat \<Rightarrow> nat \<Rightarrow> bool" where
  "containsStr_from s sub i 0 = False"
| "containsStr_from s sub i (Suc n) =
     (if take (length sub) (drop i s) = sub then True else containsStr_from s sub (Suc i) n)"

definition containsStr :: "string \<Rightarrow> string \<Rightarrow> bool" where
  "containsStr s sub \<longleftrightarrow>
     length s \<ge> length sub \<and> containsStr_from s sub 0 (Suc (length s - length sub))"

lemma containsStr_from_iff:
  "containsStr_from s sub i n \<longleftrightarrow> (\<exists>j. i \<le> j \<and> j < i + n \<and> take (length sub) (drop j s) = sub)"
proof (induction n arbitrary: i)
  case 0
  then show ?case by simp
next
  case (Suc n)
  have "(\<exists>j. i \<le> j \<and> j < i + Suc n \<and> take (length sub) (drop j s) = sub) \<longleftrightarrow>
      take (length sub) (drop i s) = sub \<or>
      (\<exists>j. Suc i \<le> j \<and> j < Suc i + n \<and> take (length sub) (drop j s) = sub)"
    by (metis Suc_leD Suc_leI add_Suc add_Suc_right le_eq_less_or_eq less_add_Suc1 le_refl)
  with Suc.IH show ?case by simp
qed

lemma containsStr_iff: "containsStr s sub \<longleftrightarrow> (\<exists>a b. s = a @ sub @ b)"
proof
  assume "containsStr s sub"
  then obtain j where "take (length sub) (drop j s) = sub"
    by (auto simp: containsStr_def containsStr_from_iff simp del: containsStr_from.simps)
  then have "s = take j s @ sub @ drop (length sub) (drop j s)"
    by (metis append_take_drop_id)
  then show "\<exists>a b. s = a @ sub @ b" by blast
next
  assume "\<exists>a b. s = a @ sub @ b"
  then obtain a b where s: "s = a @ sub @ b" by blast
  then have "take (length sub) (drop (length a) s) = sub" by simp
  moreover have "length a < 0 + Suc (length s - length sub)" using s by simp
  ultimately have "containsStr_from s sub 0 (Suc (length s - length sub))"
    unfolding containsStr_from_iff by blast
  then show "containsStr s sub" using s by (simp add: containsStr_def)
qed

text \<open>\<open>isAlreadyExists\<close> decides by the text of the error.\<close>

definition isAlreadyExists :: "go_error option \<Rightarrow> bool" where
  "isAlreadyExists err = (case err of None \<Rightarrow> False
     | Some e \<Rightarrow> containsStr (go_text e) ''AlreadyExists''
               \<or> containsStr (go_text e) ''already exists'')"

section \<open>White space\<close>

text \<open>
  \<open>unicode.IsSpace\<close> on UTF-8 text: the encodings of the code points it accepts. The lead
  bytes of the longer ones never occur inside another encoding, so a space starts at a byte
  position exactly when one of these byte sequences does.
\<close>

definition space_runes :: "string list" where
  "space_runes =
    [[CHR 0x09], [CHR 0x0A], [CHR 0x0B], [CHR 0x0C], [CHR 0x0D], [CHR 0x20],
     [CHR 0xC2, CHR 0x85], [CHR 0xC2, CHR 0xA0], [CHR 0xE1, CHR 0x9A, CHR 0x80],
     [CHR 0xE2, CHR 0x80, CHR 0xA8], [CHR 0xE2, CHR 0x80, CHR 0xA9],
     [CHR 0xE2, CHR 0x80, CHR 0xAF], [CHR 0xE2, CHR 0x81, CHR 0x9F],
     [CHR 0xE3, CHR 0x80, CHR 0x80], [CHR 0xE2, CHR 0x80, CHR 0x80],
     [CHR 0xE2, CHR 0x80, CHR 0x81], [CHR 0xE2, CHR 0x80, CHR 0x82],
     [CHR 0xE2, CHR 0x80, CHR 0x83], [CHR 0xE2, CHR 0x80, CHR 0x84],
     [CHR 0xE2, CHR 0x80, CHR 0x85], [CHR 0xE2, CHR 0x80, CHR 0x86],
     [CHR 0xE2, CHR 0x80, CHR 0x87], [CHR 0xE2, CHR 0x80, CHR 0x88],
     [CHR 0xE2, CHR 0x80, CHR 0x89], [CHR 0xE2, CHR 0x80, CHR 0x8A]]"

definition space_width :: "string list \<Rightarrow> string \<Rightarrow> nat" where
  "space_width ws s = (case find (HasPrefix s) ws of None \<Rightarrow> 0 | Some w \<Rightarrow> length w)"

function trim_left :: "string list \<Rightarrow> string \<Rightarrow> string" where
  "trim_left ws s = (if s = [] \<or> space_width ws s = 0 then s
     else trim_left ws (drop (space_width ws s) s))"
  by pat_completeness auto
termination
  by (relation "measure (\<lambda>(ws, s). length s)") auto

declare trim_left.simps [simp del]

definition TrimSpace :: "string \<Rightarrow> string" where
  "TrimSpace s = rev (trim_left (map rev space_runes) (rev (trim_left space_runes s)))"

text \<open>\<open>strings.Fields\<close>: the maximal runs of bytes between spaces; \<open>cur\<close> is the run being
  read, in reverse.\<close>

definition flush :: "string \<Rightarrow> string list" where
  "flush cur = (if cur = [] then [] else [rev cur])"

function fields_from :: "string \<Rightarrow> string \<Rightarrow> string list" where
  "fields_from cur [] = flush cur"
| "fields_from cur (c # cs) =
     (if space_width space_runes (c # cs) = 0 then fields_from (c # cur) cs
      else flush cur @ fields_from [] (drop (space_width space_runes (c # cs)) (c # cs)))"
  by pat_completeness auto
termination
  by (relation "measure (\<lambda>(cur, s). length s)") auto

declare fields_from.simps(2) [simp del]

definition Fields :: "string \<Rightarrow> string list" where
  "Fields s = fields_from [] s"

definition plain_char :: "char \<Rightarrow> bool" where
  "plain_char c \<longleftrightarrow> c \<notin> hd ` set space_runes"

text \<open>No space starts or ends with a printable ASCII character.\<close>

lemma space_width_plain: "plain_char c \<Longrightarrow> space_width space_runes (c # cs) = 0"
  by (auto simp: plain_char_def space_width_def space_runes_def)

lemma space_width_newline: "space_width space_runes (CHR 0x0A # cs) = 1"
  by (simp add: space_width_def space_runes_def)

lemma fields_from_plain:
  "\<forall>c \<in> set w. plain_char c \<Longrightarrow> fields_from cur (w @ s) = fields_from (rev w @ cur) s"
  by (induction w arbitrary: cur) (simp_all add: fields_from.simps(2) space_width_plain)

lemma fields_from_newline: "fields_from cur (CHR 0x0A # s) = flush cur @ fields_from [] s"
  by (simp add: fields_from.simps(2) space_width_newline)

lemma Fields_line:
  "w \<noteq> [] \<Longrightarrow> \<forall>c \<in> set w. plain_char c \<Longrightarrow> Fields (w @ CHR 0x0A # s) = w # Fields s"
  by (simp add: Fields_def fields_from_plain fields_from_newline flush_def)

lemma Fields_single:
  "w \<noteq> [] \<Longrightarrow> \<forall>c \<in> set w. plain_char c \<Longrightarrow> Fields w = [w]"
  using fields_from_plain [of w "[]" "[]"] by (simp add: Fields_def flush_def)

lemma Fields_Nil [simp]: "Fields [] = []"
  by (simp add: Fields_def flush_def)

section \<open>Splitting\<close>

text \<open>\<open>strings.Split(s, sep)\<close> for a non-empty separator.\<close>

function split_from :: "string \<Rightarrow> string \<Rightarrow> string \<Rightarrow> string list" where
  "split_from sep cur [] = [rev cur]"
| "split_from sep cur (c # cs) =
     (if sep \<noteq> [] \<and> HasPrefix (c # cs) sep
      then rev cur # split_from sep [] (drop (length sep) (c # cs))
      else split_from sep (c # cur) cs)"
  by pat_completeness auto
termination
  by (relation "measure (\<lambda>(sep, cur, s). length s)") (auto simp: length_greater_0_conv)

definition Split :: "string \<Rightarrow> string \<Rightarrow> string list" where
  "Split s sep = split_from sep [] s"

lemma split_from_not_Nil [simp]: "split_from sep cur s \<noteq> []"
  by (induction sep cur s rule: split_from.induct) auto

text \<open>\<open>extractLeaderAddr\<close> of \<open>client_basics.go\<close>: the text after the last \<open>": "\<close> of an
  error that says \<open>not leader\<close>.\<close>

definition extractLeaderAddr :: "rpc_error \<Rightarrow> string option" where
  "extractLeaderAddr e =
     (let msg = error_text e; parts = Split msg '': ''
      in if \<not> Contains msg ''not leader'' then None
         else if length parts < 2 then None
         else Some (last parts))"

lemma last_split_from:
  assumes "sep \<noteq> []" and "\<not> Contains t sep"
  shows "last (split_from sep cur t) = rev cur @ t"
  using assms by (induction sep cur t rule: split_from.induct) auto

lemma split_from_last2:
  assumes "a \<noteq> b" and "\<not> Contains t [a, b]"
  shows "2 \<le> length (split_from [a, b] cur (s @ a # b # t)) \<and>
         last (split_from [a, b] cur (s @ a # b # t)) = t"
proof (induction "length s" arbitrary: s cur rule: less_induct)
  case less
  show ?case
  proof (cases s)
    case Nil
    have "last (split_from [a, b] [] t) = t"
      using last_split_from [of "[a, b]" t "[]"] assms(2) by simp
    then show ?thesis using Nil by (simp add: Suc_leI)
  next
    case (Cons c cs)
    show ?thesis
    proof (cases "HasPrefix (c # cs @ a # b # t) [a, b]")
      case False
      then show ?thesis using less.hyps [of cs "c # cur"] Cons by fastforce
    next
      case True
      then obtain cs' where cs: "cs = b # cs'" and c: "c = a"
        using assms(1) by (cases cs) auto
      then show ?thesis using less.hyps [of cs' "[]"] Cons by simp
    qed
  qed
qed

lemma extractLeaderAddr_not_leader:
  assumes "\<not> Contains addr '': ''"
  shows "extractLeaderAddr (RpcError c (''not leader: '' @ addr)) = Some addr"
proof -
  let ?msg = "error_text (RpcError c (''not leader: '' @ addr))"
  let ?pre = "''rpc error: code = '' @ code_name c @ '' desc = not leader''"
  have msg: "?msg = ?pre @ CHR '':'' # CHR '' '' # addr" by (simp add: error_text_def)
  have "?msg = (''rpc error: code = '' @ code_name c @ '' desc = '') @ ''not leader'' @ '': '' @ addr"
    by (simp add: error_text_def)
  then have "Contains ?msg ''not leader''" unfolding Contains_iff by blast
  moreover have "2 \<le> length (Split ?msg '': '') \<and> last (Split ?msg '': '') = addr"
    unfolding Split_def msg using assms by (intro split_from_last2) simp_all
  ultimately show ?thesis by (simp add: extractLeaderAddr_def Let_def)
qed

end
