(* ===== verification/Paths.thy ===== *)
theory Paths
  imports GoStrings
begin

text \<open>
  Path handling: \<open>filepath.Clean\<close>, \<open>IsAbs\<close> and \<open>Join\<close> on a Unix host as documented,
  \<open>sanitizePath\<close> of \<open>common.go\<close>, and the normalisation every handler of
  \<open>server_basics.go\<close> applies after it (\<open>ToSlash\<close>, \<open>TrimSpace\<close>, \<open>TrimPrefix "/"\<close>).
  A sanitised path has no \<open>..\<close> component, so it stays below the directory it is joined to;
  the trimming that follows undoes this for names that start with white space.
\<close>

section \<open>\<open>path/filepath\<close>\<close>

abbreviation slash :: char where "slash \<equiv> CHR ''/''"

definition dot :: string where "dot = ''.''"
definition dotdot :: string where "dotdot = ''..''"

fun split_slash :: "string \<Rightarrow> string \<Rightarrow> string list" where
  "split_slash cur [] = [rev cur]"
| "split_slash cur (c # cs) =
     (if c = slash then rev cur # split_slash [] cs else split_slash (c # cur) cs)"

definition elements :: "string \<Rightarrow> string list" where
  "elements p = split_slash [] p"

fun join_slash :: "string list \<Rightarrow> string" where
  "join_slash [] = []"
| "join_slash [c] = c"
| "join_slash (c # d # cs) = c @ slash # join_slash (d # cs)"

definition IsAbs :: "string \<Rightarrow> bool" where
  "IsAbs p \<longleftrightarrow> HasPrefix p [slash]"

text \<open>One element of the path against the stack of elements kept so far (last one first).\<close>

definition clean_step :: "bool \<Rightarrow> string list \<Rightarrow> string \<Rightarrow> string list" where
  "clean_step rooted stack c =
     (if c = [] \<or> c = dot then stack
      else if c = dotdot then
        (case stack of [] \<Rightarrow> if rooted then [] else [dotdot]
         | t # rest \<Rightarrow> if t = dotdot then dotdot # stack else rest)
      else c # stack)"

definition clean_elements :: "bool \<Rightarrow> string list \<Rightarrow> string list" where
  "clean_elements rooted cs = rev (foldl (clean_step rooted) [] cs)"

definition Clean :: "string \<Rightarrow> string" where
  "Clean p =
     (if p = [] then dot
      else let out = clean_elements (IsAbs p) (elements p)
           in if IsAbs p then slash # join_slash out
              else if out = [] then dot else join_slash out)"

text \<open>\<open>filepath.Join(a, b)\<close> skips empty elements and cleans the result.\<close>

definition Join :: "string \<Rightarrow> string \<Rightarrow> string" where
  "Join a b = (if a = [] \<and> b = [] then []
     else if a = [] then Clean b else if b = [] then Clean a else Clean (a @ slash # b))"

text \<open>On Unix \<open>ToSlash\<close> returns its argument.\<close>

definition ToSlash :: "string \<Rightarrow> string" where "ToSlash p = p"

section \<open>The program's use\<close>

definition sanitizePath :: "string \<Rightarrow> string option" where
  "sanitizePath p =
     (let safe = Clean p
      in if IsAbs safe \<or> HasPrefix safe ''..'' \<or> HasPrefix safe ''../'' then None else Some safe)"

definition normPath :: "string \<Rightarrow> string" where
  "normPath safe = TrimPrefix (TrimSpace (ToSlash safe)) ''/''"

text \<open>\<open>Close\<close> and \<open>Write\<close> ignore the error of \<open>sanitizePath\<close>, which returns the empty string.\<close>

definition safePath_unchecked :: "string \<Rightarrow> string" where
  "safePath_unchecked p = normPath (case sanitizePath p of Some s \<Rightarrow> s | None \<Rightarrow> [])"

section \<open>Elements and their join\<close>

definition noslash :: "string \<Rightarrow> bool" where
  "noslash c \<longleftrightarrow> slash \<notin> set c"

lemma noslash_Nil [simp]: "noslash []"
  by (simp add: noslash_def)

lemma noslash_dotdot [simp]: "noslash dotdot"
  by (simp add: noslash_def dotdot_def)

lemma split_slash_not_Nil [simp]: "split_slash cur s \<noteq> []"
  by (induction cur s rule: split_slash.induct) auto

lemma split_slash_noslash: "noslash cur \<Longrightarrow> c \<in> set (split_slash cur s) \<Longrightarrow> noslash c"
  by (induction cur s rule: split_slash.induct) (auto simp: noslash_def split: if_splits)

lemma elements_noslash: "c \<in> set (elements p) \<Longrightarrow> noslash c"
  unfolding elements_def using split_slash_noslash [of "[]"] by (simp add: noslash_def)

lemma split_slash_noslash_end: "noslash w \<Longrightarrow> split_slash cur w = [rev cur @ w]"
  by (induction w arbitrary: cur) (auto simp: noslash_def)

lemma split_slash_slash:
  "noslash w \<Longrightarrow> split_slash cur (w @ slash # s) = (rev cur @ w) # split_slash [] s"
  by (induction w arbitrary: cur) (auto simp: noslash_def)

lemma elements_join:
  "cs \<noteq> [] \<Longrightarrow> (\<And>c. c \<in> set cs \<Longrightarrow> noslash c) \<Longrightarrow> elements (join_slash cs) = cs"
proof (induction cs rule: join_slash.induct)
  case (2 c)
  then show ?case by (simp add: elements_def split_slash_noslash_end)
next
  case (3 c d cs)
  then have "elements (join_slash (d # cs)) = d # cs" by simp
  then show ?case using 3 by (simp add: elements_def split_slash_slash)
qed simp

lemma split_slash_append:
  "split_slash cur (a @ slash # b) = split_slash cur a @ split_slash [] b"
  by (induction cur a rule: split_slash.induct) auto

lemma elements_append: "elements (a @ slash # b) = elements a @ elements b"
  by (simp add: elements_def split_slash_append)

lemma join_slash_append:
  "as \<noteq> [] \<Longrightarrow> bs \<noteq> [] \<Longrightarrow> join_slash (as @ bs) = join_slash as @ slash # join_slash bs"
proof (induction as rule: join_slash.induct)
  case (2 c)
  then show ?case by (cases bs) auto
qed auto

section \<open>Cleaning\<close>

text \<open>An element that stays: not empty, not \<open>.\<close> and not \<open>..\<close>.\<close>

definition proper :: "string \<Rightarrow> bool" where
  "proper c \<longleftrightarrow> c \<noteq> [] \<and> c \<noteq> dot \<and> c \<noteq> dotdot \<and> noslash c"

lemma clean_step_proper [simp]: "proper c \<Longrightarrow> clean_step r st c = c # st"
  by (simp add: clean_step_def proper_def)

lemma foldl_clean_proper:
  "list_all proper cs \<Longrightarrow> foldl (clean_step r) st cs = rev cs @ st"
  by (induction cs arbitrary: st) auto

text \<open>The shape of the result: proper elements, below them \<open>..\<close> elements only.\<close>

definition stack_ok :: "string list \<Rightarrow> bool" where
  "stack_ok st \<longleftrightarrow> (\<exists>as k. st = as @ replicate k dotdot \<and> list_all proper as)"

lemma clean_step_ok:
  assumes "stack_ok st" "noslash c"
  shows "stack_ok (clean_step r st c)"
proof -
  obtain as k where st: "st = as @ replicate k dotdot" "list_all proper as"
    using assms(1) by (auto simp: stack_ok_def)
  have keep: "stack_ok (replicate j dotdot)" for j
    unfolding stack_ok_def by (rule exI [of _ "[]"]) auto
  consider "c = [] \<or> c = dot" | "c = dotdot" "as = []" | a as' where "c = dotdot" "as = a # as'"
    | "proper c" using assms(2) by (cases as) (auto simp: proper_def)
  then show ?thesis
  proof cases
    case 1
    then show ?thesis using assms(1) by (auto simp: clean_step_def)
  next
    case 2
    then have "clean_step r st c = (if k = 0 then (if r then [] else replicate 1 dotdot)
        else replicate (Suc k) dotdot)"
      using st by (cases k) (simp_all add: clean_step_def dotdot_def dot_def)
    then show ?thesis using keep [of 0] keep [of 1] keep [of "Suc k"] by (simp split: if_splits)
  next
    case 3
    then have "clean_step r st c = as' @ replicate k dotdot"
      using st by (simp add: clean_step_def proper_def dotdot_def dot_def)
    then show ?thesis using st(2) 3 by (auto simp: stack_ok_def)
  next
    case 4
    then have "clean_step r st c = (c # as) @ replicate k dotdot" using st by simp
    then show ?thesis using st(2) 4 unfolding stack_ok_def by fastforce
  qed
qed

lemma foldl_clean_ok:
  "stack_ok st \<Longrightarrow> (\<And>c. c \<in> set cs \<Longrightarrow> noslash c) \<Longrightarrow> stack_ok (foldl (clean_step r) st cs)"
  by (induction cs arbitrary: st) (auto intro: clean_step_ok)

lemma clean_elements_shape:
  "\<exists>k as. clean_elements r (elements p) = replicate k dotdot @ as \<and> list_all proper as"
proof -
  have "stack_ok []" by (simp add: stack_ok_def)
  then have "stack_ok (foldl (clean_step r) [] (elements p))"
    by (rule foldl_clean_ok) (rule elements_noslash)
  then obtain as k where "foldl (clean_step r) [] (elements p) = as @ replicate k dotdot"
      "list_all proper as" by (auto simp: stack_ok_def)
  then have "clean_elements r (elements p) = replicate k dotdot @ rev as" "list_all proper (rev as)"
    by (simp_all add: clean_elements_def)
  then show ?thesis by blast
qed

lemma proper_not_dotdot: "list_all proper cs \<Longrightarrow> dotdot \<notin> set cs"
  by (auto simp: list_all_iff proper_def)

lemma join_slash_hd:
  "list_all proper cs \<Longrightarrow> cs \<noteq> [] \<Longrightarrow> \<exists>c s. join_slash cs = c # s \<and> c \<noteq> slash"
proof (induction cs rule: join_slash.induct)
  case (2 c)
  then show ?case by (cases c) (auto simp: proper_def noslash_def)
next
  case (3 c d cs)
  then show ?case by (cases c) (auto simp: proper_def noslash_def)
qed simp

text \<open>A relative path of proper elements is clean.\<close>

lemma Clean_proper:
  assumes "list_all proper cs" "cs \<noteq> []"
  shows "Clean (join_slash cs) = join_slash cs"
proof -
  obtain c s where js: "join_slash cs = c # s" "c \<noteq> slash" using join_slash_hd assms by blast
  have rel: "\<not> IsAbs (join_slash cs)" using js by (simp add: IsAbs_def)
  have "elements (join_slash cs) = cs"
    using assms by (intro elements_join) (auto simp: list_all_iff proper_def)
  then have "clean_elements False (elements (join_slash cs)) = cs"
    using foldl_clean_proper [OF assms(1), of False "[]"] by (simp add: clean_elements_def)
  then show ?thesis using rel js assms(2) by (simp add: Clean_def Let_def)
qed

section \<open>What \<open>sanitizePath\<close> guarantees\<close>

text \<open>A sanitised path is \<open>.\<close> or a sequence of proper elements.\<close>

lemma sanitizePath_Some:
  assumes "sanitizePath p = Some s"
  shows "s = dot \<or> (\<exists>cs. s = join_slash cs \<and> cs \<noteq> [] \<and> list_all proper cs)"
proof -
  have s: "s = Clean p" "\<not> IsAbs s" "\<not> HasPrefix s ''..''"
    using assms by (auto simp: sanitizePath_def Let_def split: if_splits)
  show ?thesis
  proof (cases "s = dot")
    case False
    obtain k as where out: "clean_elements (IsAbs p) (elements p) = replicate k dotdot @ as"
        "list_all proper as" using clean_elements_shape by blast
    have "\<not> IsAbs p" using s by (auto simp: Clean_def Let_def IsAbs_def split: if_splits)
    then have eq: "s = join_slash (replicate k dotdot @ as)" "replicate k dotdot @ as \<noteq> []"
      using s(1) False out(1) by (auto simp: Clean_def Let_def split: if_splits)
    have "k = 0"
    proof (rule ccontr)
      assume "k \<noteq> 0"
      then obtain j where "k = Suc j" by (cases k) auto
      then have "HasPrefix s ''..''"
        using eq(1) by (cases "replicate j dotdot @ as") (auto simp: dotdot_def HasPrefix_iff)
      with s(3) show False by simp
    qed
    then show ?thesis using eq out(2) by auto
  qed simp
qed

lemma Clean_dot: "Clean dot = dot"
  by (simp add: Clean_def dot_def IsAbs_def elements_def clean_elements_def clean_step_def)

lemma sanitizePath_idem: "sanitizePath p = Some s \<Longrightarrow> Clean s = s"
  using sanitizePath_Some [of p s] Clean_proper Clean_dot by auto

text \<open>\<open>join root s\<close> stays below a root made of proper elements.\<close>

lemma Join_below:
  assumes "list_all proper rs" "rs \<noteq> []" "list_all proper cs" "cs \<noteq> []"
  shows "Join (join_slash rs) (join_slash cs) = join_slash rs @ slash # join_slash cs"
proof -
  have "join_slash rs \<noteq> []" "join_slash cs \<noteq> []" using join_slash_hd assms by fastforce+
  then have "Join (join_slash rs) (join_slash cs) = Clean (join_slash (rs @ cs))"
    using assms by (simp add: Join_def join_slash_append)
  also have "\<dots> = join_slash (rs @ cs)" using assms by (intro Clean_proper) auto
  finally show ?thesis using assms by (simp add: join_slash_append)
qed

section \<open>Trimming\<close>

lemma space_width_space: "space_width space_runes (CHR '' '' # s) = 1"
  by (simp add: space_width_def space_runes_def)

lemma TrimSpace_space: "TrimSpace (CHR '' '' # s) = TrimSpace s"
  using space_width_space [of s]
  by (simp add: TrimSpace_def trim_left.simps [of space_runes "CHR '' '' # s"])

lemma TrimPrefix_slash: "s \<noteq> [] \<Longrightarrow> hd s \<noteq> slash \<Longrightarrow> TrimPrefix s ''/'' = s"
  by (cases s) (simp_all add: TrimPrefix_def)

lemma normPath_untrimmed:
  "TrimSpace s = s \<Longrightarrow> s \<noteq> [] \<Longrightarrow> hd s \<noteq> slash \<Longrightarrow> normPath s = s"
  by (simp add: normPath_def ToSlash_def TrimPrefix_slash)

lemma Join_up:
  assumes "proper r" "list_all proper cs" "cs \<noteq> []"
  shows "Join r (''../'' @ join_slash cs) = join_slash cs"
proof -
  let ?p = "r @ slash # ''../'' @ join_slash cs"
  have els: "elements ?p = r # dotdot # cs"
  proof -
    have "elements (r @ slash # (''..'' @ slash # join_slash cs)) =
        elements r @ elements ''..'' @ elements (join_slash cs)"
      unfolding elements_append ..
    also have "elements r = [r]"
      using assms(1) by (simp add: elements_def split_slash_noslash_end proper_def)
    also have "elements ''..'' = [dotdot]" by (simp add: elements_def dotdot_def)
    also have "elements (join_slash cs) = cs"
      using assms(2,3) by (intro elements_join) (auto simp: list_all_iff proper_def)
    finally show ?thesis by simp
  qed
  obtain a b where "r = a # b" "a \<noteq> slash"
    using assms(1) by (cases r) (auto simp: proper_def noslash_def)
  then have r: "r \<noteq> []" "\<not> IsAbs ?p" by (simp_all add: IsAbs_def)
  have "foldl (clean_step False) [] (elements ?p) = rev cs"
    using assms(1) foldl_clean_proper [OF assms(2), of False "[]"]
    unfolding els by (simp add: clean_step_def [of _ _ dotdot]) (simp add: proper_def dotdot_def dot_def)
  then have "Clean ?p = join_slash cs"
    using r assms(3) by (simp add: Clean_def Let_def clean_elements_def)
  then show ?thesis using r(1) by (simp add: Join_def)
qed

section \<open>Properties\<close>

text \<open>
  C32. A path that \<open>sanitizePath\<close> accepts and that has no white space to trim stays below the
  storage root: the handlers' normalisation leaves it as it is, joining it to the root only
  prepends the root, and none of its elements is \<open>..\<close>.
\<close>

theorem sanitized_path_below_root:
  assumes "sanitizePath p = Some s" "s \<noteq> dot" "TrimSpace s = s"
    and "list_all proper rs" "rs \<noteq> []"
  shows "normPath s = s \<and> Join (join_slash rs) (normPath s) = join_slash rs @ slash # s
    \<and> dotdot \<notin> set (elements s)"
proof -
  obtain cs where cs: "s = join_slash cs" "cs \<noteq> []" "list_all proper cs"
    using sanitizePath_Some assms(1,2) by blast
  have "s \<noteq> []" "hd s \<noteq> slash" using join_slash_hd [OF cs(3,2)] cs(1) by auto
  then have n: "normPath s = s" by (rule normPath_untrimmed [OF assms(3)])
  moreover have "elements s = cs"
    unfolding cs(1) using cs by (intro elements_join) (auto simp: list_all_iff proper_def)
  ultimately show ?thesis using Join_below [OF assms(4,5) cs(3,2)] proper_not_dotdot cs by simp
qed

theorem sanitized_path_below_root_witness:
  "sanitizePath ''output//./a/../x'' = Some ''output/x''
   \<and> Join ''storage'' (normPath ''output/x'') = ''storage/output/x''"
proof -
  have s: "sanitizePath ''output//./a/../x'' = Some ''output/x''" by code_simp
  have t: "TrimSpace ''output/x'' = ''output/x''" by code_simp
  have p: "list_all proper [''storage'']" by (simp add: proper_def dot_def dotdot_def noslash_def)
  have "Join (join_slash [''storage'']) (normPath ''output/x'') = join_slash [''storage''] @ slash # ''output/x''"
    using sanitized_path_below_root [OF s _ t p] by (simp only: dot_def) blast
  then show ?thesis using s by simp
qed

text \<open>
  The trimming after the check undoes it: \<open>" ../x"\<close> passes \<open>sanitizePath\<close> (its first element
  is not \<open>..\<close> but \<open>" .."\<close>), is then trimmed to \<open>"../x"\<close>, and the joined path is \<open>x\<close> in the
  directory above the storage root, for every \<open>x\<close> made of proper elements.
\<close>

theorem trimmed_path_escapes_root:
  assumes "proper r" "list_all proper cs" "cs \<noteq> []"
    and "TrimSpace (''../'' @ join_slash cs) = ''../'' @ join_slash cs"
  shows "\<exists>s. sanitizePath ('' ../'' @ join_slash cs) = Some s \<and> Join r (normPath s) = join_slash cs"
proof -
  let ?s = "'' ../'' @ join_slash cs"
  have p: "list_all proper ('' ..'' # cs)"
    using assms(2) by (simp add: proper_def dot_def dotdot_def noslash_def)
  have js: "?s = join_slash ('' ..'' # cs)" using assms(3) by (cases cs) simp_all
  then have "Clean ?s = ?s" using Clean_proper [OF p] by simp
  then have "sanitizePath ?s = Some ?s" by (simp add: sanitizePath_def Let_def IsAbs_def)
  moreover have "normPath ?s = ''../'' @ join_slash cs"
    using assms(4) by (simp add: normPath_def ToSlash_def TrimSpace_space TrimPrefix_def)
  ultimately show ?thesis using Join_up [OF assms(1-3)] by auto
qed

theorem trimmed_path_escapes_root_witness:
  "\<exists>s. sanitizePath '' ../go.mod'' = Some s \<and> Join ''storage'' (normPath s) = ''go.mod''"
proof -
  have r: "proper ''storage''" and c: "list_all proper [''go.mod'']"
    by (simp_all add: proper_def dot_def dotdot_def noslash_def)
  have t: "TrimSpace (''../'' @ join_slash [''go.mod'']) = ''../'' @ join_slash [''go.mod'']"
    by code_simp
  show ?thesis using trimmed_path_escapes_root [OF r c _ t] by simp
qed

end
