(* ===== verification/Disk.thy ===== *)
theory Disk
  imports Paths
begin

text \<open>
  The part of package \<open>os\<close> the servers use, over a disk with directories and inodes: an open
  \<open>*os.File\<close> refers to an inode, so it survives the removal of its name and sees later writes to
  the same file. The interface the other components rely on is the locale \<open>file_store\<close>.
  Permissions and links are not modelled; faults of the device are a parameter of the handlers.
\<close>

section \<open>State\<close>

record disk =
  names :: "(string, nat) gomap"
  inodes :: "(nat, bytes) gomap"
  next_ino :: nat
  dirs :: "string list"

datatype handle = HFile nat | HDir

definition Dir :: "string \<Rightarrow> string" where
  "Dir p = (let d = butlast (elements p)
     in if d = [] then dot else if d = [[]] then [slash] else Clean (join_slash d))"

definition is_file :: "disk \<Rightarrow> string \<Rightarrow> bool" where
  "is_file d p \<longleftrightarrow> mget (names d) p \<noteq> None"

definition is_dir :: "disk \<Rightarrow> string \<Rightarrow> bool" where
  "is_dir d p \<longleftrightarrow> p = dot \<or> p = [slash] \<or> p \<in> set (dirs d)"

section \<open>Operations\<close>

definition os_ReadFile :: "disk \<Rightarrow> string \<Rightarrow> bytes option" where
  "os_ReadFile d p = (case mget (names d) p of None \<Rightarrow> None | Some i \<Rightarrow> mget (inodes d) i)"

definition os_ReadHandle :: "disk \<Rightarrow> handle \<Rightarrow> bytes option" where
  "os_ReadHandle d h = (case h of HDir \<Rightarrow> None | HFile i \<Rightarrow> mget (inodes d) i)"

definition put_inode :: "disk \<Rightarrow> nat \<Rightarrow> bytes \<Rightarrow> disk" where
  "put_inode d i x = d\<lparr>inodes := mput i x (inodes d)\<rparr>"

definition new_file :: "disk \<Rightarrow> string \<Rightarrow> bytes \<Rightarrow> disk" where
  "new_file d p x = d\<lparr>names := mput p (next_ino d) (names d),
     inodes := mput (next_ino d) x (inodes d), next_ino := Suc (next_ino d)\<rparr>"

text \<open>A file can be created where its directory exists and no directory has its name.\<close>

definition creatable :: "disk \<Rightarrow> string \<Rightarrow> bool" where
  "creatable d p \<longleftrightarrow> \<not> is_dir d p \<and> (is_file d p \<or> is_dir d (Dir p))"

text \<open>\<open>os.WriteFile\<close>: create or truncate, then write.\<close>

definition os_WriteFile :: "disk \<Rightarrow> string \<Rightarrow> bytes \<Rightarrow> disk option" where
  "os_WriteFile d p x =
     (if \<not> creatable d p then None
      else case mget (names d) p of Some i \<Rightarrow> Some (put_inode d i x) | None \<Rightarrow> Some (new_file d p x))"

text \<open>\<open>O_APPEND|O_CREATE|O_WRONLY\<close> and a write.\<close>

definition os_Append :: "disk \<Rightarrow> string \<Rightarrow> bytes \<Rightarrow> disk option" where
  "os_Append d p x =
     os_WriteFile d p ((case os_ReadFile d p of Some y \<Rightarrow> y | None \<Rightarrow> []) @ x)"

datatype open_error = ErrExist | ErrNotExist | ErrIsDir

text \<open>\<open>O_CREATE|O_EXCL|O_RDWR\<close>.\<close>

definition os_CreateExcl :: "disk \<Rightarrow> string \<Rightarrow> open_error + (disk \<times> handle)" where
  "os_CreateExcl d p =
     (if is_file d p \<or> is_dir d p then Inl ErrExist
      else if \<not> is_dir d (Dir p) then Inl ErrNotExist
      else Inr (new_file d p [], HFile (next_ino d)))"

text \<open>\<open>os.OpenFile\<close> without \<open>O_CREATE\<close>; a directory opens for reading only.\<close>

definition os_OpenFile :: "disk \<Rightarrow> string \<Rightarrow> bool \<Rightarrow> open_error + handle" where
  "os_OpenFile d p rdwr =
     (case mget (names d) p of Some i \<Rightarrow> Inr (HFile i)
      | None \<Rightarrow> if is_dir d p then (if rdwr then Inl ErrIsDir else Inr HDir) else Inl ErrNotExist)"

text \<open>\<open>os.Stat\<close> and \<open>os.Remove\<close>; a name below a file is neither there nor known to be absent.\<close>

datatype stat_result = Absent | NotDir | IsFile | IsDir

definition os_Remove :: "disk \<Rightarrow> string \<Rightarrow> disk" where
  "os_Remove d p = d\<lparr>names := mdel p (names d)\<rparr>"

definition ancestors :: "string \<Rightarrow> string list" where
  "ancestors p = map (\<lambda>k. join_slash (take k (elements p))) [1..<Suc (length (elements p))]"

definition below_file :: "disk \<Rightarrow> string \<Rightarrow> bool" where
  "below_file d p \<longleftrightarrow> (\<exists>q \<in> set (butlast (ancestors p)). is_file d q)"

definition os_Stat :: "disk \<Rightarrow> string \<Rightarrow> stat_result" where
  "os_Stat d p = (if is_file d p then IsFile else if is_dir d p then IsDir
     else if below_file d p then NotDir else Absent)"

definition os_MkdirAll :: "disk \<Rightarrow> string \<Rightarrow> disk option" where
  "os_MkdirAll d p =
     (if \<exists>q \<in> set (ancestors p). is_file d q then None
      else Some (d\<lparr>dirs := dirs d @ filter (\<lambda>q. \<not> is_dir d q) (ancestors p)\<rparr>))"

text \<open>\<open>os.ReadDir\<close>: the names directly in a directory, sorted.\<close>

definition child_of :: "string \<Rightarrow> string \<Rightarrow> string option" where
  "child_of p q = (case rev (elements q) of
       c # rest \<Rightarrow> if rest \<noteq> [] \<and> join_slash (rev rest) = p \<and> c \<noteq> [] then Some c
                   else if rest = [] \<and> p = dot \<and> c \<noteq> [] \<and> c \<noteq> dot then Some c else None
     | [] \<Rightarrow> None)"

definition os_ReadDir :: "disk \<Rightarrow> string \<Rightarrow> string list option" where
  "os_ReadDir d p =
     (if is_dir d p
      then Some (sort (remdups (List.map_filter (child_of p) (map fst (names d) @ dirs d))))
      else None)"

section \<open>Invariant and laws\<close>

definition wf_disk :: "disk \<Rightarrow> bool" where
  "wf_disk d \<longleftrightarrow>
     (\<forall>p q i. mget (names d) p = Some i \<and> mget (names d) q = Some i \<longrightarrow> p = q) \<and>
     (\<forall>p i. mget (names d) p = Some i \<longrightarrow> mget (inodes d) i \<noteq> None) \<and>
     (\<forall>i x. mget (inodes d) i = Some x \<longrightarrow> i < next_ino d)"

definition empty_disk :: disk where
  "empty_disk = \<lparr>names = [], inodes = [], next_ino = 0, dirs = []\<rparr>"

lemma wf_empty_disk [simp]: "wf_disk empty_disk"
  by (simp add: wf_disk_def empty_disk_def)

lemma wf_diskD1: "wf_disk d \<Longrightarrow> mget (names d) p = Some i \<Longrightarrow> mget (names d) q = Some i \<Longrightarrow> p = q"
  by (auto simp: wf_disk_def)

lemma wf_diskD2: "wf_disk d \<Longrightarrow> mget (names d) p = Some i \<Longrightarrow> \<exists>x. mget (inodes d) i = Some x"
  by (auto simp: wf_disk_def)

lemma wf_disk_fresh: "wf_disk d \<Longrightarrow> mget (names d) p \<noteq> Some (next_ino d)"
  by (fastforce simp: wf_disk_def)

lemma wf_put_inode [inv_intros]:
  "wf_disk d \<Longrightarrow> mget (names d) p = Some i \<Longrightarrow> wf_disk (put_inode d i x)"
  by (auto simp: wf_disk_def put_inode_def)

lemma wf_new_file [inv_intros]: "wf_disk d \<Longrightarrow> wf_disk (new_file d p x)"
  unfolding wf_disk_def new_file_def
  by (auto split: if_splits simp: less_Suc_eq) (metis less_irrefl not_None_eq)+

lemma wf_WriteFile [inv_intros]: "wf_disk d \<Longrightarrow> os_WriteFile d p x = Some d' \<Longrightarrow> wf_disk d'"
  by (auto simp: os_WriteFile_def split: if_splits option.splits intro: inv_intros)

lemma wf_Remove [inv_intros]: "wf_disk d \<Longrightarrow> wf_disk (os_Remove d p)"
  by (auto simp: wf_disk_def os_Remove_def split: if_splits)

lemma wf_MkdirAll [inv_intros]: "wf_disk d \<Longrightarrow> os_MkdirAll d p = Some d' \<Longrightarrow> wf_disk d'"
  by (auto simp: os_MkdirAll_def wf_disk_def split: if_splits)

lemma wf_Append [inv_intros]: "wf_disk d \<Longrightarrow> os_Append d p x = Some d' \<Longrightarrow> wf_disk d'"
  by (auto simp: os_Append_def intro: inv_intros)

lemma wf_CreateExcl [inv_intros]: "wf_disk d \<Longrightarrow> os_CreateExcl d p = Inr (d', h) \<Longrightarrow> wf_disk d'"
  by (auto simp: os_CreateExcl_def split: if_splits intro: inv_intros)

lemma read_put_inode:
  assumes "wf_disk d" "mget (names d) p = Some i"
  shows "os_ReadFile (put_inode d i x) q = (if q = p then Some x else os_ReadFile d q)"
proof (cases "mget (names d) q")
  case (Some j)
  with assms wf_diskD1 [OF assms, of q] show ?thesis
    by (cases "j = i") (auto simp: os_ReadFile_def put_inode_def)
next
  case None
  with assms(2) have "q \<noteq> p" by auto
  with None show ?thesis by (simp add: os_ReadFile_def put_inode_def)
qed

lemma read_new_file:
  assumes "wf_disk d"
  shows "os_ReadFile (new_file d p x) q = (if q = p then Some x else os_ReadFile d q)"
  using wf_disk_fresh [OF assms, of q] by (cases "mget (names d) q") (simp_all add: os_ReadFile_def new_file_def)

lemma read_WriteFile:
  "wf_disk d \<Longrightarrow> os_WriteFile d p x = Some d' \<Longrightarrow>
    os_ReadFile d' q = (if q = p then Some x else os_ReadFile d q)"
  by (auto simp: os_WriteFile_def read_put_inode read_new_file split: if_splits option.splits)

lemma read_Remove: "os_ReadFile (os_Remove d p) q = (if q = p then None else os_ReadFile d q)"
  by (cases "mget (names d) q") (simp_all add: os_ReadFile_def os_Remove_def)

lemma read_MkdirAll: "os_MkdirAll d p = Some d' \<Longrightarrow> os_ReadFile d' q = os_ReadFile d q"
  by (cases "mget (names d) q") (auto simp: os_MkdirAll_def os_ReadFile_def split: if_splits)

lemma is_file_read: "wf_disk d \<Longrightarrow> is_file d p \<longleftrightarrow> os_ReadFile d p \<noteq> None"
  by (auto simp: is_file_def os_ReadFile_def split: option.splits dest: wf_diskD2)

lemma dirs_WriteFile: "os_WriteFile d p x = Some d' \<Longrightarrow> dirs d' = dirs d"
  by (auto simp: os_WriteFile_def put_inode_def new_file_def split: if_splits option.splits)

lemma WriteFile_enabled:
  "creatable d p \<Longrightarrow> \<exists>d'. os_WriteFile d p x = Some d'"
  by (cases "mget (names d) p") (simp_all add: os_WriteFile_def)

section \<open>The interface\<close>

locale file_store =
  fixes rd :: "'d \<Rightarrow> string \<Rightarrow> bytes option"
    and wr :: "'d \<Rightarrow> string \<Rightarrow> bytes \<Rightarrow> 'd option"
    and rm :: "'d \<Rightarrow> string \<Rightarrow> 'd"
    and wf :: "'d \<Rightarrow> bool"
  assumes read_write: "wf d \<Longrightarrow> wr d p x = Some d' \<Longrightarrow>
      rd d' q = (if q = p then Some x else rd d q)"
    and read_remove: "wf d \<Longrightarrow> rd (rm d p) q = (if q = p then None else rd d q)"
    and wf_write: "wf d \<Longrightarrow> wr d p x = Some d' \<Longrightarrow> wf d'"
    and wf_remove: "wf d \<Longrightarrow> wf (rm d p)"
begin

text \<open>Writes in sequence, stopping at the first that fails.\<close>

fun write_all :: "'d \<Rightarrow> (string \<times> bytes) list \<Rightarrow> 'd option" where
  "write_all d [] = Some d"
| "write_all d ((p, x) # ws) = Option.bind (wr d p x) (\<lambda>d'. write_all d' ws)"

lemma wf_write_all: "wf d \<Longrightarrow> write_all d ws = Some d' \<Longrightarrow> wf d'"
  by (induction d ws rule: write_all.induct) (auto simp: bind_eq_Some_conv dest: wf_write)

text \<open>The last write to a name is what a read sees.\<close>

lemma read_write_all:
  "wf d \<Longrightarrow> write_all d ws = Some d' \<Longrightarrow>
    rd d' q = (case map_of (rev ws) q of Some x \<Rightarrow> Some x | None \<Rightarrow> rd d q)"
proof (induction d ws rule: write_all.induct)
  case (1 d)
  then show ?case by simp
next
  case (2 d p x ws)
  from "2.prems"(2) obtain d1 where d1: "wr d p x = Some d1" "write_all d1 ws = Some d'"
    by (auto simp: bind_eq_Some_conv)
  have "rd d' q = (case map_of (rev ws) q of Some x \<Rightarrow> Some x | None \<Rightarrow> rd d1 q)"
    using "2.IH" [OF d1(1)] "2.prems"(1) d1 wf_write by blast
  then show ?case using read_write [OF "2.prems"(1) d1(1), of q]
    by (auto simp: map_add_def split: option.splits)
qed

lemma write_same_twice:
  "wf d \<Longrightarrow> wr d p x = Some d1 \<Longrightarrow> wr d1 p y = Some d2 \<Longrightarrow> rd d2 p = Some y"
  using read_write [of d1 p y d2 p] wf_write by simp

end

interpretation fs: file_store os_ReadFile os_WriteFile os_Remove wf_disk
  by unfold_locales (auto simp: read_WriteFile read_Remove intro: inv_intros)

end
