(* ===== verification/Numbers.thy ===== *)
theory Numbers
  imports GoStrings
begin

text \<open>
  The numbers of the deduplicating store: \<open>strconv.ParseUint\<close> and the \<open>%d\<close> verb,
  \<open>parseNumbers\<close> of \<open>common.go\<close>, \<open>FilterUniquePrimes\<close> of \<open>server_basics.go\<close> and the
  text a committed file holds (one number per line). The main facts are the round trip of
  printing and parsing and the specification of the filter.
\<close>

section \<open>Decimal notation\<close>

definition is_digit :: "char \<Rightarrow> bool" where
  "is_digit c \<longleftrightarrow> 48 \<le> (of_char c :: int) \<and> (of_char c :: int) \<le> 57"

definition digit_val :: "char \<Rightarrow> int" where
  "digit_val c = of_char c - 48"

definition digit_char :: "int \<Rightarrow> char" where
  "digit_char d = char_of (48 + d)"

fun dec_val :: "int \<Rightarrow> string \<Rightarrow> int" where
  "dec_val acc [] = acc"
| "dec_val acc (c # cs) = dec_val (acc * 10 + digit_val c) cs"

function dec_string :: "int \<Rightarrow> string" where
  "dec_string n = (if n < 10 then [digit_char n] else dec_string (n div 10) @ [digit_char (n mod 10)])"
  by pat_completeness auto
termination
  by (relation "measure nat") auto

declare dec_string.simps [simp del]

text \<open>\<open>ParseUint(s, 10, 64)\<close>: no sign, only digits, at most \<open>2^64 - 1\<close>.\<close>

definition ParseUint :: "string \<Rightarrow> u64 option" where
  "ParseUint s =
     (if s = [] \<or> \<not> list_all is_digit s then None
      else if dec_val 0 s < 2 ^ 64 then Some (word_of_int (dec_val 0 s)) else None)"

text \<open>The verb \<open>%d\<close> on an unsigned and on a signed number, and \<open>%06d\<close>.\<close>

definition format_uint :: "u64 \<Rightarrow> string" where
  "format_uint w = dec_string (uint w)"

definition format_int :: "int \<Rightarrow> string" where
  "format_int i = (if i < 0 then CHR ''-'' # dec_string (- i) else dec_string i)"

definition pad_zeros :: "nat \<Rightarrow> string \<Rightarrow> string" where
  "pad_zeros w s = replicate (w - length s) (CHR ''0'') @ s"

definition format_int_06 :: "int \<Rightarrow> string" where
  "format_int_06 i =
     (if i < 0 then CHR ''-'' # pad_zeros 5 (dec_string (- i)) else pad_zeros 6 (dec_string i))"

lemma digit_char_is_digit [simp]: "0 \<le> d \<Longrightarrow> d < 10 \<Longrightarrow> is_digit (digit_char d)"
  by (simp add: is_digit_def digit_char_def of_char_of)

lemma digit_val_char [simp]: "0 \<le> d \<Longrightarrow> d < 10 \<Longrightarrow> digit_val (digit_char d) = d"
  by (simp add: digit_val_def digit_char_def of_char_of)

lemma dec_string_not_Nil [simp]: "dec_string n \<noteq> []"
  by (subst dec_string.simps) simp

lemma dec_string_digits: "0 \<le> n \<Longrightarrow> list_all is_digit (dec_string n)"
proof (induction n rule: dec_string.induct)
  case (1 n)
  show ?case
  proof (cases "n < 10")
    case True
    with "1.prems" show ?thesis by (simp add: dec_string.simps [of n])
  next
    case False
    with "1" show ?thesis by (simp add: dec_string.simps [of n])
  qed
qed

lemma dec_val_append: "dec_val acc (s @ t) = dec_val (dec_val acc s) t"
  by (induction s arbitrary: acc) auto

lemma dec_val_string: "0 \<le> n \<Longrightarrow> dec_val 0 (dec_string n) = n"
proof (induction n rule: dec_string.induct)
  case (1 n)
  show ?case
  proof (cases "n < 10")
    case True
    with "1.prems" show ?thesis by (simp add: dec_string.simps [of n])
  next
    case False
    with "1" have "dec_val 0 (dec_string (n div 10)) = n div 10" by simp
    with False show ?thesis by (simp add: dec_string.simps [of n] dec_val_append)
  qed
qed

lemma dec_string_inject: "0 \<le> m \<Longrightarrow> 0 \<le> n \<Longrightarrow> dec_string m = dec_string n \<longleftrightarrow> m = n"
  by (metis dec_val_string)

lemma dec_val_zeros: "dec_val 0 (replicate k (CHR ''0'') @ s) = dec_val 0 s"
  by (induction k) (simp_all add: digit_val_def)

lemma format_int_06_inject:
  assumes "0 \<le> m" "0 \<le> n" "format_int_06 m = format_int_06 n"
  shows "m = n"
proof -
  have "dec_val 0 (format_int_06 m) = m" "dec_val 0 (format_int_06 n) = n"
    using assms(1,2) by (simp_all add: format_int_06_def pad_zeros_def dec_val_zeros dec_val_string)
  with assms(3) show ?thesis by metis
qed

lemma ParseUint_format_uint [simp]: "ParseUint (format_uint w) = Some w"
proof -
  have "uint w < 2 ^ 64" using uint_lt2p [of w] by simp
  then show ?thesis by (simp add: ParseUint_def format_uint_def dec_string_digits dec_val_string)
qed

lemma no_digit_space: "list_all (\<lambda>w. \<not> is_digit (hd w)) space_runes"
  by code_simp

lemma is_digit_plain: "is_digit c \<Longrightarrow> plain_char c"
  using no_digit_space by (auto simp: plain_char_def list_all_iff)

lemma format_uint_plain: "\<forall>c \<in> set (format_uint w). plain_char c"
  using dec_string_digits [of "uint w"]
  by (auto simp: format_uint_def list_all_iff intro: is_digit_plain)

text \<open>\<open>strconv.Atoi\<close>: an optional sign and digits, in the range of \<open>int64\<close>.\<close>

definition int64_range :: "int \<Rightarrow> int option" where
  "int64_range i = (if - (2 ^ 63) \<le> i \<and> i < 2 ^ 63 then Some i else None)"

definition Atoi :: "string \<Rightarrow> int option" where
  "Atoi s = (case s of [] \<Rightarrow> None
     | c # cs \<Rightarrow>
         let ds = (if c = CHR ''-'' \<or> c = CHR ''+'' then cs else s)
         in if ds = [] \<or> \<not> list_all is_digit ds then None
            else int64_range (if c = CHR ''-'' then - dec_val 0 ds else dec_val 0 ds))"

text \<open>
  \<open>fmt.Sscanf(s, "%d", &n)\<close>: white space is skipped (a newline is an error), then a sign and the
  longest run of digits are read; what follows is ignored.
\<close>

function scan_spaces :: "string \<Rightarrow> string option" where
  "scan_spaces s = (if s = [] \<or> space_width space_runes s = 0 then Some s
     else if hd s = CHR 0x0A then None
     else scan_spaces (drop (space_width space_runes s) s))"
  by pat_completeness auto
termination
  by (relation "measure length") auto

declare scan_spaces.simps [simp del]

definition Sscanf_d :: "string \<Rightarrow> int option" where
  "Sscanf_d s = (case scan_spaces s of None \<Rightarrow> None
     | Some t \<Rightarrow>
         let sign = (t \<noteq> [] \<and> (hd t = CHR ''-'' \<or> hd t = CHR ''+''));
             ds = takeWhile is_digit (if sign then tl t else t)
         in if ds = [] then None
            else int64_range (if sign \<and> hd t = CHR ''-'' then - dec_val 0 ds else dec_val 0 ds))"

section \<open>\<open>parseNumbers\<close> and the file format\<close>

fun keep_numbers :: "string list \<Rightarrow> u64 list" where
  "keep_numbers [] = []"
| "keep_numbers (f # fs) =
     (case ParseUint f of Some n \<Rightarrow> n # keep_numbers fs | None \<Rightarrow> keep_numbers fs)"

definition parseNumbers :: "bytes \<Rightarrow> u64 list" where
  "parseNumbers data = keep_numbers (Fields data)"

text \<open>The loop \<open>for p := range set { fmt.Fprintf(&buf, "%d\n", p) }\<close>.\<close>

definition format_lines :: "u64 list \<Rightarrow> bytes" where
  "format_lines ps = concat (map (\<lambda>p. format_uint p @ [CHR 0x0A]) ps)"

lemma format_lines_Nil [simp]: "format_lines [] = []"
  by (simp add: format_lines_def)

lemma format_lines_append: "format_lines (ps @ qs) = format_lines ps @ format_lines qs"
  by (simp add: format_lines_def)

lemma Fields_format_line: "Fields (format_uint p @ CHR 0x0A # s) = format_uint p # Fields s"
  by (rule Fields_line [OF _ format_uint_plain]) (simp add: format_uint_def)

lemma parse_line: "parseNumbers (format_uint p @ CHR 0x0A # s) = p # parseNumbers s"
  by (simp add: parseNumbers_def Fields_format_line)

lemma parse_format_lines_append: "parseNumbers (format_lines ps @ s) = ps @ parseNumbers s"
  by (induction ps) (simp_all add: format_lines_def parse_line)

lemma parse_Nil [simp]: "parseNumbers [] = []"
  by (simp add: parseNumbers_def)

lemma parse_format_lines: "parseNumbers (format_lines ps) = ps"
  using parse_format_lines_append [of ps "[]"] by simp

section \<open>\<open>FilterUniquePrimes\<close>\<close>

text \<open>
  A \<open>FilePrimeSet\<close> is the list of its elements. The filter walks the numbers, adds each new one
  to the set (which the Go code mutates) and to the result.
\<close>

type_synonym prime_set = "u64 list"

fun FilterUniquePrimes :: "u64 list \<Rightarrow> prime_set \<Rightarrow> u64 list \<times> prime_set" where
  "FilterUniquePrimes [] S = ([], S)"
| "FilterUniquePrimes (p # ps) S =
     (if p \<in> set S then FilterUniquePrimes ps S
      else (case FilterUniquePrimes ps (S @ [p]) of (uniq, S') \<Rightarrow> (p # uniq, S')))"

text \<open>The specification: the first occurrences of what is not in the set.\<close>

definition first_new :: "u64 list \<Rightarrow> u64 set \<Rightarrow> u64 list" where
  "first_new ps A = rev (remdups (rev (filter (\<lambda>p. p \<notin> A) ps)))"

lemma rev_remdups_rev_Cons:
  "rev (remdups (rev (x # xs))) = x # rev (remdups (rev (filter (\<lambda>y. y \<noteq> x) xs)))"
proof (induction xs rule: rev_induct)
  case Nil
  then show ?case by simp
next
  case (snoc y ys)
  then show ?case by auto
qed

lemma first_new_Cons:
  "first_new (p # ps) A = (if p \<in> A then first_new ps A else p # first_new ps (insert p A))"
proof (cases "p \<in> A")
  case True
  then show ?thesis by (simp add: first_new_def)
next
  case False
  have "filter (\<lambda>y. y \<noteq> p) (filter (\<lambda>q. q \<notin> A) ps) = filter (\<lambda>q. q \<notin> insert p A) ps"
    by (simp add: conj_commute)
  with False rev_remdups_rev_Cons [of p "filter (\<lambda>q. q \<notin> A) ps"] show ?thesis
    by (simp add: first_new_def)
qed

lemma FilterUniquePrimes_eq:
  "FilterUniquePrimes ps S = (first_new ps (set S), S @ first_new ps (set S))"
proof (induction ps arbitrary: S)
  case Nil
  then show ?case by (simp add: first_new_def)
next
  case (Cons p ps)
  then show ?case by (simp add: first_new_Cons)
qed

lemma set_first_new: "set (first_new ps A) = set ps - A"
  by (auto simp: first_new_def)

lemma distinct_first_new: "distinct (first_new ps A)"
  by (simp add: first_new_def)

lemma Filter_set: "set (snd (FilterUniquePrimes ps S)) = set S \<union> set ps"
  by (auto simp: FilterUniquePrimes_eq set_first_new)

lemma Filter_distinct: "distinct S \<Longrightarrow> distinct (snd (FilterUniquePrimes ps S))"
  by (auto simp: FilterUniquePrimes_eq distinct_first_new set_first_new)

end
