(* ===== verification/FileLock.thy ===== *)
theory FileLock
  imports Prelude
begin

text \<open>
  The lock of a file, \<open>FileEntry\<close> of \<open>server_basics.go\<close>: a monitor with a reader count, a writer
  flag, a count of waiting writers and one condition variable. Each operation is first a function
  on the entry (\<open>None\<close> where the goroutine waits), as the handlers use it; then the monitor is a
  step relation in which goroutines sleep on the condition variable and are woken by a broadcast.
\<close>

section \<open>The entry and its operations\<close>

text \<open>\<open>has_cond\<close> tells whether the pointer \<open>cond\<close> is set; \<open>getOrCreateFileMeta\<close> leaves it nil.\<close>

record FileEntry =
  FD :: i32
  has_cond :: bool
  activeReaders :: nat
  activeWriter :: bool
  waitingWriters :: nat
  fe_version :: i32

definition NewFileEntry :: FileEntry where
  "NewFileEntry = \<lparr>FD = 0, has_cond = True, activeReaders = 0, activeWriter = False,
     waitingWriters = 0, fe_version = 0\<rparr>"

definition CanRead :: "FileEntry \<Rightarrow> bool" where
  "CanRead fe \<longleftrightarrow> \<not> activeWriter fe \<and> waitingWriters fe = 0"

definition CanWrite :: "FileEntry \<Rightarrow> bool" where
  "CanWrite fe \<longleftrightarrow> \<not> activeWriter fe \<and> activeReaders fe = 0"

definition AcquireReadNoPriority :: "FileEntry \<Rightarrow> FileEntry option" where
  "AcquireReadNoPriority fe =
     (if activeWriter fe then None else Some (fe\<lparr>activeReaders := activeReaders fe + 1\<rparr>))"

definition AcquireRead :: "FileEntry \<Rightarrow> FileEntry option" where
  "AcquireRead fe =
     (if \<not> CanRead fe then None else Some (fe\<lparr>activeReaders := activeReaders fe + 1\<rparr>))"

definition ReleaseRead :: "FileEntry \<Rightarrow> FileEntry" where
  "ReleaseRead fe = (if activeReaders fe > 0 then fe\<lparr>activeReaders := activeReaders fe - 1\<rparr> else fe)"

text \<open>\<open>AcquireWrite\<close> announces the writer, then waits in its loop until the file is free.\<close>

definition announce_writer :: "FileEntry \<Rightarrow> FileEntry" where
  "announce_writer fe = fe\<lparr>waitingWriters := waitingWriters fe + 1\<rparr>"

definition enter_write :: "FileEntry \<Rightarrow> FileEntry option" where
  "enter_write fe =
     (if \<not> CanWrite fe then None
      else Some (fe\<lparr>waitingWriters := waitingWriters fe - 1, activeWriter := True\<rparr>))"

definition AcquireWrite :: "FileEntry \<Rightarrow> FileEntry option" where
  "AcquireWrite fe = enter_write (announce_writer fe)"

definition ReleaseWrite :: "FileEntry \<Rightarrow> FileEntry" where
  "ReleaseWrite fe = fe\<lparr>activeWriter := False\<rparr>"

text \<open>\<open>Delete\<close> takes the writer flag itself and does not wait.\<close>

definition try_write :: "FileEntry \<Rightarrow> FileEntry option" where
  "try_write fe =
     (if activeReaders fe > 0 \<or> activeWriter fe then None else Some (fe\<lparr>activeWriter := True\<rparr>))"

definition lock_free :: "FileEntry \<Rightarrow> bool" where
  "lock_free fe \<longleftrightarrow> activeReaders fe = 0 \<and> \<not> activeWriter fe \<and> waitingWriters fe = 0"

lemmas lock_defs = CanRead_def CanWrite_def AcquireReadNoPriority_def AcquireRead_def
  ReleaseRead_def announce_writer_def enter_write_def AcquireWrite_def ReleaseWrite_def
  try_write_def lock_free_def

lemma AcquireWrite_free:
  "lock_free fe \<Longrightarrow> AcquireWrite fe = Some (fe\<lparr>activeWriter := True\<rparr>)"
  by (simp add: lock_defs)

lemma AcquireReadNoPriority_free:
  "lock_free fe \<Longrightarrow> AcquireReadNoPriority fe = Some (fe\<lparr>activeReaders := 1\<rparr>)"
  by (simp add: lock_defs)

lemma try_write_free: "lock_free fe \<Longrightarrow> try_write fe = Some (fe\<lparr>activeWriter := True\<rparr>)"
  by (simp add: lock_defs)

lemma ReleaseWrite_AcquireWrite:
  "AcquireWrite fe = Some fe' \<Longrightarrow> ReleaseWrite fe' = fe"
  by (cases fe) (auto simp: lock_defs split: if_splits)

lemma ReleaseRead_AcquireReadNoPriority:
  "AcquireReadNoPriority fe = Some fe' \<Longrightarrow> ReleaseRead fe' = fe"
  by (cases fe) (auto simp: lock_defs split: if_splits)

section \<open>The monitor\<close>

text \<open>
  What a goroutine is doing: nothing with the lock, waiting for it (to read with or without the
  writers' priority, or to write; asleep, or woken and about to test its condition again), or
  holding it.
\<close>

datatype wait_for = ForRead | ForReadNoPriority | ForWrite

datatype goroutine = Idle | Asleep wait_for | Woken wait_for | Reading | Writing

record monitor =
  entry :: FileEntry
  threads :: "goroutine list"

primrec enter :: "wait_for \<Rightarrow> FileEntry \<Rightarrow> FileEntry option" where
  "enter ForRead fe = AcquireRead fe"
| "enter ForReadNoPriority fe = AcquireReadNoPriority fe"
| "enter ForWrite fe = enter_write fe"

primrec announce :: "wait_for \<Rightarrow> FileEntry \<Rightarrow> FileEntry" where
  "announce ForRead fe = fe"
| "announce ForReadNoPriority fe = fe"
| "announce ForWrite fe = announce_writer fe"

primrec holding :: "wait_for \<Rightarrow> goroutine" where
  "holding ForRead = Reading"
| "holding ForReadNoPriority = Reading"
| "holding ForWrite = Writing"

primrec woken :: "goroutine \<Rightarrow> goroutine" where
  "woken Idle = Idle"
| "woken (Asleep w) = Woken w"
| "woken (Woken w) = Woken w"
| "woken Reading = Reading"
| "woken Writing = Writing"

definition broadcast :: "goroutine list \<Rightarrow> goroutine list" where
  "broadcast gs = map woken gs"

text \<open>One turn of a waiting loop: the goroutine gets in, or sleeps.\<close>

definition turn :: "nat \<Rightarrow> wait_for \<Rightarrow> FileEntry \<Rightarrow> goroutine list \<Rightarrow> monitor" where
  "turn i w fe gs = (case enter w fe of
       Some fe' \<Rightarrow> \<lparr>entry = fe', threads = gs[i := holding w]\<rparr>
     | None \<Rightarrow> \<lparr>entry = fe, threads = gs[i := Asleep w]\<rparr>)"

inductive lock_step :: "monitor \<Rightarrow> monitor \<Rightarrow> bool" where
  acquire: "i < length (threads m) \<Longrightarrow> threads m ! i = Idle \<Longrightarrow>
    lock_step m (turn i w (announce w (entry m)) (threads m))"
| retry: "i < length (threads m) \<Longrightarrow> threads m ! i = Woken w \<Longrightarrow>
    lock_step m (turn i w (entry m) (threads m))"
| delete: "i < length (threads m) \<Longrightarrow> threads m ! i = Idle \<Longrightarrow> try_write (entry m) = Some fe \<Longrightarrow>
    lock_step m \<lparr>entry = fe, threads = (threads m)[i := Writing]\<rparr>"
| release_read: "i < length (threads m) \<Longrightarrow> threads m ! i = Reading \<Longrightarrow>
    lock_step m \<lparr>entry = ReleaseRead (entry m), threads = broadcast ((threads m)[i := Idle])\<rparr>"
| release_write: "i < length (threads m) \<Longrightarrow> threads m ! i = Writing \<Longrightarrow>
    lock_step m \<lparr>entry = ReleaseWrite (entry m), threads = broadcast ((threads m)[i := Idle])\<rparr>"

text \<open>
  \<open>cleanupLeases\<close> releases the lock of a file whose client's lease has expired, though no client
  holds a lock between two calls: whoever holds it then loses it.
\<close>

inductive lease_step :: "monitor \<Rightarrow> monitor \<Rightarrow> bool" where
  expired_reader: "lease_step m \<lparr>entry = ReleaseRead (entry m), threads = broadcast (threads m)\<rparr>"
| expired_writer: "lease_step m \<lparr>entry = ReleaseWrite (entry m), threads = broadcast (threads m)\<rparr>"

inductive_cases lock_stepE: "lock_step m m'"
inductive_simps lease_step_iff: "lease_step m m'"

definition initial :: "nat \<Rightarrow> monitor" where
  "initial n = \<lparr>entry = NewFileEntry, threads = replicate n Idle\<rparr>"

inductive reach :: "nat \<Rightarrow> monitor \<Rightarrow> bool" for n where
  start: "reach n (initial n)"
| step: "reach n m \<Longrightarrow> lock_step m m' \<Longrightarrow> reach n m'"

text \<open>Reachable when leases may expire as well.\<close>

inductive reach_leases :: "nat \<Rightarrow> monitor \<Rightarrow> bool" for n where
  start_l: "reach_leases n (initial n)"
| step_l: "reach_leases n m \<Longrightarrow> lock_step m m' \<Longrightarrow> reach_leases n m'"
| lease_l: "reach_leases n m \<Longrightarrow> lease_step m m' \<Longrightarrow> reach_leases n m'"

section \<open>Invariant\<close>

definition how_many :: "goroutine \<Rightarrow> monitor \<Rightarrow> nat" where
  "how_many g m = count_list (threads m) g"

definition waiting_writers :: "monitor \<Rightarrow> nat" where
  "waiting_writers m = how_many (Asleep ForWrite) m + how_many (Woken ForWrite) m"

definition counts_ok :: "monitor \<Rightarrow> bool" where
  "counts_ok m \<longleftrightarrow> activeReaders (entry m) = how_many Reading m \<and>
     how_many Writing m = (if activeWriter (entry m) then 1 else 0) \<and>
     waitingWriters (entry m) = waiting_writers m \<and>
     (activeWriter (entry m) \<longrightarrow> activeReaders (entry m) = 0)"

definition asleep_ok :: "monitor \<Rightarrow> bool" where
  "asleep_ok m \<longleftrightarrow> (\<forall>w. Asleep w \<in> set (threads m) \<longrightarrow> enter w (entry m) = None)"

lemma count_list_update:
  "i < length xs \<Longrightarrow> count_list (xs[i := y]) x + (if xs ! i = x then 1 else 0)
     = count_list xs x + (if y = x then 1 else 0)"
proof (induction xs arbitrary: i)
  case (Cons a xs)
  then show ?case by (cases i) (force, fastforce dest: Cons.IH)
qed simp

lemma count_list_woken:
  "count_list (map woken gs) Reading = count_list gs Reading"
  "count_list (map woken gs) Writing = count_list gs Writing"
  "count_list (map woken gs) Idle = count_list gs Idle"
  "count_list (map woken gs) (Asleep w) = 0"
  "count_list (map woken gs) (Woken w) = count_list gs (Asleep w) + count_list gs (Woken w)"
proof -
  have "woken g = Reading \<longleftrightarrow> g = Reading" "woken g = Writing \<longleftrightarrow> g = Writing"
    "woken g = Idle \<longleftrightarrow> g = Idle" "woken g \<noteq> Asleep w"
    "woken g = Woken w \<longleftrightarrow> g = Asleep w \<or> g = Woken w" for g
    by (cases g; auto)+
  then show "count_list (map woken gs) Reading = count_list gs Reading"
    "count_list (map woken gs) Writing = count_list gs Writing"
    "count_list (map woken gs) Idle = count_list gs Idle"
    "count_list (map woken gs) (Asleep w) = 0"
    "count_list (map woken gs) (Woken w) = count_list gs (Asleep w) + count_list gs (Woken w)"
    by (induction gs) auto
qed

lemma how_many_update:
  "i < length gs \<Longrightarrow>
    how_many g \<lparr>entry = fe, threads = gs[i := y]\<rparr> + (if gs ! i = g then 1 else 0)
      = count_list gs g + (if y = g then 1 else 0)"
  by (simp add: how_many_def count_list_update)

lemma how_many_broadcast:
  "how_many Reading \<lparr>entry = fe, threads = broadcast gs\<rparr> = count_list gs Reading"
  "how_many Writing \<lparr>entry = fe, threads = broadcast gs\<rparr> = count_list gs Writing"
  "waiting_writers \<lparr>entry = fe, threads = broadcast gs\<rparr>
     = count_list gs (Asleep ForWrite) + count_list gs (Woken ForWrite)"
  by (simp_all add: how_many_def waiting_writers_def broadcast_def count_list_woken)

text \<open>A goroutine that gets in changes the entry and its own state together.\<close>

definition tally :: "FileEntry \<Rightarrow> goroutine list \<Rightarrow> bool" where
  "tally fe gs \<longleftrightarrow> counts_ok \<lparr>entry = fe, threads = gs\<rparr>"

lemma tally_eq: "counts_ok m = tally (entry m) (threads m)"
  by (cases m) (simp add: tally_def)

lemma tally_iff: "tally fe gs \<longleftrightarrow>
    activeReaders fe = count_list gs Reading \<and>
    count_list gs Writing = (if activeWriter fe then 1 else 0) \<and>
    waitingWriters fe = count_list gs (Asleep ForWrite) + count_list gs (Woken ForWrite) \<and>
    (activeWriter fe \<longrightarrow> activeReaders fe = 0)"
  by (simp add: tally_def counts_ok_def how_many_def waiting_writers_def)

lemma upd:
  assumes "i < length gs" "gs ! i = x"
  shows "count_list (gs[i := y]) g + (if x = g then 1 else 0) = count_list gs g + (if y = g then 1 else 0)"
  using count_list_update [OF assms(1), of y g] assms(2) by simp

lemma tally_acquire:
  assumes "tally fe gs" "i < length gs" "gs ! i = Idle"
  shows "counts_ok (turn i w (announce w fe) gs)"
proof -
  note u = upd [OF assms(2,3), of _ Reading] upd [OF assms(2,3), of _ Writing]
    upd [OF assms(2,3), of _ "Asleep ForWrite"] upd [OF assms(2,3), of _ "Woken ForWrite"]
  show ?thesis
    using assms(1) u [of "holding w"] u [of "Asleep w"]
    by (cases w) (auto simp: turn_def tally_iff tally_eq lock_defs split: if_splits)
qed

lemma tally_retry:
  assumes "tally fe gs" "i < length gs" "gs ! i = Woken w"
  shows "counts_ok (turn i w fe gs)"
proof -
  note u = upd [OF assms(2,3), of _ Reading] upd [OF assms(2,3), of _ Writing]
    upd [OF assms(2,3), of _ "Asleep ForWrite"] upd [OF assms(2,3), of _ "Woken ForWrite"]
  show ?thesis
    using assms(1) u [of "holding w"] u [of "Asleep w"]
    by (cases w) (auto simp: turn_def tally_iff tally_eq lock_defs split: if_splits)
qed

lemma tally_broadcast: "tally fe (broadcast gs) = tally fe gs"
  by (simp add: tally_iff broadcast_def count_list_woken add.commute)

lemma tally_hold:
  assumes "tally fe gs" "i < length gs" "gs ! i = Idle" "try_write fe = Some fe'"
  shows "tally fe' (gs[i := Writing])"
  using assms(1,4) upd [OF assms(2,3), of Writing Reading] upd [OF assms(2,3), of Writing Writing]
    upd [OF assms(2,3), of Writing "Asleep ForWrite"] upd [OF assms(2,3), of Writing "Woken ForWrite"]
  by (auto simp: tally_iff lock_defs split: if_splits)

lemma tally_release_read:
  assumes "tally fe gs" "i < length gs" "gs ! i = Reading"
  shows "tally (ReleaseRead fe) (gs[i := Idle])"
  using assms(1) upd [OF assms(2,3), of Idle Reading] upd [OF assms(2,3), of Idle Writing]
    upd [OF assms(2,3), of Idle "Asleep ForWrite"] upd [OF assms(2,3), of Idle "Woken ForWrite"]
  by (auto simp: tally_iff lock_defs split: if_splits)

lemma tally_release_write:
  assumes "tally fe gs" "i < length gs" "gs ! i = Writing"
  shows "tally (ReleaseWrite fe) (gs[i := Idle])"
  using assms(1) upd [OF assms(2,3), of Idle Reading] upd [OF assms(2,3), of Idle Writing]
    upd [OF assms(2,3), of Idle "Asleep ForWrite"] upd [OF assms(2,3), of Idle "Woken ForWrite"]
  by (auto simp: tally_iff lock_defs split: if_splits)

lemma counts_ok_step [inv_intros]:
  assumes "counts_ok m" "lock_step m m'"
  shows "counts_ok m'"
  using assms(2)
proof cases
  case (acquire i w)
  then show ?thesis using tally_acquire assms(1) by (simp add: tally_eq)
next
  case (retry i w)
  then show ?thesis using tally_retry assms(1) by (simp add: tally_eq)
next
  case (delete i fe)
  then show ?thesis using tally_hold assms(1) by (simp add: tally_eq)
next
  case (release_read i)
  then show ?thesis using tally_release_read assms(1) by (simp add: tally_eq tally_broadcast)
next
  case (release_write i)
  then show ?thesis using tally_release_write assms(1) by (simp add: tally_eq tally_broadcast)
qed

lemma counts_ok_reach: "reach n m \<Longrightarrow> counts_ok m"
proof (induction rule: reach.induct)
  case start
  have "count_list (replicate n Idle) g = (if g = Idle then n else 0)" for g
    by (induction n) auto
  then show ?case by (simp add: tally_eq tally_iff initial_def NewFileEntry_def)
qed (rule counts_ok_step)

text \<open>No lost wake-up: only a release can make a waiting condition true, and it wakes all.\<close>

lemma enter_monotone:
  assumes "enter w fe = None" "enter v (announce v fe) = Some fe'"
  shows "enter w fe' = None"
  using assms by (cases w; cases v) (auto simp: lock_defs split: if_splits)

lemma enter_monotone_retry:
  assumes "enter w fe = None" "enter v fe = Some fe'"
  shows "enter w fe' = None"
  using assms by (cases w; cases v) (auto simp: lock_defs split: if_splits)

lemma enter_announce: "enter w fe = None \<Longrightarrow> enter w (announce v fe) = None"
  by (cases w; cases v) (auto simp: lock_defs split: if_splits)

lemma enter_try: "enter w fe = None \<Longrightarrow> try_write fe = Some fe' \<Longrightarrow> enter w fe' = None"
  by (cases w) (auto simp: lock_defs split: if_splits)

lemma asleep_broadcast: "Asleep w \<notin> set (broadcast gs)"
proof -
  have "woken g \<noteq> Asleep w" for g by (cases g) auto
  then show ?thesis unfolding broadcast_def set_map by (metis imageE)
qed

lemma asleep_update: "Asleep w \<in> set (gs[i := y]) \<Longrightarrow> Asleep w \<in> set gs \<or> y = Asleep w"
  using set_update_subset_insert by fastforce

lemma holding_not_asleep [simp]: "holding v \<noteq> Asleep w"
  by (cases v) auto

lemma asleep_turn:
  assumes "\<And>w. Asleep w \<in> set gs \<Longrightarrow> enter w fe = None"
    and "\<And>w fe'. enter w fe = None \<Longrightarrow> enter v fe = Some fe' \<Longrightarrow> enter w fe' = None"
  shows "asleep_ok (turn i v fe gs)"
  using assms by (auto simp: asleep_ok_def turn_def split: option.splits dest!: asleep_update)

lemma asleep_ok_step [inv_intros]:
  assumes "asleep_ok m" "lock_step m m'"
  shows "asleep_ok m'"
  using assms(2)
proof cases
  case (acquire i w)
  show ?thesis unfolding acquire
  proof (rule asleep_turn)
    show "enter v (announce w (entry m)) = None" if "Asleep v \<in> set (threads m)" for v
      using assms(1) that enter_announce by (auto simp: asleep_ok_def)
  qed (rule enter_monotone_retry)
next
  case (retry i w)
  show ?thesis unfolding retry
  proof (rule asleep_turn)
    show "enter v (entry m) = None" if "Asleep v \<in> set (threads m)" for v
      using assms(1) that by (auto simp: asleep_ok_def)
  qed (rule enter_monotone_retry)
next
  case (delete i fe)
  then show ?thesis using assms(1) enter_try by (auto simp: asleep_ok_def dest!: asleep_update)
qed (simp_all add: asleep_ok_def asleep_broadcast)

lemma asleep_ok_reach: "reach n m \<Longrightarrow> asleep_ok m"
proof (induction rule: reach.induct)
  case start
  show ?case by (simp add: asleep_ok_def initial_def)
qed (rule asleep_ok_step)

section \<open>Properties\<close>

text \<open>
  C13. The file lock excludes: in every state the goroutines can reach by acquiring and releasing
  it, at most one holds it to write, nobody reads while one writes, and the counters of the entry
  are the numbers of goroutines that read and that wait to write.
\<close>

theorem file_lock_excludes:
  assumes "reach n m"
  shows "how_many Writing m \<le> 1 \<and> (how_many Writing m = 1 \<longrightarrow> how_many Reading m = 0) \<and>
    activeReaders (entry m) = how_many Reading m \<and> waitingWriters (entry m) = waiting_writers m"
  using counts_ok_reach [OF assms] by (auto simp: counts_ok_def split: if_splits)

lemma step_by:
  "reach n m \<Longrightarrow> i < length (threads m) \<Longrightarrow> threads m ! i = Idle \<Longrightarrow>
    turn i w (announce w (entry m)) (threads m) = m' \<Longrightarrow> reach n m'"
  using reach.step [OF _ lock_step.acquire [of i m w]] by simp

definition one_reads_one_waits :: monitor where
  "one_reads_one_waits = \<lparr>entry = NewFileEntry\<lparr>activeReaders := 1, waitingWriters := 1\<rparr>,
     threads = [Reading, Asleep ForWrite, Idle]\<rparr>"

lemma reach_one_reads_one_waits: "reach 3 one_reads_one_waits"
proof -
  have "reach 3 \<lparr>entry = NewFileEntry\<lparr>activeReaders := 1\<rparr>, threads = [Reading, Idle, Idle]\<rparr>"
    by (rule step_by [OF reach.start, of 0 3 ForRead])
      (simp_all add: initial_def turn_def lock_defs NewFileEntry_def numeral_3_eq_3)
  then show ?thesis
    by (rule step_by [of _ _ 1 ForWrite])
      (simp_all add: one_reads_one_waits_def turn_def lock_defs NewFileEntry_def)
qed

theorem file_lock_excludes_witness:
  "how_many Writing one_reads_one_waits \<le> 1 \<and> waiting_writers one_reads_one_waits = 1"
  using file_lock_excludes [OF reach_one_reads_one_waits]
  by (simp add: one_reads_one_waits_def)

text \<open>
  C14. No wake-up is lost: a goroutine asleep on the condition variable could not get in if it
  looked, and some other goroutine is then reading, writing, or woken to write, so the sleeper
  is never alone.
\<close>

theorem file_lock_no_lost_wakeup:
  assumes "reach n m" "Asleep w \<in> set (threads m)"
  shows "enter w (entry m) = None \<and>
    (Reading \<in> set (threads m) \<or> Writing \<in> set (threads m) \<or> Woken ForWrite \<in> set (threads m))"
proof -
  note a = asleep_ok_reach [OF assms(1), unfolded asleep_ok_def, rule_format]
  have c: "tally (entry m) (threads m)" using counts_ok_reach [OF assms(1)] by (simp add: tally_eq)
  have held: "Reading \<in> set (threads m) \<or> Writing \<in> set (threads m)" if "\<not> CanWrite (entry m)"
    using c that by (auto simp: tally_iff CanWrite_def count_list_0_iff split: if_splits)
  have w: "\<not> CanWrite (entry m)" if "Asleep ForWrite \<in> set (threads m)"
    using a [OF that] by (auto simp: enter_write_def split: if_splits)
  have e: "enter w (entry m) = None" using a assms(2) by blast
  then have "\<not> CanWrite (entry m) \<or> waitingWriters (entry m) \<noteq> 0"
    by (cases w) (auto simp: lock_defs split: if_splits)
  moreover have "Asleep ForWrite \<in> set (threads m) \<or> Woken ForWrite \<in> set (threads m)"
    if "waitingWriters (entry m) \<noteq> 0"
    using c that count_notin by (fastforce simp: tally_iff)
  ultimately show ?thesis using e held w by blast
qed

theorem file_lock_no_lost_wakeup_witness:
  "enter ForWrite (entry one_reads_one_waits) = None"
  using file_lock_no_lost_wakeup [OF reach_one_reads_one_waits, of ForWrite]
  by (simp add: one_reads_one_waits_def)

text \<open>
  With expiring leases the lock does not exclude: a goroutine writes, the lease of another
  client that has the file open for writing expires, and \<open>cleanupLeases\<close> releases the write lock
  it never took; a second goroutine then writes at the same time.
\<close>

theorem expired_lease_breaks_exclusion:
  "\<exists>m. reach_leases 2 m \<and> how_many Writing m = 2"
proof -
  let ?fe = "NewFileEntry\<lparr>activeWriter := True\<rparr>"
  let ?m1 = "\<lparr>entry = ?fe, threads = [Writing, Idle]\<rparr>"
  let ?m2 = "\<lparr>entry = NewFileEntry, threads = [Writing, Idle]\<rparr>"
  let ?m3 = "\<lparr>entry = ?fe, threads = [Writing, Writing]\<rparr>"
  have "turn 0 ForWrite (announce ForWrite NewFileEntry) [Idle, Idle] = ?m1"
    by (simp add: turn_def lock_defs NewFileEntry_def)
  then have "lock_step (initial 2) ?m1"
    using lock_step.acquire [of 0 "initial 2" ForWrite]
    by (simp add: initial_def numeral_2_eq_2)
  with reach_leases.start_l have 1: "reach_leases 2 ?m1" by (rule reach_leases.step_l)
  have "lease_step ?m1 ?m2"
    using lease_step.expired_writer [of ?m1]
    by (simp add: broadcast_def ReleaseWrite_def NewFileEntry_def)
  with 1 have 2: "reach_leases 2 ?m2" by (rule reach_leases.lease_l)
  have "turn 1 ForWrite (announce ForWrite NewFileEntry) [Writing, Idle] = ?m3"
    by (simp add: turn_def lock_defs NewFileEntry_def)
  then have "lock_step ?m2 ?m3" using lock_step.acquire [of 1 ?m2 ForWrite] by simp
  with 2 have "reach_leases 2 ?m3" by (rule reach_leases.step_l)
  moreover have "how_many Writing ?m3 = 2" by (simp add: how_many_def)
  ultimately show ?thesis by blast
qed

end
