(* ===== verification/ServerState.thy ===== *)
theory ServerState
  imports Disk Numbers FileLock
begin

text \<open>
  The state of a server (\<open>server_basics.go\<close>, the types of \<open>server_replication.go\<close> and
  \<open>server_snapshots.go\<close>, the constructor of \<open>connection.go\<close>) and the operations the handlers
  share: the version files, the file table, the periodic cleanups, the rebuilding of the tables
  from the disk. A handler is a function from an environment, a request and the state to an
  outcome and the new state; it runs while no other handler does, and what comes from outside
  (the clock, the answers of the peers, the order of a \<open>range\<close>, faults) is in the environment.
\<close>

section \<open>Messages\<close>

type_synonym FileMode = i32

abbreviation FileMode_READ :: FileMode where "FileMode_READ \<equiv> 0"
abbreviation FileMode_WRITE :: FileMode where "FileMode_WRITE \<equiv> 1"

record pb_LogEntry =
  pb_Index :: i32
  pb_Op :: string
  pb_Filename :: string
  pb_Content :: bytes
  pb_Version :: i32

record AppendEntriesRequest =
  LeaderId :: string
  Entries :: "pb_LogEntry list"
  LeaderCommit :: i32

section \<open>Data\<close>

datatype Role = Primary | Backup

record ServerInfo =
  ID :: string
  Address :: string
  Timestamp :: int
  Alive :: bool

text \<open>\<open>Index\<close> is a Go \<open>int\<close>: one more than a length, far from its bounds.\<close>

record LogEntry =
  Index :: int
  Op :: string
  Filename :: string
  Content :: bytes
  Version :: i32

record ClientState =
  lastSeen :: time
  mode :: FileMode

text \<open>\<open>meta_file\<close> is \<open>None\<close> where the pointer is nil (an ignored error of \<open>os.OpenFile\<close>).\<close>

record FileMeta =
  meta_file :: "handle option"
  filename :: string
  meta_version :: i32
  clients :: "(string, ClientState) gomap"

text \<open>What the request cache holds: a pointer to the response of one of four handlers.\<close>

datatype response =
    OpenResponse (resp_fd: i32) (resp_version: i32) (resp_message: string)
  | DeleteResponse (resp_message: string)
  | CloseResponse (resp_message: string) (resp_version: i32)
  | WriteResponse (resp_message: string) (resp_version: i32)

record RequestEntry =
  response :: response
  timestamp :: time

type_synonym FileKey = "string \<times> string"

text \<open>
  The lines of the log file: an entry as JSON, or the bytes of a line that is not one. The names come
  in over gRPC, whose strings are valid UTF-8, so reading an entry back gives the entry.
\<close>

datatype log_line = EntryLine LogEntry | CorruptLine bytes

subsection \<open>Snapshots\<close>

record SnapshotClientInfo =
  snap_ClientID :: string
  snap_Filename :: string
  snap_FD :: i32
  snap_Mode :: FileMode
  snap_Version :: i32

record SnapshotFileInfo =
  info_Filename :: string
  info_Version :: i32
  PrimeSet :: "u64 list"
  CommitIdx :: int

record GlobalSnapshot =
  SnapshotID :: string
  TakenAt :: time
  ServerID :: string
  CommitIndex :: int
  OpenClients :: "SnapshotClientInfo list"
  Files :: "SnapshotFileInfo list"
  WorkerSteps :: "(string, int) gomap"
  TensorCount :: nat

text \<open>The channel \<open>done\<close> holds at most one signal.\<close>

record SnapshotState =
  snap_id :: string
  localSnap :: GlobalSnapshot
  pendingAck :: "(string, bool) gomap"
  done_signal :: bool

subsection \<open>The server\<close>

text \<open>
  \<open>disk\<close>, \<open>log_file\<close> and \<open>snapshot_files\<close> are the server's durable state (the storage tree, the
  file \<open>log_<id>.txt\<close>, the snapshots as JSON), \<open>sent\<close> the messages it has handed to the network.
\<close>

record server =
  server_id :: string
  role :: Role
  primaryID :: string
  servers :: "(string, ServerInfo) gomap"
  files :: "(i32, FileMeta) gomap"
  table :: "(string, FileEntry) gomap"
  nextFD :: i32
  requests :: "(string, RequestEntry) gomap"
  openMap :: "(FileKey, i32) gomap"
  rootDir :: string
  log :: "LogEntry list"
  commitIndex :: int
  lastApplied :: int
  lastHeartbeat :: time
  filesPrimes :: "(string, prime_set) gomap"
  snapshot :: "SnapshotState option"
  disk :: disk
  log_file :: "log_line list option"
  snapshot_files :: "(string, GlobalSnapshot) gomap"
  sent :: "(string \<times> AppendEntriesRequest) list"

definition NewServer :: "string \<Rightarrow> string \<Rightarrow> (string, ServerInfo) gomap \<Rightarrow> disk \<Rightarrow>
    log_line list option \<Rightarrow> (string, GlobalSnapshot) gomap \<Rightarrow> server" where
  "NewServer i root srvs d lf sf =
     \<lparr>server_id = i, role = Backup, primaryID = [], servers = srvs, files = [], table = [],
      nextFD = 0, requests = [], openMap = [], rootDir = root, log = [], commitIndex = 0,
      lastApplied = 0, lastHeartbeat = 0, filesPrimes = [], snapshot = None, disk = d,
      log_file = lf, snapshot_files = sf, sent = []\<rparr>"

definition MaxOpenFiles :: nat where "MaxOpenFiles = 1000"
definition RequestCacheTTL :: time where "RequestCacheTTL = 5 * minute"
definition LeaseTimeout :: time where "LeaseTimeout = 10 * minute"
definition ChunkSize :: nat where "ChunkSize = 64 * 1024"

section \<open>The environment of a call\<close>

text \<open>
  \<open>FAIL_DURING_REPLICATION\<close>, \<open>FAIL_BEFORE_COMMIT_SERVER\<close> and
  \<open>FAIL_AFTER_COMMIT_BEFORE_RESPONSE\<close> make \<open>Close\<close> exit the process at that point.
\<close>

datatype crash_point = DuringReplication | BeforeCommit | AfterCommit

text \<open>
  \<open>answers\<close> are the results of the calls of the peers, by peer, in the order in which they come
  in before the time-out; \<open>range_order\<close> is the order in which a loop visits a set; \<open>log_fault\<close>
  tells whether the write to the log file fails; \<open>mod_time\<close> is the modification time of a name;
  \<open>metadata\<close> is the incoming metadata of the call, if it has any.
\<close>

record env =
  now :: time
  metadata :: "(string, string list) gomap option"
  answers :: "(string \<times> bool) list"
  range_order :: "prime_set \<Rightarrow> prime_set"
  log_fault :: bool
  crashes :: "crash_point list"
  mod_time :: "string \<Rightarrow> time option"

definition getClientIDFromContext :: "env \<Rightarrow> string" where
  "getClientIDFromContext e = (case metadata e of None \<Rightarrow> []
     | Some md \<Rightarrow> (case mget md ''clientid'' of None \<Rightarrow> [] | Some [] \<Rightarrow> [] | Some (i # is) \<Rightarrow> i))"

definition fair_order :: "env \<Rightarrow> bool" where
  "fair_order e \<longleftrightarrow> (\<forall>S. mset (range_order e S) = mset S)"

section \<open>Guards shared by the handlers\<close>

definition leader_check :: "server \<Rightarrow> rpc_error option" where
  "leader_check s =
     (if role s \<noteq> Primary
      then if primaryID s = [] then Some (RpcError Unavailable ''no leader elected yet'')
           else case mget (servers s) (primaryID s) of
               None \<Rightarrow> Some (RpcError Internal ''leader info missing'')
             | Some l \<Rightarrow> Some (RpcError FailedPrecondition (''not leader: '' @ Address l))
      else None)"

text \<open>The response the cache holds for a request, while it is fresh.\<close>

definition cached :: "env \<Rightarrow> server \<Rightarrow> string \<Rightarrow> response option" where
  "cached e s rid = (case mget (requests s) rid of None \<Rightarrow> None
     | Some r \<Rightarrow> if now e - timestamp r < RequestCacheTTL then Some (response r) else None)"

definition remember :: "env \<Rightarrow> string \<Rightarrow> response \<Rightarrow> server \<Rightarrow> server" where
  "remember e rid r s = s\<lparr>requests := mput rid \<lparr>response = r, timestamp = now e\<rparr> (requests s)\<rparr>"

definition full_path :: "server \<Rightarrow> string \<Rightarrow> string" where
  "full_path s p = Join (rootDir s) p"

section \<open>Version files\<close>

definition try_disk :: "(disk \<Rightarrow> disk option) \<Rightarrow> server \<Rightarrow> server" where
  "try_disk f s = (case f (disk s) of Some d \<Rightarrow> s\<lparr>disk := d\<rparr> | None \<Rightarrow> s)"

definition saveVersion :: "string \<Rightarrow> i32 \<Rightarrow> server \<Rightarrow> server" where
  "saveVersion name v s =
     try_disk (\<lambda>d. os_WriteFile d (full_path s (name @ ''.meta'')) (format_int (sint v))) s"

definition loadVersion :: "server \<Rightarrow> string \<Rightarrow> i32" where
  "loadVersion s name = (case os_ReadFile (disk s) (full_path s (name @ ''.meta'')) of
       None \<Rightarrow> 1
     | Some data \<Rightarrow> (case Atoi data of None \<Rightarrow> 1 | Some v \<Rightarrow> word_of_int v))"

definition rebuild_entry :: "string \<Rightarrow> server \<Rightarrow> server" where
  "rebuild_entry name s =
     (if HasSuffix name ''.tmp'' then s\<lparr>disk := os_Remove (disk s) (full_path s name)\<rparr>
      else if HasSuffix name ''.meta'' then s
      else s\<lparr>table := mput name (NewFileEntry\<lparr>fe_version := loadVersion s name\<rparr>) (table s)\<rparr>)"

definition rebuildVersionTable :: "server \<Rightarrow> server" where
  "rebuildVersionTable s = (case os_ReadDir (disk s) (rootDir s) of
       None \<Rightarrow> s | Some ns \<Rightarrow> fold rebuild_entry ns s)"

section \<open>Rebuilding the prime sets\<close>

definition prime_set_of :: "u64 list \<Rightarrow> prime_set" where
  "prime_set_of ps = snd (FilterUniquePrimes ps [])"

definition load_primes :: "string \<Rightarrow> server \<Rightarrow> server" where
  "load_primes name s =
     (if HasSuffix name ''.tmp'' \<or> HasSuffix name ''.meta'' then s
      else if \<not> HasPrefix name ''output'' then s
      else case os_ReadFile (disk s) (full_path s name) of None \<Rightarrow> s
        | Some data \<Rightarrow>
            s\<lparr>filesPrimes := mput name (prime_set_of (parseNumbers data)) (filesPrimes s)\<rparr>)"

definition rebuildAllPrimeSets :: "server \<Rightarrow> server" where
  "rebuildAllPrimeSets s =
     (if role s \<noteq> Primary then s
      else case os_ReadDir (disk s) (rootDir s) of
          None \<Rightarrow> s | Some ns \<Rightarrow> fold load_primes ns s)"

section \<open>The file table\<close>

definition set_entry :: "string \<Rightarrow> FileEntry \<Rightarrow> server \<Rightarrow> server" where
  "set_entry name fe s = s\<lparr>table := mput name fe (table s)\<rparr>"

definition getFileEntry :: "string \<Rightarrow> server \<Rightarrow> FileEntry \<times> server" where
  "getFileEntry name s =
     (let fe = (case mget (table s) name of Some fe \<Rightarrow> fe | None \<Rightarrow> NewFileEntry\<lparr>fe_version := 1\<rparr>);
          fe' = (if has_cond fe then fe else fe\<lparr>has_cond := True\<rparr>)
      in (fe', set_entry name fe' s))"

text \<open>A change through a pointer to the entry; it is not seen when the entry has left the table.\<close>

definition map_entry :: "string \<Rightarrow> (FileEntry \<Rightarrow> FileEntry) \<Rightarrow> server \<Rightarrow> server" where
  "map_entry name f s =
     (case mget (table s) name of None \<Rightarrow> s | Some fe \<Rightarrow> set_entry name (f fe) s)"

section \<open>Cleanups\<close>

definition cleanupRequests :: "env \<Rightarrow> server \<Rightarrow> server" where
  "cleanupRequests e s =
     s\<lparr>requests := filter (\<lambda>(i, r). \<not> now e - timestamp r > RequestCacheTTL) (requests s)\<rparr>"

definition lease_expired :: "env \<Rightarrow> ClientState \<Rightarrow> bool" where
  "lease_expired e c \<longleftrightarrow> now e - lastSeen c > LeaseTimeout"

text \<open>The expired leases: client, file and mode, over all open files.\<close>

definition expired_leases :: "env \<Rightarrow> server \<Rightarrow> (string \<times> string \<times> FileMode) list" where
  "expired_leases e s = concat (map (\<lambda>(fd, m).
     map (\<lambda>(c, cs). (c, filename m, mode cs)) (filter (\<lambda>(c, cs). lease_expired e cs) (clients m)))
     (files s))"

definition release_expired :: "string \<times> string \<times> FileMode \<Rightarrow> server \<Rightarrow> server" where
  "release_expired l s = (case l of (c, f, md) \<Rightarrow>
     let s1 = snd (getFileEntry f s)
     in if md = FileMode_READ then map_entry f ReleaseRead s1
        else if md = FileMode_WRITE \<or> md = 2 then map_entry f ReleaseWrite s1
        else s1)"

definition cleanupLeases :: "env \<Rightarrow> server \<Rightarrow> server" where
  "cleanupLeases e s =
     (let ex = expired_leases e s;
          s1 = s\<lparr>files := map (\<lambda>(fd, m).
                   (fd, m\<lparr>clients := filter (\<lambda>(c, cs). \<not> lease_expired e cs) (clients m)\<rparr>)) (files s),
                 openMap := fold (\<lambda>(c, f, md). mdel (c, f)) ex (openMap s)\<rparr>
      in fold release_expired ex s1)"

definition cleanup_temp :: "env \<Rightarrow> string \<Rightarrow> server \<Rightarrow> server" where
  "cleanup_temp e name s =
     (if \<not> HasSuffix name ''.tmp'' then s
      else case mod_time e name of
          None \<Rightarrow> s
        | Some t \<Rightarrow>
            if now e - t < 2 * minute then s
            else (case getFileEntry (TrimSuffix name ''.tmp'') s of (fe, s1) \<Rightarrow>
              if activeReaders fe > 0 \<or> activeWriter fe then s1
              else s1\<lparr>disk := os_Remove (disk s1) (full_path s name)\<rparr>))"

definition cleanupTempFiles :: "env \<Rightarrow> server \<Rightarrow> server" where
  "cleanupTempFiles e s = (case os_ReadDir (disk s) (rootDir s) of
       None \<Rightarrow> s | Some ns \<Rightarrow> fold (cleanup_temp e) ns s)"

end
