(* ===== verification/Replication.thy ===== *)
theory Replication
  imports ServerState
begin

text \<open>
  The replicated log of \<open>server_replication.go\<close>: appending and persisting entries, applying the
  committed ones to the storage tree, the handler of the backups (\<open>AppendEntries\<close>), the recovery
  from the log file and from the leader, and \<open>HandleWrite\<close>. The abstract specification is
  \<open>replay\<close>: the content a path has after a list of entries.
\<close>

section \<open>Appending and persisting\<close>

text \<open>\<open>appendToDisk\<close> reports whether the line was written.\<close>

definition appendToDisk :: "env \<Rightarrow> LogEntry \<Rightarrow> server \<Rightarrow> bool \<times> server" where
  "appendToDisk e le s =
     (if log_fault e then (False, s)
      else (True, s\<lparr>log_file :=
        Some ((case log_file s of None \<Rightarrow> [] | Some ls \<Rightarrow> ls) @ [EntryLine le])\<rparr>))"

definition append_entry :: "env \<Rightarrow> LogEntry \<Rightarrow> server \<Rightarrow> bool \<times> server" where
  "append_entry e le s = appendToDisk e le (s\<lparr>log := log s @ [le]\<rparr>)"

section \<open>Applying\<close>

text \<open>A \<open>WRITE\<close> makes the directories and replaces the file; the first error ends it.\<close>

definition apply_write :: "string \<Rightarrow> bytes \<Rightarrow> disk \<Rightarrow> disk" where
  "apply_write full content d =
     (case os_MkdirAll d (Dir full) of None \<Rightarrow> d
      | Some d1 \<Rightarrow> (case os_WriteFile d1 full content of None \<Rightarrow> d1 | Some d2 \<Rightarrow> d2))"

definition apply_entry :: "LogEntry \<Rightarrow> server \<Rightarrow> server" where
  "apply_entry le s =
     (if Op le = ''WRITE''
      then s\<lparr>disk := apply_write (full_path s (Filename le)) (Content le) (disk s)\<rparr>
      else s)"

lemma apply_entry_simps [simp]:
  "server_id (apply_entry le s) = server_id s" "role (apply_entry le s) = role s"
  "primaryID (apply_entry le s) = primaryID s" "servers (apply_entry le s) = servers s"
  "files (apply_entry le s) = files s" "table (apply_entry le s) = table s"
  "nextFD (apply_entry le s) = nextFD s" "requests (apply_entry le s) = requests s"
  "openMap (apply_entry le s) = openMap s" "rootDir (apply_entry le s) = rootDir s"
  "log (apply_entry le s) = log s" "commitIndex (apply_entry le s) = commitIndex s"
  "lastApplied (apply_entry le s) = lastApplied s" "filesPrimes (apply_entry le s) = filesPrimes s"
  "snapshot (apply_entry le s) = snapshot s" "log_file (apply_entry le s) = log_file s"
  "sent (apply_entry le s) = sent s"
  by (simp_all add: apply_entry_def)

function applyCommitted :: "server \<Rightarrow> server" where
  "applyCommitted s =
     (if lastApplied s < commitIndex s \<and> lastApplied s < int (length (log s))
      then let s1 = s\<lparr>lastApplied := lastApplied s + 1\<rparr>
           in applyCommitted (apply_entry (log s1 ! nat (lastApplied s1 - 1)) s1)
      else s)"
  by pat_completeness auto
termination
  by (relation "measure (\<lambda>s. nat (int (length (log s)) - lastApplied s))") (auto simp: Let_def)

declare applyCommitted.simps [simp del]

section \<open>Messages between servers\<close>

definition to_pb :: "LogEntry \<Rightarrow> pb_LogEntry" where
  "to_pb le = \<lparr>pb_Index = word_of_int (Index le), pb_Op = Op le, pb_Filename = Filename le,
     pb_Content = Content le, pb_Version = Version le\<rparr>"

definition of_pb :: "pb_LogEntry \<Rightarrow> LogEntry" where
  "of_pb p = \<lparr>Index = sint (pb_Index p), Op = pb_Op p, Filename = pb_Filename p,
     Content = pb_Content p, Version = pb_Version p\<rparr>"

definition append_request :: "string \<Rightarrow> LogEntry \<Rightarrow> int \<Rightarrow> AppendEntriesRequest" where
  "append_request self le ci =
     \<lparr>LeaderId = self, Entries = [to_pb le], LeaderCommit = word_of_int ci\<rparr>"

definition peers :: "server \<Rightarrow> string list" where
  "peers s = filter (\<lambda>p. p \<noteq> server_id s) (map (\<lambda>(k, i). ID i) (servers s))"

text \<open>\<open>sendAppendEntry\<close> to every peer, with the commit index given.\<close>

definition send_all :: "LogEntry \<Rightarrow> int \<Rightarrow> server \<Rightarrow> server" where
  "send_all le ci s =
     s\<lparr>sent := sent s @ map (\<lambda>p. (p, append_request (server_id s) le ci)) (peers s)\<rparr>"

text \<open>
  The loop that waits for the acknowledgements: it counts the positive answers of the peers, in
  the order they come in, until the majority is reached or the time-out ends the list.
\<close>

fun count_acks :: "nat \<Rightarrow> nat \<Rightarrow> bool list \<Rightarrow> nat" where
  "count_acks majority n [] = n"
| "count_acks majority n (ok # oks) =
     (if n < majority then count_acks majority (if ok then n + 1 else n) oks else n)"

definition peer_answers :: "env \<Rightarrow> server \<Rightarrow> bool list" where
  "peer_answers e s = map snd (filter (\<lambda>(p, ok). p \<in> set (peers s)) (answers e))"

definition reaches_majority :: "env \<Rightarrow> server \<Rightarrow> nat \<Rightarrow> bool" where
  "reaches_majority e s majority \<longleftrightarrow> count_acks majority 1 (peer_answers e s) \<ge> majority"

definition alive_count :: "server \<Rightarrow> nat" where
  "alive_count s = length (filter (\<lambda>(k, i). Alive i) (servers s))"

section \<open>The backups\<close>

definition receive_entry :: "env \<Rightarrow> pb_LogEntry \<Rightarrow> server \<Rightarrow> server" where
  "receive_entry e p s =
     (let le = of_pb p
      in if Index le \<le> int (length (log s)) then s else snd (append_entry e le s))"

text \<open>\<open>AppendEntries\<close> always answers with success.\<close>

definition AppendEntries :: "env \<Rightarrow> AppendEntriesRequest \<Rightarrow> server \<Rightarrow> bool outcome \<times> server" where
  "AppendEntries e req s =
     (let s1 = fold (receive_entry e) (Entries req) s;
          s2 = (if sint (LeaderCommit req) > commitIndex s1
                then s1\<lparr>commitIndex := sint (LeaderCommit req)\<rparr> else s1)
      in (Ok True, applyCommitted s2))"

section \<open>Recovery from the log file\<close>

text \<open>
  The length of an entry's line of JSON: \<open>Content\<close> is in base64. Of a string, the ASCII characters
  that JSON or the HTML-safe encoder escapes take two or six bytes, a byte that begins no valid
  UTF-8 sequence and the characters U+2028 and U+2029 take six, and the others stay as they are.
\<close>

definition json_ascii_len :: "nat \<Rightarrow> nat" where
  "json_ascii_len k =
     (if k \<in> {34, 92, 8, 9, 10, 12, 13} then 2 else if k < 32 \<or> k \<in> {38, 60, 62} then 6 else 1)"

definition between :: "nat \<Rightarrow> nat \<Rightarrow> nat \<Rightarrow> bool" where
  "between a b k \<longleftrightarrow> a \<le> k \<and> k \<le> b"

text \<open>\<open>utf8.DecodeRune\<close>: the size of the sequence at the head, 0 when it is not valid.\<close>

definition rune_size :: "nat list \<Rightarrow> nat" where
  "rune_size bs = (case bs of [] \<Rightarrow> 0 | a # r \<Rightarrow>
     if a < 128 then 1
     else case r of [] \<Rightarrow> 0 | b # r \<Rightarrow>
     if between 194 223 a \<and> between 128 191 b then 2
     else case r of [] \<Rightarrow> 0 | c # r \<Rightarrow>
     if between 224 239 a \<and> between (if a = 224 then 160 else 128) (if a = 237 then 159 else 191) b \<and> between 128 191 c
     then 3
     else case r of [] \<Rightarrow> 0 | d # r \<Rightarrow>
     if between 240 244 a \<and> between (if a = 240 then 144 else 128) (if a = 244 then 143 else 191) b \<and>
        between 128 191 c \<and> between 128 191 d
     then 4 else 0)"

function json_text_len :: "nat list \<Rightarrow> nat" where
  "json_text_len bs =
     (if bs = [] then 0
      else let k = rune_size bs
      in if k = 0 then 6 + json_text_len (tl bs)
         else (if k = 1 then json_ascii_len (hd bs)
               else if take 3 bs = [226, 128, 168] \<or> take 3 bs = [226, 128, 169] then 6 else k)
           + json_text_len (drop k bs))"
  by pat_completeness auto
termination
  by (relation "measure length") auto

declare json_text_len.simps [simp del]

definition json_string_len :: "string \<Rightarrow> nat" where
  "json_string_len s = json_text_len (map of_char s) + 2"

definition base64_len :: "bytes \<Rightarrow> nat" where
  "base64_len b = (if b = [] then 4 else 4 * ((length b + 2) div 3) + 2)"

definition json_len :: "LogEntry \<Rightarrow> nat" where
  "json_len le = 50 + length (format_int (Index le)) + json_string_len (Op le) +
     json_string_len (Filename le) + base64_len (Content le) +
     length (format_int (sint (Version le)))"

definition maxBuf :: nat where "maxBuf = 16 * 1024 * 1024"

text \<open>One line of the log: the entry is appended to the log and applied.\<close>

definition recover_entry :: "LogEntry \<Rightarrow> server \<Rightarrow> server" where
  "recover_entry le s =
     (let s1 = apply_entry le (s\<lparr>log := log s @ [le]\<rparr>)
      in if Index le > commitIndex s1
         then s1\<lparr>commitIndex := Index le, lastApplied := Index le\<rparr> else s1)"

text \<open>
  The scanner's loop; \<open>False\<close> when it stops at a line that does not fit its buffer with its newline.
\<close>

fun recover_lines :: "log_line list \<Rightarrow> server \<Rightarrow> bool \<times> server" where
  "recover_lines [] s = (True, s)"
| "recover_lines (CorruptLine x # ls) s = (if length x + 1 > maxBuf then (False, s) else recover_lines ls s)"
| "recover_lines (EntryLine le # ls) s =
     (if json_len le + 1 > maxBuf then (False, s) else recover_lines ls (recover_entry le s))"

definition recoverFromLog :: "server \<Rightarrow> bool \<times> server" where
  "recoverFromLog s = (case log_file s of None \<Rightarrow> (True, s)
     | Some ls \<Rightarrow> (case recover_lines ls s of (ok, s1) \<Rightarrow>
         if ok then (True, rebuildAllPrimeSets s1) else (False, s1)))"

section \<open>Recovery from the leader\<close>

record Replica =
  rep_Filename :: string
  rep_Version :: i32
  rep_Content :: bytes

record UpdateMessage =
  IsFullSync :: bool
  LogEntries :: "pb_LogEntry list"
  FullFiles :: "Replica list"

text \<open>\<open>os.OpenFile(path, O_CREATE|O_RDWR)\<close>, whose error is ignored.\<close>

definition open_or_create :: "string \<Rightarrow> disk \<Rightarrow> handle option \<times> disk" where
  "open_or_create p d = (case mget (names d) p of Some i \<Rightarrow> (Some (HFile i), d)
     | None \<Rightarrow> if creatable d p then (Some (HFile (next_ino d)), new_file d p []) else (None, d))"

text \<open>The descriptor of the entry's file, or of a new one; a fresh entry has no condition variable.\<close>

definition getOrCreateFileMeta :: "string \<Rightarrow> server \<Rightarrow> i32 \<times> server" where
  "getOrCreateFileMeta name s =
     (let create = (case open_or_create (full_path s name) (disk s) of (h, d) \<Rightarrow>
            (nextFD s, s\<lparr>nextFD := nextFD s + 1, disk := d,
               files := mput (nextFD s)
                 \<lparr>meta_file = h, filename = name, meta_version = 0, clients = []\<rparr> (files s),
               table := mput name (NewFileEntry\<lparr>FD := nextFD s, has_cond := False\<rparr>) (table s)\<rparr>))
      in case mget (table s) name of None \<Rightarrow> create
         | Some fe \<Rightarrow> (case mget (files s) (FD fe) of None \<Rightarrow> create | Some m \<Rightarrow> (FD fe, s)))"

definition RebuildPrimeSet :: "string \<Rightarrow> server \<Rightarrow> server" where
  "RebuildPrimeSet name s =
     (if role s \<noteq> Primary then s
      else case os_ReadFile (disk s) (full_path s name) of None \<Rightarrow> s
        | Some data \<Rightarrow>
            s\<lparr>filesPrimes := mput name (prime_set_of (parseNumbers data)) (filesPrimes s)\<rparr>)"

text \<open>One file of a full synchronisation; \<open>None\<close> when it cannot be written.\<close>

definition sync_file :: "Replica \<Rightarrow> server \<Rightarrow> server option" where
  "sync_file f s = (case os_WriteFile (disk s) (full_path s (rep_Filename f)) (rep_Content f) of
       None \<Rightarrow> None
     | Some d \<Rightarrow> (case getOrCreateFileMeta (rep_Filename f) (s\<lparr>disk := d\<rparr>) of (fd, s1) \<Rightarrow>
         (case mget (files s1) fd of None \<Rightarrow> None
          | Some m \<Rightarrow> Some (RebuildPrimeSet (filename m)
              (s1\<lparr>files := mput fd (m\<lparr>meta_version := rep_Version f\<rparr>) (files s1)\<rparr>)))))"

fun sync_files :: "Replica list \<Rightarrow> server \<Rightarrow> bool \<times> server" where
  "sync_files [] s = (True, s)"
| "sync_files (f # fs) s = (case sync_file f s of None \<Rightarrow> (False, s) | Some s1 \<Rightarrow> sync_files fs s1)"

fun sync_entries :: "env \<Rightarrow> pb_LogEntry list \<Rightarrow> server \<Rightarrow> bool \<times> server" where
  "sync_entries e [] s = (True, s)"
| "sync_entries e (p # ps) s =
     (let le = of_pb p
      in if Index le \<le> int (length (log s)) then sync_entries e ps s
         else if Index le \<noteq> int (length (log s)) + 1 then (False, s)
         else sync_entries e ps (snd (append_entry e le s)))"

text \<open>\<open>ApplyUpdate\<close>; the first component tells whether it returned without an error.\<close>

definition ApplyUpdate :: "env \<Rightarrow> UpdateMessage \<Rightarrow> server \<Rightarrow> bool \<times> server" where
  "ApplyUpdate e msg s =
     (if IsFullSync msg
      then sync_files (FullFiles msg) (s\<lparr>log := [], commitIndex := 0, lastApplied := 0\<rparr>)
      else sync_entries e (LogEntries msg) s)"

definition RequestRecovery :: "server \<Rightarrow> UpdateMessage outcome" where
  "RequestRecovery s =
     (if role s \<noteq> Primary then fail FailedPrecondition ''not leader''
      else Ok \<lparr>IsFullSync = True, LogEntries = [], FullFiles =
        List.map_filter (\<lambda>(name, fe). case os_ReadFile (disk s) (full_path s name) of None \<Rightarrow> None
          | Some data \<Rightarrow> Some \<lparr>rep_Filename = name, rep_Version = fe_version fe, rep_Content = data\<rparr>)
          (table s)\<rparr>)"

text \<open>\<open>RecoverFromLeader\<close>, given the answer of the leader's \<open>RequestRecovery\<close>, if one came.\<close>

definition RecoverFromLeader :: "env \<Rightarrow> UpdateMessage option \<Rightarrow> server \<Rightarrow> bool \<times> server" where
  "RecoverFromLeader e answer s = (case mget (servers s) (primaryID s) of None \<Rightarrow> (False, s)
     | Some l \<Rightarrow> (case answer of None \<Rightarrow> (False, s) | Some msg \<Rightarrow> ApplyUpdate e msg s))"

section \<open>\<open>HandleWrite\<close>\<close>

definition HandleWrite :: "env \<Rightarrow> string \<Rightarrow> bytes \<Rightarrow> server \<Rightarrow> bool \<times> server" where
  "HandleWrite e name data s =
     (case getOrCreateFileMeta name s of (fd, s1) \<Rightarrow>
       let le = \<lparr>Index = int (length (log s1)) + 1, Op = ''WRITE'', Filename = name, Content = data,
                 Version = (case mget (files s1) fd of Some m \<Rightarrow> meta_version m + 1 | None \<Rightarrow> 1)\<rparr>
       in case append_entry e le s1 of (ok, s2) \<Rightarrow>
         if \<not> ok then (False, s2)
         else let s3 = send_all le (Index le) s2;
                  acks = 1 + length (filter id (peer_answers e s3))
              in if acks \<ge> alive_count s3 div 2 + 1
                 then (True, applyCommitted (s3\<lparr>commitIndex := Index le\<rparr>))
                 else (False, s3))"

end
