(* ===== verification/Handlers.thy ===== *)
theory Handlers
  imports Replication
begin

text \<open>
  The handlers of the file service (\<open>server_basics.go\<close>): \<open>Create\<close>, \<open>Delete\<close>, \<open>Open\<close>, \<open>Close\<close>,
  \<open>Read\<close>, \<open>Write\<close>, \<open>TestAuth\<close>, and \<open>GetLeader\<close> of \<open>server_replication.go\<close>. Each is the whole
  handler, with its guards in the order of the code; \<open>Close\<close> and \<open>Write\<close> are split where the code
  releases the server's mutex.
\<close>

section \<open>Requests\<close>

record CreateRequest =
  cr_RequestId :: string
  cr_Filename :: string
  cr_ClientId :: string
  cr_Mode :: FileMode

record DeleteRequest =
  de_RequestId :: string
  de_Filename :: string

record FileRequest =
  fr_RequestId :: string
  fr_Filename :: string
  fr_Mode :: FileMode
  fr_ClientId :: string

record CloseRequest =
  cl_RequestId :: string
  cl_Fd :: i32
  cl_Dirty :: bool
  cl_Version :: i32
  cl_Data :: bytes

record WriteRequest =
  wr_RequestId :: string
  wr_Fd :: i32
  wr_Dirty :: bool
  wr_Version :: i32
  wr_Data :: bytes

record ReadRequest =
  rd_Filename :: string
  rd_Fd :: i32

section \<open>Shared parts\<close>

text \<open>
  The code between \<open>AcquireWrite\<close> and the deferred \<open>ReleaseWrite\<close>. A process that ends inside it
  takes the lock with it.
\<close>

definition with_write :: "string \<Rightarrow> (server \<Rightarrow> 'a outcome \<times> server) \<Rightarrow> server \<Rightarrow> 'a outcome \<times> server" where
  "with_write name body s =
     (case getFileEntry name s of (fe, s1) \<Rightarrow>
       (case AcquireWrite fe of
          None \<Rightarrow> (Blocked, set_entry name (announce_writer fe) s1)
        | Some fe' \<Rightarrow> (case body (set_entry name fe' s1) of
            (r, s2) \<Rightarrow> (r, map_entry name ReleaseWrite s2))))"

text \<open>The version of a file's entry, read through the pointer that \<open>getFileEntry\<close> returned.\<close>

definition entry_version :: "string \<Rightarrow> server \<Rightarrow> i32" where
  "entry_version name s = (case mget (table s) name of Some fe \<Rightarrow> fe_version fe | None \<Rightarrow> 0)"

text \<open>A new descriptor with one client, and the answer that goes to the request cache.\<close>

definition open_fd :: "env \<Rightarrow> string \<Rightarrow> string \<Rightarrow> FileMode \<Rightarrow> string \<Rightarrow> handle \<Rightarrow> i32 \<Rightarrow> string \<Rightarrow>
    server \<Rightarrow> response outcome \<times> server" where
  "open_fd e rid cid md name h v msg s =
     (let fd = nextFD s;
          m = \<lparr>meta_file = Some h, filename = name, meta_version = v,
               clients = [(cid, \<lparr>lastSeen = now e, mode = md\<rparr>)]\<rparr>;
          r = OpenResponse fd v msg
      in (Ok r, remember e rid r (s\<lparr>nextFD := fd + 1, files := mput fd m (files s),
            openMap := mput (cid, name) fd (openMap s)\<rparr>)))"

definition too_many_files :: "server \<Rightarrow> bool" where
  "too_many_files s \<longleftrightarrow> mlen (files s) \<ge> MaxOpenFiles"

definition mkdir_error :: "disk \<Rightarrow> string \<Rightarrow> rpc_error" where
  "mkdir_error d p = RpcError Unknown (''mkdir '' @
     (case find (is_file d) (ancestors p) of Some q \<Rightarrow> q | None \<Rightarrow> p) @ '': not a directory'')"

section \<open>\<open>Create\<close>\<close>

definition create_locked :: "env \<Rightarrow> CreateRequest \<Rightarrow> string \<Rightarrow> server \<Rightarrow> response outcome \<times> server" where
  "create_locked e req safe s =
     (let full = full_path s safe
      in case os_MkdirAll (disk s) (Dir full) of
        None \<Rightarrow> (Fail (mkdir_error (disk s) (Dir full)), s)
      | Some d1 \<Rightarrow> (case os_CreateExcl d1 full of
          Inl ErrExist \<Rightarrow> (fail AlreadyExists ''file exists'', s\<lparr>disk := d1\<rparr>)
        | Inl er \<Rightarrow> (fail Unknown (''open '' @ full @ '': no such file or directory''), s\<lparr>disk := d1\<rparr>)
        | Inr (d2, h) \<Rightarrow>
            if too_many_files s
            then (fail ResourceExhausted ''too many open files'', s\<lparr>disk := os_Remove d2 full\<rparr>)
            else open_fd e (cr_RequestId req) (cr_ClientId req) (cr_Mode req) safe h 0 ''file created''
                   (map_entry safe (\<lambda>fe. fe\<lparr>fe_version := 0\<rparr>) (s\<lparr>disk := d2\<rparr>))))"

definition Create :: "env \<Rightarrow> CreateRequest \<Rightarrow> server \<Rightarrow> response outcome \<times> server" where
  "Create e req s = (case leader_check s of Some er \<Rightarrow> (Fail er, s)
     | None \<Rightarrow> (case cached e s (cr_RequestId req) of
         Some (OpenResponse fd v msg) \<Rightarrow> (Ok (OpenResponse fd v msg), s)
       | Some r \<Rightarrow> (Panic, s)
       | None \<Rightarrow> (case sanitizePath (cr_Filename req) of
           None \<Rightarrow> (fail Unknown ''invalid path'', s)
         | Some p \<Rightarrow> (let safe = normPath p
             in if \<not> (HasPrefix safe ''output/'' \<or> HasPrefix safe (''output'' @ [CHR 0x5C]))
                then (fail PermissionDenied ''only output/'', s)
                else with_write safe (create_locked e req safe) s))))"

section \<open>\<open>Delete\<close>\<close>

definition already_deleted :: "env \<Rightarrow> string \<Rightarrow> server \<Rightarrow> response outcome \<times> server" where
  "already_deleted e rid s =
     (let r = DeleteResponse ''File is already deleted'' in (Ok r, remember e rid r s))"

text \<open>
  The deferred function releases the writer flag and calls \<open>Broadcast\<close>, which panics when the
  entry, taken from the table directly, has no condition variable.
\<close>

definition delete_entry :: "env \<Rightarrow> string \<Rightarrow> string \<Rightarrow> FileEntry \<Rightarrow> server \<Rightarrow> response outcome \<times> server" where
  "delete_entry e rid safe fe s =
     (case try_write fe of
        None \<Rightarrow> (fail FailedPrecondition ''file is currently in use by another client'', s)
      | Some fe' \<Rightarrow>
          let full = full_path s safe;
              r = DeleteResponse ''File is deleted''
          in if os_Stat (disk s) full = NotDir
             then (if has_cond fe then fail Internal (''remove '' @ full @ '': not a directory'') else Panic, s)
             else (if has_cond fe then Ok r else Panic,
                   remember e rid r (s\<lparr>disk := os_Remove (disk s) full, table := mdel safe (table s),
                     filesPrimes := mdel safe (filesPrimes s)\<rparr>)))"

definition Delete :: "env \<Rightarrow> DeleteRequest \<Rightarrow> server \<Rightarrow> response outcome \<times> server" where
  "Delete e req s = (case leader_check s of Some er \<Rightarrow> (Fail er, s)
     | None \<Rightarrow> (case cached e s (de_RequestId req) of
         Some (DeleteResponse msg) \<Rightarrow> (Ok (DeleteResponse msg), s)
       | Some r \<Rightarrow> (Panic, s)
       | None \<Rightarrow> (case sanitizePath (de_Filename req) of
           None \<Rightarrow> (fail Unknown ''invalid path'', s)
         | Some p \<Rightarrow> (let safe = normPath p; full = full_path s safe; st = os_Stat (disk s) full
             in if HasPrefix safe ''input/'' then (fail PermissionDenied ''cannot delete input files'', s)
                else if st = Absent then already_deleted e (de_RequestId req) s
                else if st = IsDir then (fail InvalidArgument ''cannot delete directory'', s)
                else (case mget (table s) safe of
                    None \<Rightarrow> already_deleted e (de_RequestId req) s
                  | Some fe \<Rightarrow> delete_entry e (de_RequestId req) safe fe s)))))"

section \<open>\<open>Open\<close>\<close>

definition open_input :: "env \<Rightarrow> FileRequest \<Rightarrow> string \<Rightarrow> FileEntry \<Rightarrow> server \<Rightarrow> response outcome \<times> server" where
  "open_input e req safe fe s =
     (if fr_Mode req \<noteq> FileMode_READ then (fail PermissionDenied ''input files are read-only'', s)
      else (case AcquireReadNoPriority fe of
          None \<Rightarrow> (Blocked, s)
        | Some fe' \<Rightarrow>
            (case (case os_OpenFile (disk s) (full_path s safe) False of
                Inl er \<Rightarrow> (fail NotFound ''input file not found'', set_entry safe fe' s)
              | Inr h \<Rightarrow>
                  if too_many_files s
                  then (fail ResourceExhausted ''too many open files'', set_entry safe fe' s)
                  else open_fd e (fr_RequestId req) (fr_ClientId req) (fr_Mode req) safe h
                         (fe_version fe') ''opened input file'' (set_entry safe fe' s)) of
             (r, s1) \<Rightarrow> (r, map_entry safe ReleaseRead s1))))"

definition open_output :: "env \<Rightarrow> FileRequest \<Rightarrow> string \<Rightarrow> FileEntry \<Rightarrow> server \<Rightarrow> response outcome \<times> server" where
  "open_output e req safe fe s =
     (case os_OpenFile (disk s) (full_path s safe) (fr_Mode req = FileMode_WRITE) of
        Inl er \<Rightarrow> (fail NotFound ''output file not found'', s)
      | Inr h \<Rightarrow>
          if too_many_files s then (fail ResourceExhausted ''too many open files'', s)
          else open_fd e (fr_RequestId req) (fr_ClientId req) (fr_Mode req) safe h
                 (fe_version fe) ''opened output file'' s)"

definition Open :: "env \<Rightarrow> FileRequest \<Rightarrow> server \<Rightarrow> response outcome \<times> server" where
  "Open e req s = (case leader_check s of Some er \<Rightarrow> (Fail er, s)
     | None \<Rightarrow> (case cached e s (fr_RequestId req) of
         Some (OpenResponse fd v msg) \<Rightarrow> (Ok (OpenResponse fd v msg), s)
       | Some r \<Rightarrow> (Panic, s)
       | None \<Rightarrow> (case sanitizePath (fr_Filename req) of
           None \<Rightarrow> (fail Unknown ''invalid path'', s)
         | Some p \<Rightarrow> (let safe = normPath p
             in case getFileEntry safe s of (fe, s1) \<Rightarrow>
               if HasPrefix safe ''input/'' then open_input e req safe fe s1
               else open_output e req safe fe s1))))"

section \<open>\<open>Close\<close>\<close>

text \<open>
  The first part of a dirty \<open>Close\<close>: the prime set with the numbers of the data added, and the log
  entry. The index is taken from the length of the log while the mutex is not held, the content is
  the whole set in the order of the \<open>range\<close>.
\<close>

definition merged_primes :: "bytes \<Rightarrow> string \<Rightarrow> server \<Rightarrow> prime_set" where
  "merged_primes data name s = snd (FilterUniquePrimes (parseNumbers data)
     (case mget (filesPrimes s) name of Some S \<Rightarrow> S | None \<Rightarrow> []))"

definition close_entry :: "env \<Rightarrow> bytes \<Rightarrow> string \<Rightarrow> string \<Rightarrow> server \<Rightarrow> LogEntry" where
  "close_entry e data fn safe s =
     \<lparr>Index = int (length (log s)) + 1, Op = ''WRITE'', Filename = safe,
      Content = format_lines (range_order e (merged_primes data fn s)),
      Version = entry_version safe s + 1\<rparr>"

text \<open>The part after the commit, also run when the file is not dirty.\<close>

definition close_finish :: "env \<Rightarrow> CloseRequest \<Rightarrow> string \<Rightarrow> server \<Rightarrow> response outcome \<times> server" where
  "close_finish e req safe s =
     (if AfterCommit \<in> set (crashes e) then (Exit, s)
      else let s1 = (if cl_Dirty req
                     then saveVersion safe (entry_version safe s + 1)
                            (map_entry safe (\<lambda>fe. fe\<lparr>fe_version := fe_version fe + 1\<rparr>) s)
                     else s);
               r = CloseResponse ''closed'' (entry_version safe s1);
               s2 = (case mget (files s1) (cl_Fd req) of None \<Rightarrow> s1
                  | Some m \<Rightarrow> s1\<lparr>files := mput (cl_Fd req)
                      (m\<lparr>clients := mdel (getClientIDFromContext e) (clients m)\<rparr>) (files s1)\<rparr>)
           in (Ok r, remember e (cl_RequestId req) r s2))"

text \<open>The dirty part, under the write lock of the file.\<close>

definition close_dirty :: "env \<Rightarrow> CloseRequest \<Rightarrow> string \<Rightarrow> string \<Rightarrow> FileMode \<Rightarrow> server \<Rightarrow>
    response outcome \<times> server" where
  "close_dirty e req fn safe md s =
     (if md \<noteq> FileMode_WRITE then (fail PermissionDenied ''not opened in write mode'', s)
      else if cl_Version req \<noteq> entry_version safe s then (fail Aborted ''conflict'', s)
      else let primes = merged_primes (cl_Data req) fn s;
               le = close_entry e (cl_Data req) fn safe s
           in case append_entry e le s of (ok, s1) \<Rightarrow>
             if \<not> ok then (fail Internal ''log persist failed'', s1)
             else if servers s1 = [] then (Panic, s1)
             else let s2 = send_all le (commitIndex s1) s1
             in if DuringReplication \<in> set (crashes e) then (Exit, s2)
             else if \<not> reaches_majority e s2 (length (servers s2) div 2 + 1)
               then (fail Unavailable ''failed to reach majority'', s2)
             else if BeforeCommit \<in> set (crashes e) then (Exit, s2)
             else let s3 = applyCommitted (s2\<lparr>commitIndex := Index le\<rparr>);
                      s4 = send_all le (commitIndex s3) s3
                  in close_finish e req safe
                       (s4\<lparr>filesPrimes := mput fn primes (filesPrimes s4)\<rparr>))"

text \<open>
  A client that is not registered is answered by \<open>getFileEntry\<close>, called while the handler holds
  the mutex that \<open>getFileEntry\<close> locks.
\<close>

definition Close :: "env \<Rightarrow> CloseRequest \<Rightarrow> server \<Rightarrow> response outcome \<times> server" where
  "Close e req s = (case leader_check s of Some er \<Rightarrow> (Fail er, s)
     | None \<Rightarrow> (case cached e s (cl_RequestId req) of
         Some (CloseResponse msg v) \<Rightarrow> (Ok (CloseResponse msg v), s)
       | _ \<Rightarrow> (case mget (files s) (cl_Fd req) of
           None \<Rightarrow> (fail NotFound ''file not open'', s)
         | Some m \<Rightarrow> (case mget (clients m) (getClientIDFromContext e) of
             None \<Rightarrow> (Deadlock, s)
           | Some c \<Rightarrow> (let fn = filename m; safe = safePath_unchecked fn
               in if cl_Dirty req then with_write safe (close_dirty e req fn safe (mode c)) s
                  else close_finish e req safe (snd (getFileEntry safe s)))))))"

section \<open>\<open>Write\<close>\<close>

definition write_entry :: "bytes \<Rightarrow> string \<Rightarrow> server \<Rightarrow> LogEntry" where
  "write_entry data name s =
     \<lparr>Index = int (length (log s)) + 1, Op = ''WRITE'', Filename = name, Content = data,
      Version = entry_version name s + 1\<rparr>"

definition write_finish :: "env \<Rightarrow> WriteRequest \<Rightarrow> string \<Rightarrow> server \<Rightarrow> response outcome \<times> server" where
  "write_finish e req name s =
     (let s1 = (if wr_Dirty req
                then saveVersion name (entry_version name s + 1)
                       (map_entry name (\<lambda>fe. fe\<lparr>fe_version := fe_version fe + 1\<rparr>) s)
                else s);
          r = WriteResponse ''write successful'' (entry_version name s1)
      in (Ok r, remember e (wr_RequestId req) r s1))"

text \<open>
  After the commit the numbers that are new are written to a temporary file and appended to the
  file the commit has just replaced.
\<close>

definition write_numbers :: "env \<Rightarrow> WriteRequest \<Rightarrow> string \<Rightarrow> server \<Rightarrow> response outcome \<times> server" where
  "write_numbers e req name s =
     (let full = full_path s name; tmp = full @ ''.tmp''; safe = safePath_unchecked name
      in case FilterUniquePrimes (parseNumbers (wr_Data req))
           (case mget (filesPrimes s) safe of Some S \<Rightarrow> S | None \<Rightarrow> []) of (uniq, primes) \<Rightarrow>
        (case os_WriteFile (disk s) tmp (format_lines uniq) of
           None \<Rightarrow> (fail Internal ''temp open failed'', s)
         | Some d1 \<Rightarrow> (case os_Append d1 full (format_lines uniq) of
             None \<Rightarrow> (fail Internal (''failed to open destination: open '' @ full), s\<lparr>disk := d1\<rparr>)
           | Some d2 \<Rightarrow> write_finish e req name
               (s\<lparr>disk := os_Remove d2 tmp, filesPrimes := mput safe primes (filesPrimes s)\<rparr>))))"

definition write_dirty :: "env \<Rightarrow> WriteRequest \<Rightarrow> string \<Rightarrow> FileMode \<Rightarrow> server \<Rightarrow> response outcome \<times> server" where
  "write_dirty e req name md s =
     (if md \<noteq> FileMode_WRITE then (fail PermissionDenied ''not opened in write mode'', s)
      else if wr_Version req \<noteq> entry_version name s then (fail Aborted ''conflict'', s)
      else let le = write_entry (wr_Data req) name s
           in case append_entry e le s of (ok, s1) \<Rightarrow>
             if \<not> ok then (fail Internal ''log persist failed'', s1)
             else if servers s1 = [] then (Panic, s1)
             else let s2 = send_all le (commitIndex s1) s1
             in if \<not> reaches_majority e s2 (alive_count s2 div 2 + 1)
                then (fail Unavailable ''failed to reach majority'', s2)
                else let s3 = applyCommitted (s2\<lparr>commitIndex := Index le\<rparr>)
                     in write_numbers e req name (send_all le (commitIndex s3) s3))"

definition Write :: "env \<Rightarrow> WriteRequest \<Rightarrow> server \<Rightarrow> response outcome \<times> server" where
  "Write e req s = (case leader_check s of Some er \<Rightarrow> (Fail er, s)
     | None \<Rightarrow> (case cached e s (wr_RequestId req) of
         Some (WriteResponse msg v) \<Rightarrow> (Ok (WriteResponse msg v), s)
       | Some r \<Rightarrow> (Panic, s)
       | None \<Rightarrow> (case mget (files s) (wr_Fd req) of
           None \<Rightarrow> (fail NotFound ''file not open'', s)
         | Some m \<Rightarrow> (case mget (clients m) (getClientIDFromContext e) of
             None \<Rightarrow> (Deadlock, s)
           | Some c \<Rightarrow>
               if wr_Dirty req then with_write (filename m) (write_dirty e req (filename m) (mode c)) s
               else write_finish e req (filename m) (snd (getFileEntry (filename m) s))))))"

section \<open>\<open>Read\<close>, \<open>TestAuth\<close>, \<open>GetLeader\<close>\<close>

text \<open>The chunks of a stream: \<open>n\<close> bytes each, the last one what remains.\<close>

function chunks :: "nat \<Rightarrow> bytes \<Rightarrow> bytes list" where
  "chunks n xs = (if xs = [] \<or> n = 0 then [] else take n xs # chunks n (drop n xs))"
  by pat_completeness auto
termination
  by (relation "measure (\<lambda>(n, xs). length xs)") auto

declare chunks.simps [simp del]

definition Read :: "env \<Rightarrow> ReadRequest \<Rightarrow> server \<Rightarrow> bytes list outcome \<times> server" where
  "Read e req s = (case leader_check s of Some er \<Rightarrow> (Fail er, s)
     | None \<Rightarrow> (case sanitizePath (rd_Filename req) of
         None \<Rightarrow> (fail InvalidArgument ''invalid path'', s)
       | Some p \<Rightarrow> (let safe = normPath p; cid = getClientIDFromContext e; key = (cid, safe)
           in case mget (openMap s) key of
             None \<Rightarrow> (fail PermissionDenied ''file not opened by client'', s)
           | Some fd \<Rightarrow> (case mget (files s) fd of
               None \<Rightarrow> (fail Internal ''file metadata missing'', s)
             | Some m \<Rightarrow> (case mget (clients m) cid of
                 None \<Rightarrow> (fail PermissionDenied ''client not registered'', s)
               | Some c \<Rightarrow>
                   if mode c \<noteq> FileMode_READ \<and> mode c \<noteq> FileMode_WRITE \<and> mode c \<noteq> 2
                   then (fail PermissionDenied ''read not allowed'', s)
                   else if now e - lastSeen c > LeaseTimeout
                   then (fail PermissionDenied ''lease expired'',
                         s\<lparr>openMap := mdel key (openMap s),
                           files := mput fd (m\<lparr>clients := mdel cid (clients m)\<rparr>) (files s)\<rparr>)
                   else let s1 = s\<lparr>files := mput fd
                              (m\<lparr>clients := mput cid (c\<lparr>lastSeen := now e\<rparr>) (clients m)\<rparr>) (files s)\<rparr>
                        in (case meta_file m of
                            None \<Rightarrow> (fail Internal ''seek failed'', s1)
                          | Some h \<Rightarrow> (case os_ReadHandle (disk s1) h of
                              None \<Rightarrow> (fail Internal ''read failed'', s1)
                            | Some data \<Rightarrow> (Ok (chunks ChunkSize data), s1))))))))"

definition TestAuth :: "string \<Rightarrow> server \<Rightarrow> i32 outcome" where
  "TestAuth name s = (case leader_check s of Some er \<Rightarrow> Fail er
     | None \<Rightarrow> (case sanitizePath name of
         None \<Rightarrow> fail InvalidArgument ''invalid path''
       | Some p \<Rightarrow> (case mget (table s) (normPath p) of
           None \<Rightarrow> fail NotFound ''file not found''
         | Some fe \<Rightarrow> Ok (fe_version fe))))"

definition GetLeader :: "server \<Rightarrow> (string \<times> string) outcome" where
  "GetLeader s =
     (if primaryID s = [] then fail Unavailable ''no leader elected yet''
      else case mget (servers s) (primaryID s) of
          None \<Rightarrow> fail Internal ''leader info missing''
        | Some l \<Rightarrow> Ok (primaryID s, Address l))"

lemmas [server_defs] = Create_def Delete_def Open_def Close_def Write_def Read_def

end
