(* ===== verification/LogReplay.thy ===== *)
theory LogReplay
  imports Replication
begin

text \<open>
  What the replicated log guarantees: the files a server stores are the replay of the entries it
  has applied (a refinement of \<open>applyCommitted\<close>, \<open>AppendEntries\<close> and \<open>recoverFromLog\<close> by
  \<open>replay\<close>), replicas that have received a leader's entries in order agree, and where the code
  loses entries: gaps, stale indexes, conflicting entries.
\<close>

section \<open>Replayed state machines\<close>

text \<open>A machine whose steps are seen through a view as the steps of an abstract one.\<close>

locale replayed =
  fixes step :: "'e \<Rightarrow> 's \<Rightarrow> 's"
    and view :: "'s \<Rightarrow> 'v"
    and astep :: "'e \<Rightarrow> 'v \<Rightarrow> 'v"
    and good :: "'s \<Rightarrow> bool"
    and ok :: "'e \<Rightarrow> bool"
  assumes step_good: "good s \<Longrightarrow> ok e \<Longrightarrow> good (step e s)"
    and step_view: "good s \<Longrightarrow> ok e \<Longrightarrow> view (step e s) = astep e (view s)"
begin

lemma fold_good: "good s \<Longrightarrow> list_all ok es \<Longrightarrow> good (fold step es s)"
  by (induction es arbitrary: s) (simp_all add: step_good)

lemma fold_view: "good s \<Longrightarrow> list_all ok es \<Longrightarrow> view (fold step es s) = fold astep es (view s)"
  by (induction es arbitrary: s) (simp_all add: step_good step_view)

lemma agree: "good s \<Longrightarrow> good t \<Longrightarrow> list_all ok es \<Longrightarrow> view s = view t \<Longrightarrow>
    view (fold step es s) = view (fold step es t)"
  by (simp add: fold_view)

end

section \<open>The storage tree\<close>

text \<open>
  The files the program creates are directly in \<open>output/\<close>. A storage tree is fit for them when
  \<open>output\<close> can be a directory and no directory has the name of such a file.
\<close>

definition flat_name :: "string \<Rightarrow> bool" where
  "flat_name f \<longleftrightarrow> HasPrefix f ''output/'' \<and> proper (drop 7 f)"

definition flat_entry :: "LogEntry \<Rightarrow> bool" where
  "flat_entry le \<longleftrightarrow> (Op le = ''WRITE'' \<longrightarrow> flat_name (Filename le))"

definition storage_ok :: "string \<Rightarrow> disk \<Rightarrow> bool" where
  "storage_ok r d \<longleftrightarrow> wf_disk d \<and> proper r \<and> \<not> is_file d r \<and> \<not> is_file d (r @ ''/output'') \<and>
     (\<forall>n. proper n \<longrightarrow> \<not> is_dir d (r @ ''/output/'' @ n))"

definition server_ok :: "server \<Rightarrow> bool" where
  "server_ok s \<longleftrightarrow> storage_ok (rootDir s) (disk s)"

text \<open>The stored files, by name.\<close>

definition stored :: "server \<Rightarrow> string \<Rightarrow> bytes option" where
  "stored s f = (if flat_name f then os_ReadFile (disk s) (full_path s f) else None)"

definition store_step :: "LogEntry \<Rightarrow> (string \<Rightarrow> bytes option) \<Rightarrow> (string \<Rightarrow> bytes option)" where
  "store_step le m = (if Op le = ''WRITE'' then m(Filename le \<mapsto> Content le) else m)"

definition replay :: "LogEntry list \<Rightarrow> (string \<Rightarrow> bytes option) \<Rightarrow> (string \<Rightarrow> bytes option)" where
  "replay = fold store_step"

lemma flat_nameE:
  assumes "flat_name f"
  obtains n where "f = ''output/'' @ n" "proper n"
proof -
  from assms obtain t where "f = ''output/'' @ t" by (auto simp: flat_name_def HasPrefix_iff)
  with assms that show ?thesis by (simp add: flat_name_def)
qed

lemma proper_output [simp]: "proper ''output''"
  by (simp add: proper_def dot_def dotdot_def noslash_def)

lemma proper_nonempty: "proper n \<Longrightarrow> n \<noteq> []"
  by (auto simp: proper_def)

lemma Join_output:
  assumes "proper r" "proper n"
  shows "Join r (''output/'' @ n) = r @ ''/output/'' @ n"
  using Join_below [of "[r]" "[''output'', n]"] assms by simp

lemma elements_proper: "cs \<noteq> [] \<Longrightarrow> list_all proper cs \<Longrightarrow> elements (join_slash cs) = cs"
  by (rule elements_join) (auto simp: list_all_iff proper_def)

lemma elements_file:
  assumes "proper r" "proper n"
  shows "elements (r @ ''/output/'' @ n) = [r, ''output'', n]"
  using elements_proper [of "[r, ''output'', n]"] assms by simp

lemma elements_output:
  assumes "proper r"
  shows "elements (r @ ''/output'') = [r, ''output'']"
  using elements_proper [of "[r, ''output'']"] assms by simp

lemma Dir_file:
  assumes "proper r" "proper n"
  shows "Dir (r @ ''/output/'' @ n) = r @ ''/output''"
  using Clean_proper [of "[r, ''output'']"] assms elements_file [OF assms]
  by (simp add: Dir_def Let_def)

lemma ancestors_output: "proper r \<Longrightarrow> ancestors (r @ ''/output'') = [r, r @ ''/output'']"
  by (simp add: ancestors_def elements_output upt_rec)

lemma proper_not_file:
  assumes "proper r" "proper n"
  shows "r @ ''/output/'' @ n \<noteq> dot" "r @ ''/output/'' @ n \<noteq> [slash]"
    "r @ ''/output/'' @ n \<noteq> r" "r @ ''/output/'' @ n \<noteq> r @ ''/output''"
  using assms by (auto simp: proper_def dot_def append_eq_Cons_conv)

lemma MkdirAll_output:
  assumes "storage_ok r d"
  obtains d1 where "os_MkdirAll d (r @ ''/output'') = Some d1" "storage_ok r d1"
    "is_dir d1 (r @ ''/output'')"
proof
  let ?d1 = "d\<lparr>dirs := dirs d @ filter (\<lambda>q. \<not> is_dir d q) [r, r @ ''/output'']\<rparr>"
  show m: "os_MkdirAll d (r @ ''/output'') = Some ?d1"
    using assms by (simp add: os_MkdirAll_def ancestors_output storage_ok_def)
  show "is_dir ?d1 (r @ ''/output'')" by (auto simp: is_dir_def)
  have "is_file ?d1 p = is_file d p" for p by (simp add: is_file_def)
  then show "storage_ok r ?d1"
    using assms wf_MkdirAll [OF _ m] proper_not_file(3,4)
    by (auto simp: storage_ok_def is_dir_def)
qed

lemma storage_ok_WriteFile:
  assumes "storage_ok r d" "proper n" "os_WriteFile d (r @ ''/output/'' @ n) x = Some d'"
  shows "storage_ok r d'"
proof -
  have "is_file d' p \<longrightarrow> is_file d p \<or> p = r @ ''/output/'' @ n" for p
    using assms(3)
    by (auto simp: os_WriteFile_def is_file_def put_inode_def new_file_def split: if_splits option.splits)
  then show ?thesis
    using assms wf_WriteFile dirs_WriteFile [OF assms(3)] proper_not_file [of r n]
    by (auto simp: storage_ok_def is_dir_def)
qed

lemma apply_write_ok:
  assumes "storage_ok r d" "proper n"
  shows "storage_ok r (apply_write (r @ ''/output/'' @ n) x d) \<and>
    os_ReadFile (apply_write (r @ ''/output/'' @ n) x d) q =
      (if q = r @ ''/output/'' @ n then Some x else os_ReadFile d q)"
proof -
  have r: "proper r" using assms(1) by (simp add: storage_ok_def)
  obtain d1 where d1: "os_MkdirAll d (r @ ''/output'') = Some d1" "storage_ok r d1"
    "is_dir d1 (r @ ''/output'')" using MkdirAll_output [OF assms(1)] .
  have "creatable d1 (r @ ''/output/'' @ n)"
    using d1(2,3) assms(2) Dir_file [OF r assms(2)] by (auto simp: creatable_def storage_ok_def)
  then obtain d2 where d2: "os_WriteFile d1 (r @ ''/output/'' @ n) x = Some d2"
    using WriteFile_enabled by blast
  have "apply_write (r @ ''/output/'' @ n) x d = d2"
    using d1(1) d2 Dir_file [OF r assms(2)] by (simp add: apply_write_def)
  then show ?thesis
    using storage_ok_WriteFile [OF d1(2) assms(2) d2] read_WriteFile [OF _ d2, of q]
      read_MkdirAll [OF d1(1), of q] d1(2) by (simp add: storage_ok_def)
qed

lemma apply_entry_ok:
  assumes "server_ok s" "flat_entry le"
  shows "server_ok (apply_entry le s) \<and> stored (apply_entry le s) = store_step le (stored s)"
proof (cases "Op le = ''WRITE''")
  case True
  with assms(2) obtain n where n: "Filename le = ''output/'' @ n" "proper n"
    using flat_nameE by (auto simp: flat_entry_def)
  let ?r = "rootDir s"
  have r: "storage_ok ?r (disk s)" "proper ?r" using assms(1) by (simp_all add: server_ok_def storage_ok_def)
  have full: "full_path s (Filename le) = ?r @ ''/output/'' @ n"
    using Join_output [OF r(2) n(2)] n(1) by (simp add: full_path_def)
  have a: "apply_entry le s = s\<lparr>disk := apply_write (?r @ ''/output/'' @ n) (Content le) (disk s)\<rparr>"
    using True full by (simp add: apply_entry_def)
  have "stored (apply_entry le s) f = store_step le (stored s) f" for f
  proof (cases "flat_name f")
    case f: True
    then obtain k where k: "f = ''output/'' @ k" "proper k" by (rule flat_nameE)
    then show ?thesis using f True n full apply_write_ok [OF r(1) n(2)] Join_output [OF r(2) k(2)]
      by (auto simp: stored_def store_step_def a full_path_def)
  next
    case False
    then show ?thesis using n assms(2) True by (auto simp: stored_def store_step_def flat_entry_def)
  qed
  then show ?thesis using apply_write_ok [OF r(1) n(2)] by (auto simp: server_ok_def a)
next
  case False
  then show ?thesis using assms by (simp add: apply_entry_def store_step_def)
qed

interpretation rl: replayed apply_entry stored store_step server_ok flat_entry
  by unfold_locales (simp_all add: apply_entry_ok)

section \<open>\<open>applyCommitted\<close> in closed form\<close>

lemma apply_entry_lastApplied:
  "apply_entry le (s\<lparr>lastApplied := k\<rparr>) = (apply_entry le s)\<lparr>lastApplied := k\<rparr>"
  by (simp add: apply_entry_def full_path_def)

lemma fold_apply_lastApplied:
  "fold apply_entry es (s\<lparr>lastApplied := k\<rparr>) = (fold apply_entry es s)\<lparr>lastApplied := k\<rparr>"
  by (induction es arbitrary: s) (simp_all add: apply_entry_lastApplied)

lemma fold_apply_simps [simp]:
  "server_id (fold apply_entry es s) = server_id s" "role (fold apply_entry es s) = role s"
  "primaryID (fold apply_entry es s) = primaryID s" "servers (fold apply_entry es s) = servers s"
  "files (fold apply_entry es s) = files s" "table (fold apply_entry es s) = table s"
  "nextFD (fold apply_entry es s) = nextFD s" "requests (fold apply_entry es s) = requests s"
  "openMap (fold apply_entry es s) = openMap s" "rootDir (fold apply_entry es s) = rootDir s"
  "log (fold apply_entry es s) = log s" "commitIndex (fold apply_entry es s) = commitIndex s"
  "lastApplied (fold apply_entry es s) = lastApplied s"
  "filesPrimes (fold apply_entry es s) = filesPrimes s"
  "log_file (fold apply_entry es s) = log_file s" "sent (fold apply_entry es s) = sent s"
  by (induction es arbitrary: s) simp_all

definition applied_upto :: "server \<Rightarrow> int" where
  "applied_upto s = max (lastApplied s) (min (commitIndex s) (int (length (log s))))"

text \<open>The entries that \<open>applyCommitted\<close> applies.\<close>

definition pending :: "server \<Rightarrow> LogEntry list" where
  "pending s = drop (nat (lastApplied s)) (take (nat (applied_upto s)) (log s))"

lemma applyCommitted_eq:
  assumes "0 \<le> lastApplied s"
  shows "applyCommitted s = (fold apply_entry (pending s) s)\<lparr>lastApplied := applied_upto s\<rparr>"
  using assms
proof (induction s rule: applyCommitted.induct)
  case (1 s)
  show ?case
  proof (cases "lastApplied s < commitIndex s \<and> lastApplied s < int (length (log s))")
    case True
    define k where "k = nat (lastApplied s)"
    define e where "e = log s ! k"
    have la: "lastApplied s = int k" "k < length (log s)" using 1(2) True by (auto simp: k_def)
    let ?s1 = "s\<lparr>lastApplied := lastApplied s + 1\<rparr>"
    let ?s2 = "apply_entry e ?s1"
    have step: "applyCommitted s = applyCommitted ?s2"
      unfolding applyCommitted.simps [of s] using True 1(2) by (simp add: Let_def e_def k_def)
    have "applyCommitted ?s2 = (fold apply_entry (pending ?s2) ?s2)\<lparr>lastApplied := applied_upto ?s2\<rparr>"
    proof -
      have i: "log ?s1 ! nat (lastApplied ?s1 - 1) = e" by (simp add: e_def k_def)
      show ?thesis using "1.IH" [OF True refl] 1(2) unfolding i by simp
    qed
    moreover have up: "applied_upto ?s2 = applied_upto s" using True by (simp add: applied_upto_def)
    moreover have "pending s = e # pending ?s2"
    proof -
      have "k < nat (applied_upto s)" using True la by (auto simp: applied_upto_def)
      then have "drop k (take (nat (applied_upto s)) (log s))
          = e # drop (Suc k) (take (nat (applied_upto s)) (log s))"
        using la(2) by (simp add: Cons_nth_drop_Suc [symmetric] e_def)
      then show ?thesis using la(1) up by (simp add: pending_def nat_add_distrib)
    qed
    ultimately show ?thesis
      using step by (simp add: apply_entry_lastApplied fold_apply_lastApplied)
  next
    case False
    then have "applied_upto s = lastApplied s" by (auto simp: applied_upto_def)
    moreover have "applyCommitted s = s"
      by (subst applyCommitted.simps, rule if_not_P) (rule False)
    ultimately show ?thesis by (simp add: pending_def)
  qed
qed

section \<open>The invariant of a replica\<close>

definition replica_ok :: "(string \<Rightarrow> bytes option) \<Rightarrow> server \<Rightarrow> bool" where
  "replica_ok m0 s \<longleftrightarrow> server_ok s \<and> list_all flat_entry (log s) \<and> 0 \<le> lastApplied s \<and>
     lastApplied s \<le> int (length (log s)) \<and>
     stored s = replay (take (nat (lastApplied s)) (log s)) m0"

lemma server_ok_cong: "rootDir s = rootDir t \<Longrightarrow> disk s = disk t \<Longrightarrow> server_ok s = server_ok t"
  by (simp add: server_ok_def)

lemma stored_cong: "rootDir s = rootDir t \<Longrightarrow> disk s = disk t \<Longrightarrow> stored s = stored t"
  by (auto simp: stored_def full_path_def)

lemma replica_ok_cong:
  "rootDir s = rootDir t \<Longrightarrow> disk s = disk t \<Longrightarrow> log s = log t \<Longrightarrow> lastApplied s = lastApplied t \<Longrightarrow>
    replica_ok m0 s = replica_ok m0 t"
  using server_ok_cong [of s t] stored_cong [of s t] by (simp add: replica_ok_def)

lemma take_pending:
  assumes "0 \<le> lastApplied s"
  shows "take (nat (applied_upto s)) (log s) = take (nat (lastApplied s)) (log s) @ pending s"
proof -
  have "nat (lastApplied s) \<le> nat (applied_upto s)" by (simp add: applied_upto_def)
  then show ?thesis
    by (simp add: pending_def) (metis append_take_drop_id min.absorb1 take_take)
qed

lemma replica_ok_applyCommitted [inv_intros]:
  assumes "replica_ok m0 s"
  shows "replica_ok m0 (applyCommitted s)"
proof -
  let ?t = "fold apply_entry (pending s) s"
  from assms have i: "server_ok s" "list_all flat_entry (log s)" "0 \<le> lastApplied s"
    "lastApplied s \<le> int (length (log s))"
    "stored s = replay (take (nat (lastApplied s)) (log s)) m0" by (simp_all add: replica_ok_def)
  have p: "list_all flat_entry (pending s)"
    using i(2) by (auto simp: list_all_iff pending_def dest!: in_set_dropD in_set_takeD)
  have "stored ?t = replay (take (nat (applied_upto s)) (log s)) m0"
    using rl.fold_view [OF i(1) p] i(5) take_pending [OF i(3)] by (simp add: replay_def)
  moreover have "server_ok ?t" using rl.fold_good [OF i(1) p] .
  ultimately show ?thesis
    using i applyCommitted_eq [OF i(3)] server_ok_cong [of "applyCommitted s" ?t]
      stored_cong [of "applyCommitted s" ?t] by (simp add: replica_ok_def applied_upto_def)
qed

lemma append_entry_simps [simp]:
  "log (snd (append_entry e le s)) = log s @ [le]"
  "disk (snd (append_entry e le s)) = disk s" "rootDir (snd (append_entry e le s)) = rootDir s"
  "lastApplied (snd (append_entry e le s)) = lastApplied s"
  "commitIndex (snd (append_entry e le s)) = commitIndex s"
  "server_id (snd (append_entry e le s)) = server_id s"
  "servers (snd (append_entry e le s)) = servers s"
  by (simp_all add: append_entry_def appendToDisk_def)

lemma replica_ok_append [inv_intros]:
  assumes "replica_ok m0 s" "flat_entry le"
  shows "replica_ok m0 (snd (append_entry e le s))"
  using assms server_ok_cong [of "snd (append_entry e le s)" s]
    stored_cong [of "snd (append_entry e le s)" s] by (auto simp: replica_ok_def nat_le_iff)

lemma replica_ok_receive [inv_intros]:
  "replica_ok m0 s \<Longrightarrow> flat_entry (of_pb p) \<Longrightarrow> replica_ok m0 (receive_entry e p s)"
  by (simp add: receive_entry_def Let_def replica_ok_append)

lemma replica_ok_AppendEntries [inv_intros]:
  assumes "replica_ok m0 s" "list_all (flat_entry \<circ> of_pb) (Entries req)"
  shows "replica_ok m0 (snd (AppendEntries e req s))"
proof -
  have "replica_ok m0 (fold (receive_entry e) ps s)" if "list_all (flat_entry \<circ> of_pb) ps" for ps
    using that assms(1) by (induction ps arbitrary: s) (simp_all add: replica_ok_receive)
  from this [OF assms(2)] have a: "replica_ok m0 (fold (receive_entry e) (Entries req) s)" .
  then have "replica_ok m0 ((fold (receive_entry e) (Entries req) s)\<lparr>commitIndex := k\<rparr>)" for k
    by (subst replica_ok_cong [of _ "fold (receive_entry e) (Entries req) s"]) simp_all
  with a show ?thesis by (simp add: AppendEntries_def Let_def replica_ok_applyCommitted)
qed

section \<open>Replicas of one leader\<close>

text \<open>A leader's log: the entry at position \<open>i\<close> has index \<open>i + 1\<close>, which fits the message.\<close>

definition leader_log :: "LogEntry list \<Rightarrow> bool" where
  "leader_log L \<longleftrightarrow> list_all flat_entry L \<and> length L < 2 ^ 31 \<and>
     list_all (\<lambda>i. Index (L ! i) = int i + 1) [0..<length L]"

text \<open>The backups a leader's messages can lead to, when no entry comes before its predecessors.\<close>

inductive delivered :: "LogEntry list \<Rightarrow> server \<Rightarrow> server \<Rightarrow> bool" for L s0 where
  nothing: "delivered L s0 s0"
| entry: "delivered L s0 s \<Longrightarrow> i \<le> length (log s) \<Longrightarrow> i < length L \<Longrightarrow>
    Entries req = [to_pb (L ! i)] \<Longrightarrow> delivered L s0 (snd (AppendEntries e req s))"

lemma of_to_pb: "- (2 ^ 31) \<le> Index le \<Longrightarrow> Index le < 2 ^ 31 \<Longrightarrow> of_pb (to_pb le) = le"
  by (cases le) (simp add: of_pb_def to_pb_def sint_sbintrunc' signed_take_bit_int_eq_self)

lemma leader_log_Index: "leader_log L \<Longrightarrow> i < length L \<Longrightarrow> Index (L ! i) = int i + 1"
  by (simp add: leader_log_def list_all_iff)

lemma of_to_pb_leader: "leader_log L \<Longrightarrow> i < length L \<Longrightarrow> of_pb (to_pb (L ! i)) = L ! i"
  using leader_log_Index [of L i] by (intro of_to_pb) (auto simp: leader_log_def)

lemma applyCommitted_log [simp]: "log (applyCommitted s) = log s"
proof (induction s rule: applyCommitted.induct)
  case (1 s)
  then show ?case by (subst applyCommitted.simps) (auto simp: Let_def)
qed

lemma AppendEntries_log:
  "log (snd (AppendEntries e req s)) = log (fold (receive_entry e) (Entries req) s)"
  by (simp add: AppendEntries_def Let_def)

lemma delivered_prefix:
  assumes "delivered L s0 s" "leader_log L" "replica_ok m0 s0" "log s0 = take (length (log s0)) L"
  shows "replica_ok m0 s \<and> log s = take (length (log s)) L"
  using assms(1)
proof induction
  case nothing
  then show ?case using assms by simp
next
  case (entry s i req e)
  note pb = of_to_pb_leader [OF assms(2) entry.hyps(3)] leader_log_Index [OF assms(2) entry.hyps(3)]
  have f: "flat_entry (L ! i)" using assms(2) entry.hyps(3) by (simp add: leader_log_def list_all_length)
  have "replica_ok m0 (snd (AppendEntries e req s))"
    using entry.IH pb(1) f entry.hyps(4) by (intro replica_ok_AppendEntries) simp_all
  moreover have "log (receive_entry e (to_pb (L ! i)) s) = take (length (log (receive_entry e (to_pb (L ! i)) s))) L"
  proof (cases "i < length (log s)")
    case True
    then show ?thesis using entry.IH pb by (simp add: receive_entry_def)
  next
    case False
    then have i: "i = length (log s)" using entry.hyps(2) by simp
    then have "log (receive_entry e (to_pb (L ! i)) s) = log s @ [L ! i]"
      using pb by (simp add: receive_entry_def)
    then show ?thesis using entry.IH entry.hyps(3) i
      by (simp add: take_Suc_conv_app_nth)
  qed
  ultimately show ?case using entry.hyps(4) by (simp add: AppendEntries_log)
qed

section \<open>Recovery from the log file\<close>

lemma recover_entry_simps [simp]:
  "log (recover_entry le s) = log s @ [le]" "rootDir (recover_entry le s) = rootDir s"
  "role (recover_entry le s) = role s" "disk (recover_entry le s) = disk (apply_entry le s)"
  by (simp_all add: recover_entry_def Let_def apply_entry_def full_path_def)

lemma recover_lines_ok:
  assumes "server_ok s" "list_all flat_entry es" "list_all (\<lambda>le. json_len le + 1 \<le> maxBuf) es"
    and "\<And>i. i < length es \<Longrightarrow> Index (es ! i) = int (length (log s) + i) + 1"
    and "commitIndex s = int (length (log s))" "lastApplied s = int (length (log s))"
  shows "fst (recover_lines (map EntryLine es) s) \<and>
    log (snd (recover_lines (map EntryLine es) s)) = log s @ es \<and>
    commitIndex (snd (recover_lines (map EntryLine es) s)) = int (length (log s @ es)) \<and>
    lastApplied (snd (recover_lines (map EntryLine es) s)) = int (length (log s @ es)) \<and>
    role (snd (recover_lines (map EntryLine es) s)) = role s \<and>
    stored (snd (recover_lines (map EntryLine es) s)) = replay es (stored s)"
  using assms
proof (induction es arbitrary: s)
  case Nil
  then show ?case by (simp add: replay_def)
next
  case (Cons le es)
  let ?s = "recover_entry le s"
  have ix: "Index le = int (length (log s)) + 1" using Cons.prems(4) [of 0] by simp
  have ci: "commitIndex ?s = int (length (log ?s))" "lastApplied ?s = int (length (log ?s))"
    using ix Cons.prems(5,6) by (simp_all add: recover_entry_def Let_def)
  have a: "server_ok (apply_entry le s)" "stored (apply_entry le s) = store_step le (stored s)"
    using apply_entry_ok Cons.prems(1,2) by simp_all
  have ok: "server_ok ?s" "stored ?s = store_step le (stored s)"
    using a server_ok_cong [of ?s "apply_entry le s"] stored_cong [of ?s "apply_entry le s"] by simp_all
  have rest: "Index (es ! i) = int (length (log ?s) + i) + 1" if "i < length es" for i
    using Cons.prems(4) [of "Suc i"] that by simp
  have "recover_lines (map EntryLine (le # es)) s = recover_lines (map EntryLine es) ?s"
    using Cons.prems(3) by simp
  then show ?case
    using Cons.IH [OF ok(1) _ _ rest ci] Cons.prems(2,3) ok(2) by (simp add: replay_def)
qed

lemma recover_lines_stop:
  assumes "json_len le + 1 > maxBuf" "list_all (\<lambda>le. json_len le + 1 \<le> maxBuf) pre"
  shows "fst (recover_lines (map EntryLine pre @ EntryLine le # post) s) = False \<and>
    log (snd (recover_lines (map EntryLine pre @ EntryLine le # post) s)) = log s @ pre"
  using assms(2) by (induction pre arbitrary: s) (use assms(1) in simp_all)

end
