(* ===== verification/HandlerInv.thy ===== *)
theory HandlerInv
  imports Handlers LogReplay
begin

text \<open>
  The invariant of a server between two calls, and that every handler keeps it: no file lock is
  held, the descriptors in use are the numbers below \<open>nextFD\<close>, the open map points to descriptors
  of the right file, and the disk is well formed with an inode for every open file.
\<close>

section \<open>The parts of the invariant\<close>

definition locks_free :: "server \<Rightarrow> bool" where
  "locks_free s \<longleftrightarrow> (\<forall>n fe. mget (table s) n = Some fe \<longrightarrow> lock_free fe)"

text \<open>Only the writer flag of one entry may be set.\<close>

definition locks_but :: "string \<Rightarrow> server \<Rightarrow> bool" where
  "locks_but name s \<longleftrightarrow> (\<forall>n fe. mget (table s) n = Some fe \<longrightarrow>
     activeReaders fe = 0 \<and> waitingWriters fe = 0 \<and> (activeWriter fe \<longrightarrow> n = name))"

definition fds_ok :: "server \<Rightarrow> bool" where
  "fds_ok s \<longleftrightarrow> (\<forall>fd. mget (files s) fd \<noteq> None \<longleftrightarrow> unat fd < unat (nextFD s)) \<and>
     mlen (files s) = unat (nextFD s) \<and> unat (nextFD s) \<le> MaxOpenFiles \<and>
     (\<forall>c n fd. mget (openMap s) (c, n) = Some fd \<longrightarrow>
        (\<exists>m. mget (files s) fd = Some m \<and> filename m = n))"

definition handles_ok :: "server \<Rightarrow> bool" where
  "handles_ok s \<longleftrightarrow> wf_disk (disk s) \<and>
     (\<forall>fd m i. mget (files s) fd = Some m \<and> meta_file m = Some (HFile i) \<longrightarrow>
        mget (inodes (disk s)) i \<noteq> None)"

definition server_inv :: "server \<Rightarrow> bool" where
  "server_inv s \<longleftrightarrow> locks_free s \<and> fds_ok s \<and> handles_ok s"

text \<open>What \<open>fds_ok\<close> and \<open>handles_ok\<close> depend on.\<close>

definition same_fds :: "server \<Rightarrow> server \<Rightarrow> bool" where
  "same_fds s t \<longleftrightarrow> files t = files s \<and> nextFD t = nextFD s \<and> openMap t = openMap s"

text \<open>What no handler changes: who the server is and who it takes for the leader.\<close>

definition same_id :: "server \<Rightarrow> server \<Rightarrow> bool" where
  "same_id s t \<longleftrightarrow> server_id t = server_id s \<and> rootDir t = rootDir s \<and> role t = role s \<and>
     primaryID t = primaryID s \<and> servers t = servers s"

definition disk_le :: "disk \<Rightarrow> disk \<Rightarrow> bool" where
  "disk_le d d' \<longleftrightarrow> (wf_disk d \<longrightarrow> wf_disk d') \<and>
     (\<forall>i. mget (inodes d) i \<noteq> None \<longrightarrow> mget (inodes d') i \<noteq> None)"

lemma disk_le_refl [simp]: "disk_le d d"
  by (simp add: disk_le_def)

lemma disk_le_trans: "disk_le a b \<Longrightarrow> disk_le b c \<Longrightarrow> disk_le a c"
  by (auto simp: disk_le_def)

lemma disk_le_WriteFile: "os_WriteFile d p x = Some d' \<Longrightarrow> disk_le d d'"
  unfolding disk_le_def using wf_WriteFile [of d p x d']
  by (auto simp: os_WriteFile_def put_inode_def new_file_def split: if_splits option.splits)

lemma disk_le_Append: "os_Append d p x = Some d' \<Longrightarrow> disk_le d d'"
  unfolding os_Append_def by (rule disk_le_WriteFile)

lemma disk_le_Remove [simp]: "disk_le d (os_Remove d p)"
  by (auto simp: disk_le_def wf_Remove) (simp_all add: os_Remove_def)

lemma disk_le_MkdirAll: "os_MkdirAll d p = Some d' \<Longrightarrow> disk_le d d'"
  unfolding disk_le_def using wf_MkdirAll [of d p d']
  by (auto simp: os_MkdirAll_def split: if_splits)

lemma disk_le_new_file: "disk_le d (new_file d p x)"
  unfolding disk_le_def using wf_new_file [of d p x] by (auto simp: new_file_def)

lemma disk_le_CreateExcl: "os_CreateExcl d p = Inr (d', h) \<Longrightarrow> disk_le d d'"
  by (auto simp: os_CreateExcl_def disk_le_new_file split: if_splits)

lemma disk_le_apply_write: "disk_le d (apply_write full x d)"
  by (auto simp: apply_write_def split: option.splits
      intro: disk_le_MkdirAll disk_le_WriteFile disk_le_trans)

section \<open>Quiet steps\<close>

text \<open>A step that leaves the descriptors alone and only extends the disk.\<close>

definition quiet :: "server \<Rightarrow> server \<Rightarrow> bool" where
  "quiet s t \<longleftrightarrow> same_fds s t \<and> same_id s t \<and> disk_le (disk s) (disk t)"

lemma quiet_refl [simp]: "quiet s s"
  by (simp add: quiet_def same_fds_def same_id_def)

lemma quiet_trans: "quiet a b \<Longrightarrow> quiet b c \<Longrightarrow> quiet a c"
  by (auto simp: quiet_def same_fds_def same_id_def intro: disk_le_trans)

lemma quiet_fds: "quiet s t \<Longrightarrow> fds_ok s \<Longrightarrow> fds_ok t"
  by (simp add: quiet_def same_fds_def same_id_def fds_ok_def)

lemma quiet_handles: "quiet s t \<Longrightarrow> handles_ok s \<Longrightarrow> handles_ok t"
  by (auto simp: quiet_def same_fds_def same_id_def handles_ok_def disk_le_def)

lemma quiet_set_entry [simp]: "quiet s (set_entry n fe s)"
  by (simp add: quiet_def same_fds_def same_id_def set_entry_def)

lemma quiet_map_entry [simp]: "quiet s (map_entry n f s)"
  by (simp add: map_entry_def split: option.splits)

lemma quiet_getFileEntry [simp]: "quiet s (snd (getFileEntry n s))"
  by (simp add: getFileEntry_def Let_def)

lemma quiet_remember [simp]: "quiet s (remember e rid r s)"
  by (simp add: quiet_def same_fds_def same_id_def remember_def)

lemma quiet_saveVersion [simp]: "quiet s (saveVersion n v s)"
  by (auto simp: quiet_def same_fds_def same_id_def saveVersion_def try_disk_def split: option.splits
      intro: disk_le_WriteFile)

lemma quiet_append_entry [simp]: "quiet s (snd (append_entry e le s))"
  by (simp add: quiet_def same_fds_def same_id_def append_entry_def appendToDisk_def)

lemma quiet_send_all [simp]: "quiet s (send_all le ci s)"
  by (simp add: quiet_def same_fds_def same_id_def send_all_def)

lemma quiet_apply_entry [simp]: "quiet s (apply_entry le s)"
  by (simp add: quiet_def same_fds_def same_id_def) (simp add: apply_entry_def disk_le_apply_write)

lemma quiet_lastApplied [simp]: "quiet s (s\<lparr>lastApplied := k\<rparr>)"
  by (simp add: quiet_def same_fds_def same_id_def)

lemma quiet_commitIndex [simp]: "quiet s (s\<lparr>commitIndex := k\<rparr>)"
  by (simp add: quiet_def same_fds_def same_id_def)

lemma quiet_filesPrimes [simp]: "quiet s (s\<lparr>filesPrimes := k\<rparr>)"
  by (simp add: quiet_def same_fds_def same_id_def)

lemma quiet_applyCommitted [simp]: "quiet s (applyCommitted s)"
proof (induction s rule: applyCommitted.induct)
  case (1 s)
  show ?case
  proof (cases "lastApplied s < commitIndex s \<and> lastApplied s < int (length (log s))")
    case True
    let ?s1 = "s\<lparr>lastApplied := lastApplied s + 1\<rparr>"
    let ?s2 = "apply_entry (log ?s1 ! nat (lastApplied ?s1 - 1)) ?s1"
    have "applyCommitted s = applyCommitted ?s2"
      by (rule trans [OF applyCommitted.simps], unfold Let_def, rule if_P) (rule True)
    moreover have "quiet ?s2 (applyCommitted ?s2)" by (rule "1.IH" [OF True refl])
    moreover have "quiet s ?s2" by (rule quiet_trans [OF quiet_lastApplied quiet_apply_entry])
    ultimately show ?thesis using quiet_trans by metis
  next
    case False
    then have "applyCommitted s = s" by (subst applyCommitted.simps, intro if_not_P)
    then show ?thesis by simp
  qed
qed

section \<open>The table through the steps\<close>

lemma table_simps [simp]:
  "table (remember e rid r s) = table s" "table (saveVersion n v s) = table s"
  "table (snd (append_entry e le s)) = table s" "table (send_all le ci s) = table s"
  "table (set_entry n fe s) = mput n fe (table s)"
  by (simp_all add: remember_def saveVersion_def try_disk_def append_entry_def appendToDisk_def
      send_all_def set_entry_def split: option.splits)

lemma table_applyCommitted [simp]: "table (applyCommitted s) = table s"
proof (induction s rule: applyCommitted.induct)
  case (1 s)
  then show ?case by (subst applyCommitted.simps) (auto simp: Let_def)
qed

lemma table_map_entry: "mget (table (map_entry n f s)) k =
    (if k = n then map_option f (mget (table s) n) else mget (table s) k)"
  by (auto simp: map_entry_def split: option.splits)

lemma table_getFileEntry: "mget (table (snd (getFileEntry n s))) k =
    (if k = n then Some (fst (getFileEntry n s)) else mget (table s) k)"
  by (simp add: getFileEntry_def Let_def)

lemma fst_getFileEntry_free: "locks_free s \<Longrightarrow> lock_free (fst (getFileEntry n s))"
  by (auto simp: getFileEntry_def Let_def locks_free_def lock_free_def NewFileEntry_def
      split: option.splits)

lemma locks_getFileEntry: "locks_free s \<Longrightarrow> locks_free (snd (getFileEntry n s))"
  using fst_getFileEntry_free [of s n] by (auto simp: locks_free_def table_getFileEntry split: if_splits)

lemma locks_release: "locks_but n s \<Longrightarrow> locks_free (map_entry n ReleaseWrite s)"
  by (auto simp: locks_free_def locks_but_def table_map_entry lock_free_def ReleaseWrite_def
      split: if_splits)

lemma locks_but_version: "(\<And>fe. lock_free (f fe) = lock_free fe) \<Longrightarrow>
    (\<And>fe. activeReaders (f fe) = activeReaders fe \<and> waitingWriters (f fe) = waitingWriters fe \<and>
      activeWriter (f fe) = activeWriter fe) \<Longrightarrow>
    locks_but n (map_entry k f s) = locks_but n s"
  by (auto simp: locks_but_def table_map_entry)

text \<open>\<open>with_write\<close> on a server whose locks are free runs its body.\<close>

definition locked :: "string \<Rightarrow> server \<Rightarrow> server" where
  "locked name s = (case getFileEntry name s of (fe, s1) \<Rightarrow>
     set_entry name (fe\<lparr>activeWriter := True\<rparr>) s1)"

lemma with_write_free:
  assumes "locks_free s"
  shows "with_write name body s =
    (case body (locked name s) of (r, s2) \<Rightarrow> (r, map_entry name ReleaseWrite s2))"
  using AcquireWrite_free [OF fst_getFileEntry_free [OF assms, of name]]
  by (auto simp: with_write_def locked_def split: prod.splits)

lemma quiet_locked [simp]: "quiet s (locked name s)"
proof -
  have "quiet (snd (getFileEntry name s)) (locked name s)"
    by (simp add: locked_def split: prod.splits)
  then show ?thesis using quiet_getFileEntry quiet_trans by blast
qed

lemma locks_but_locked: "locks_free s \<Longrightarrow> locks_but name (locked name s)"
proof -
  assume f: "locks_free s"
  obtain fe s1 where g: "getFileEntry name s = (fe, s1)" by fastforce
  have "lock_free fe" "locks_free s1"
    using fst_getFileEntry_free [OF f, of name] locks_getFileEntry [OF f, of name] g by simp_all
  then show ?thesis by (auto simp: g locked_def locks_but_def locks_free_def lock_free_def)
qed

lemma entry_version_locked:
  "entry_version name (locked name s) = (case mget (table s) name of Some fe \<Rightarrow> fe_version fe | None \<Rightarrow> 1)"
  by (simp add: entry_version_def locked_def getFileEntry_def Let_def NewFileEntry_def split: option.splits)

section \<open>Descriptors\<close>

definition inv2 :: "server \<Rightarrow> bool" where
  "inv2 s \<longleftrightarrow> fds_ok s \<and> handles_ok s"

lemma inv2_quiet: "quiet s t \<Longrightarrow> inv2 s \<Longrightarrow> inv2 t"
  using quiet_fds quiet_handles by (auto simp: inv2_def)

lemma server_inv_iff: "server_inv s \<longleftrightarrow> locks_free s \<and> inv2 s"
  by (auto simp: server_inv_def inv2_def)

lemma open_fd_simps [simp]:
  "table (snd (open_fd e rid cid md n h v msg s)) = table s"
  "disk (snd (open_fd e rid cid md n h v msg s)) = disk s"
  "nextFD (snd (open_fd e rid cid md n h v msg s)) = nextFD s + 1"
  by (simp_all add: open_fd_def Let_def remember_def)

lemma inv2_open_fd:
  assumes "inv2 s" "\<not> too_many_files s" "\<And>i. h = HFile i \<Longrightarrow> mget (inodes (disk s)) i \<noteq> None"
  shows "inv2 (snd (open_fd e rid cid md n h v msg s))"
proof -
  let ?fd = "nextFD s" and ?t = "snd (open_fd e rid cid md n h v msg s)"
  define m where "m = \<lparr>meta_file = Some h, filename = n, meta_version = v,
    clients = [(cid, \<lparr>lastSeen = now e, mode = md\<rparr>)]\<rparr>"
  have files: "files ?t = mput ?fd m (files s)" "openMap ?t = mput (cid, n) ?fd (openMap s)"
    by (simp_all add: open_fd_def Let_def remember_def m_def)
  have f: "fds_ok s" "handles_ok s" using assms(1) by (simp_all add: inv2_def)
  have lt: "unat ?fd < 1000" using f(1) assms(2) by (simp add: fds_ok_def too_many_files_def MaxOpenFiles_def)
  then have suc: "unat (?fd + 1) = Suc (unat ?fd)"
    by (simp add: unat_word_ariths)
  have new: "mget (files s) ?fd = None" using f(1) by (auto simp: fds_ok_def)
  have "fds_ok ?t"
    unfolding fds_ok_def files
  proof (intro conjI allI impI)
    show "mget (mput ?fd m (files s)) fd \<noteq> None \<longleftrightarrow> unat fd < unat (nextFD ?t)" for fd
      using f(1) suc by (auto simp: fds_ok_def less_Suc_eq word_unat_eq_iff)
    show "mlen (mput ?fd m (files s)) = unat (nextFD ?t)"
      using f(1) suc mlen_mput_new [OF new] by (simp add: fds_ok_def)
    show "unat (nextFD ?t) \<le> MaxOpenFiles" using suc lt by (simp add: MaxOpenFiles_def)
    show "\<exists>m'. mget (mput ?fd m (files s)) fd = Some m' \<and> filename m' = k"
      if "mget (mput (cid, n) ?fd (openMap s)) (c, k) = Some fd" for c k fd
      using that f(1) new by (force simp: fds_ok_def m_def split: if_splits)
  qed
  moreover have "handles_ok ?t"
    using f(2) assms(3) by (auto simp: handles_ok_def files m_def split: if_splits)
  ultimately show ?thesis by (simp add: inv2_def)
qed

lemma inv2_update_meta:
  assumes "inv2 s" "mget (files s) fd = Some m" "filename m' = filename m" "meta_file m' = meta_file m"
  shows "inv2 (s\<lparr>files := mput fd m' (files s)\<rparr>)"
proof -
  let ?t = "s\<lparr>files := mput fd m' (files s)\<rparr>"
  have f: "fds_ok s" "handles_ok s" using assms(1) by (simp_all add: inv2_def)
  have get: "mget (files ?t) k = (if k = fd then Some m' else mget (files s) k)" for k by simp
  have "\<exists>m''. mget (files ?t) k = Some m'' \<and> filename m'' = n"
    if "mget (openMap ?t) (c, n) = Some k" for c n k
  proof -
    have "mget (openMap s) (c, n) = Some k" using that by simp
    then obtain m0 where "mget (files s) k = Some m0" "filename m0 = n"
      using f(1) unfolding fds_ok_def by blast
    then show ?thesis using assms(2,3) unfolding get by auto
  qed
  moreover have "mget (files ?t) k \<noteq> None \<longleftrightarrow> unat k < unat (nextFD ?t)" for k
    using f(1) assms(2) unfolding get fds_ok_def by auto
  moreover have "mlen (files ?t) = unat (nextFD ?t) \<and> unat (nextFD ?t) \<le> MaxOpenFiles"
    using f(1) mlen_mput_old [OF assms(2), of m'] by (simp add: fds_ok_def)
  ultimately have "fds_ok ?t" unfolding fds_ok_def by blast
  moreover have "handles_ok ?t"
    using f(2) assms(2,4) unfolding handles_ok_def get by (auto split: if_splits)
  ultimately show ?thesis by (simp add: inv2_def)
qed

lemma inv2_openMap_del:
  assumes "inv2 s"
  shows "inv2 (s\<lparr>openMap := mdel k (openMap s)\<rparr>)"
  using assms by (auto simp: inv2_def fds_ok_def handles_ok_def split: if_splits)

lemma OpenFile_handle:
  "wf_disk d \<Longrightarrow> os_OpenFile d p rw = Inr (HFile i) \<Longrightarrow> mget (inodes d) i \<noteq> None"
  using wf_diskD2 by (fastforce simp: os_OpenFile_def split: option.splits if_splits)

lemma CreateExcl_handle:
  "os_CreateExcl d p = Inr (d', h) \<Longrightarrow> h = HFile i \<Longrightarrow> mget (inodes d') i \<noteq> None"
  by (auto simp: os_CreateExcl_def new_file_def split: if_splits)

lemma inv2_disk: "inv2 s \<Longrightarrow> disk_le (disk s) d \<Longrightarrow> inv2 (s\<lparr>disk := d\<rparr>)"
  by (erule inv2_quiet [rotated]) (simp add: quiet_def same_fds_def same_id_def)

lemma inv2_wf: "inv2 s \<Longrightarrow> wf_disk (disk s)"
  by (simp add: inv2_def handles_ok_def)

section \<open>What every handler keeps\<close>

text \<open>
  A property of the server that quiet steps keep, and the three ways in which handlers touch the
  descriptors: a new one, a change of the clients of one, a change of the open map.
\<close>

locale fd_property =
  fixes P :: "server \<Rightarrow> bool"
  assumes P_quiet: "P s \<Longrightarrow> quiet s t \<Longrightarrow> P t"
    and P_open: "P s \<Longrightarrow> \<not> too_many_files s \<Longrightarrow>
      (\<And>i. h = HFile i \<Longrightarrow> mget (inodes (disk s)) i \<noteq> None) \<Longrightarrow>
      P (snd (open_fd e rid cid md n h v msg s))"
    and P_clients: "P s \<Longrightarrow> mget (files s) fd = Some m \<Longrightarrow>
      P (s\<lparr>files := mput fd (m\<lparr>clients := cs\<rparr>) (files s)\<rparr>)"
    and P_openMap: "P s \<Longrightarrow> P (s\<lparr>openMap := mdel k (openMap s)\<rparr>)"
    and P_wf: "P s \<Longrightarrow> wf_disk (disk s)"
begin

lemma P_disk: "P s \<Longrightarrow> disk_le (disk s) d \<Longrightarrow> P (s\<lparr>disk := d\<rparr>)"
  by (erule P_quiet) (simp add: quiet_def same_fds_def same_id_def)

lemma P_with_write:
  assumes "P s" "\<And>t. P t \<Longrightarrow> P (snd (body t))"
  shows "P (snd (with_write name body s))"
proof -
  obtain fe s1 where g: "getFileEntry name s = (fe, s1)" by fastforce
  have s1: "P s1" using P_quiet [OF assms(1) quiet_getFileEntry [of s name]] g by simp
  have "P (map_entry name ReleaseWrite (snd (body (set_entry name fe' s1))))" for fe'
    by (rule P_quiet [OF _ quiet_map_entry], rule assms(2), rule P_quiet [OF s1 quiet_set_entry])
  then show ?thesis using P_quiet [OF s1 quiet_set_entry]
    by (simp add: with_write_def g case_prod_beta split: option.splits)
qed

lemma P_create_locked:
  assumes "P s"
  shows "P (snd (create_locked e req safe s))"
proof (cases "os_MkdirAll (disk s) (Dir (full_path s safe))")
  case None
  then show ?thesis using assms by (simp add: create_locked_def)
next
  case (Some d1)
  note d1 = disk_le_MkdirAll [OF Some]
  show ?thesis
  proof (cases "os_CreateExcl d1 (full_path s safe)")
    case (Inl er)
    then show ?thesis using Some P_disk [OF assms d1] by (cases er) (simp_all add: create_locked_def)
  next
    case (Inr r)
    then obtain d2 h where r: "os_CreateExcl d1 (full_path s safe) = Inr (d2, h)" by (cases r) auto
    have d2: "disk_le (disk s) d2" using d1 disk_le_CreateExcl [OF r] disk_le_trans by blast
    let ?t = "map_entry safe (\<lambda>fe. fe\<lparr>fe_version := 0\<rparr>) (s\<lparr>disk := d2\<rparr>)"
    have t: "P ?t" by (rule P_quiet [OF P_disk [OF assms d2] quiet_map_entry])
    have dt: "disk ?t = d2" "files ?t = files s"
      by (simp_all add: map_entry_def set_entry_def split: option.splits)
    have tm: "too_many_files ?t = too_many_files s" by (simp add: too_many_files_def dt)
    have d3: "disk_le (disk s) (os_Remove d2 p)" for p by (rule disk_le_trans [OF d2 disk_le_Remove])
    have "P (snd (open_fd e rid cid md safe h 0 msg ?t))" if "\<not> too_many_files s" for rid cid md msg
      using P_open [OF t] that tm CreateExcl_handle [OF r] dt(1) by simp
    then show ?thesis
      using Some r P_disk [OF assms d3] by (simp add: create_locked_def)
  qed
qed

lemma P_Create: "P s \<Longrightarrow> P (snd (Create e req s))"
  using P_with_write [OF _ P_create_locked]
  by (auto simp: Create_def Let_def split: option.splits response.splits)

lemma P_Delete:
  assumes "P s"
  shows "P (snd (Delete e req s))"
proof -
  have a: "P (snd (already_deleted e rid s))" for rid
    using P_quiet [OF assms quiet_remember] by (simp add: already_deleted_def Let_def)
  have d: "P (snd (delete_entry e rid safe fe s))" for rid safe fe
  proof -
    let ?t = "s\<lparr>disk := os_Remove (disk s) (full_path s safe), table := mdel safe (table s),
      filesPrimes := mdel safe (filesPrimes s)\<rparr>"
    have "quiet s ?t" by (simp add: quiet_def same_fds_def same_id_def)
    then have "P (remember e rid r ?t)" for r using P_quiet assms quiet_remember by meson
    then show ?thesis using assms by (simp add: delete_entry_def Let_def split: option.splits)
  qed
  show ?thesis
    using assms a d by (auto simp: Delete_def Let_def split: option.splits response.splits)
qed

lemma P_open_OpenFile:
  assumes "P s" "\<not> too_many_files s" "os_OpenFile (disk s) p rw = Inr h"
  shows "P (snd (open_fd e rid cid md n h v msg s))"
  using assms OpenFile_handle P_wf by (intro P_open) auto

lemma P_open_input:
  assumes "P s"
  shows "P (snd (open_input e req safe fe s))"
proof -
  have rel: "P (map_entry safe ReleaseRead t)" if "P t" for t by (rule P_quiet [OF that quiet_map_entry])
  have se: "P (set_entry safe fe' s)" for fe' by (rule P_quiet [OF assms quiet_set_entry])
  have d: "disk (set_entry safe fe' s) = disk s" "too_many_files (set_entry safe fe' s) = too_many_files s"
    for fe' by (simp_all add: set_entry_def too_many_files_def)
  have "P (snd (open_fd e rid cid md safe h v msg (set_entry safe fe' s)))"
    if "\<not> too_many_files s" "os_OpenFile (disk s) p rw = Inr h" for rid cid md h v msg fe' p rw
    using P_open_OpenFile [OF se] that d by simp
  then show ?thesis
    using assms rel se by (auto simp: open_input_def case_prod_beta split: sum.splits option.splits)
qed

lemma P_open_output: "P s \<Longrightarrow> P (snd (open_output e req safe fe s))"
  using P_open_OpenFile by (auto simp: open_output_def split: sum.splits)

lemma P_Open:
  assumes "P s"
  shows "P (snd (Open e req s))"
  using assms P_open_input P_open_output P_quiet [OF assms quiet_getFileEntry]
  by (auto simp: Open_def Let_def case_prod_beta split: option.splits response.splits)

lemma P_replicate:
  assumes "P s"
  shows "P (snd (append_entry e le s))" "P (send_all le ci (snd (append_entry e le s)))"
    "P (send_all le ci' (applyCommitted ((send_all le ci (snd (append_entry e le s)))\<lparr>commitIndex := k\<rparr>)))"
  using P_quiet [OF assms] quiet_trans quiet_append_entry quiet_send_all quiet_commitIndex
    quiet_applyCommitted by meson+

lemma P_version: "P s \<Longrightarrow> P (saveVersion n v (map_entry k f s))"
  using P_quiet quiet_trans [OF quiet_map_entry quiet_saveVersion] by blast

lemma P_close_finish:
  assumes "P s"
  shows "P (snd (close_finish e req safe s))"
proof -
  have "P (case mget (files t) fd of None \<Rightarrow> t
      | Some m \<Rightarrow> t\<lparr>files := mput fd (m\<lparr>clients := cs m\<rparr>) (files t)\<rparr>)" if "P t" for t fd cs
    using that P_clients [OF that] by (simp split: option.splits)
  then show ?thesis using assms P_version P_quiet [OF _ quiet_remember]
    by (simp add: close_finish_def Let_def)
qed

lemma P_close_dirty:
  assumes "P s"
  shows "P (snd (close_dirty e req fn safe md s))"
proof -
  have "P (snd (close_finish e req safe (t\<lparr>filesPrimes := ps\<rparr>)))" if "P t" for t ps
    using P_close_finish P_quiet [OF that quiet_filesPrimes] by blast
  then show ?thesis
    using assms P_replicate [OF assms]
    by (cases "append_entry e (close_entry e (cl_Data req) fn safe s) s")
      (fastforce simp: close_dirty_def Let_def dest: arg_cong [where f = snd])
qed

lemma P_Close:
  assumes "P s"
  shows "P (snd (Close e req s))"
  using assms P_close_finish [OF P_quiet [OF assms quiet_getFileEntry]]
    P_with_write [OF assms P_close_dirty]
  by (auto simp: Close_def Let_def split: option.splits response.splits)

lemma P_write_finish: "P s \<Longrightarrow> P (snd (write_finish e req name s))"
  using P_version P_quiet [OF _ quiet_remember] by (simp add: write_finish_def Let_def)

lemma P_write_numbers:
  assumes "P s"
  shows "P (snd (write_numbers e req name s))"
proof -
  have "P (snd (write_finish e req name (s\<lparr>disk := os_Remove d2 p, filesPrimes := ps\<rparr>)))"
    if "disk_le (disk s) d2" for d2 p ps
  proof -
    have "P (s\<lparr>disk := os_Remove d2 p\<rparr>)" by (rule P_disk [OF assms disk_le_trans [OF that disk_le_Remove]])
    from P_quiet [OF this quiet_filesPrimes] P_write_finish show ?thesis by fastforce
  qed
  then show ?thesis using assms P_disk [OF assms] disk_le_WriteFile disk_le_Append disk_le_trans
    by (auto simp: write_numbers_def Let_def case_prod_beta split: option.splits) blast+
qed

lemma P_write_dirty:
  assumes "P s"
  shows "P (snd (write_dirty e req name md s))"
  using assms P_replicate [OF assms] P_write_numbers
  by (cases "append_entry e (write_entry (wr_Data req) name s) s")
    (fastforce simp: write_dirty_def Let_def dest: arg_cong [where f = snd])

lemma P_Write:
  assumes "P s"
  shows "P (snd (Write e req s))"
  using assms P_write_finish [OF P_quiet [OF assms quiet_getFileEntry]]
    P_with_write [OF assms P_write_dirty]
  by (auto simp: Write_def Let_def split: option.splits response.splits)

lemma P_Read:
  assumes "P s"
  shows "P (snd (Read e req s))"
  using assms P_clients [OF assms] P_clients [OF P_openMap [OF assms]]
  by (auto simp: Read_def Let_def split: option.splits)

lemma P_AppendEntries:
  assumes "P s"
  shows "P (snd (AppendEntries e req s))"
proof -
  have "P (fold (receive_entry e) ps s)" for ps
    using assms P_quiet [OF _ quiet_append_entry]
    by (induction ps arbitrary: s) (simp_all add: receive_entry_def Let_def)
  then show ?thesis using P_quiet [OF P_quiet [OF _ quiet_commitIndex] quiet_applyCommitted]
      P_quiet [OF _ quiet_applyCommitted]
    by (simp add: AppendEntries_def Let_def)
qed

lemmas P_handlers = P_Create P_Delete P_Open P_Close P_Read P_Write P_AppendEntries

end

interpretation desc: fd_property inv2
  by unfold_locales (auto intro: inv2_quiet inv2_open_fd inv2_openMap_del inv2_wf inv2_update_meta)

text \<open>The number of descriptors never decreases: no handler removes one.\<close>

definition at_least :: "nat \<Rightarrow> server \<Rightarrow> bool" where
  "at_least n s \<longleftrightarrow> wf_disk (disk s) \<and> n \<le> mlen (files s)"

lemma files_open_fd: "\<exists>m. files (snd (open_fd e rid cid md n h v msg s)) = mput (nextFD s) m (files s)"
  by (rule exI [where x = "\<lparr>meta_file = Some h, filename = n, meta_version = v,
    clients = [(cid, \<lparr>lastSeen = now e, mode = md\<rparr>)]\<rparr>"]) (simp add: open_fd_def Let_def remember_def)

lemma at_least_property: "fd_property (at_least n)"
proof
  show "at_least n t" if "at_least n s" "quiet s t" for s t
    using that by (simp add: at_least_def quiet_def same_fds_def same_id_def disk_le_def)
  show "at_least n (snd (open_fd e rid cid md k h v msg s))" if "at_least n s" for s e rid cid md k h v msg
    using that files_open_fd [of e rid cid md k h v msg s] gm.len_put_ge [of "files s"]
    by (auto simp: at_least_def intro: order_trans)
  show "at_least n (s\<lparr>files := mput fd m' (files s)\<rparr>)" if "at_least n s" for s fd m'
    using that gm.len_put_ge [of "files s"] by (auto simp: at_least_def intro: order_trans)
qed (simp_all add: at_least_def)

interpretation count: fd_property "at_least n" for n
  by (rule at_least_property)

text \<open>No handler changes the identity or the role of the server.\<close>

definition same_server :: "server \<Rightarrow> server \<Rightarrow> bool" where
  "same_server s0 s \<longleftrightarrow> wf_disk (disk s) \<and> same_id s0 s"

lemma same_id_open_fd: "same_id s (snd (open_fd e rid cid md k h v msg s))"
  by (simp add: same_id_def open_fd_def Let_def remember_def)

lemma same_server_property: "fd_property (same_server s0)"
proof
  show "same_server s0 t" if "same_server s0 s" "quiet s t" for s t
    using that by (simp add: same_server_def quiet_def same_id_def disk_le_def)
  show "same_server s0 (snd (open_fd e rid cid md k h v msg s))" if "same_server s0 s" for s e rid cid md k h v msg
    using that same_id_open_fd [of s e rid cid md k h v msg] by (simp add: same_server_def same_id_def)
qed (simp_all add: same_server_def same_id_def)

interpretation ident: fd_property "same_server s0" for s0
  by (rule same_server_property)

lemma same_server_refl: "wf_disk (disk s) \<Longrightarrow> same_server s s"
  by (simp add: same_server_def same_id_def)

lemma leader_check_same: "same_server s t \<Longrightarrow> leader_check t = leader_check s"
  by (simp add: same_server_def same_id_def leader_check_def)

section \<open>The locks\<close>

lemma locks_cong: "table s = table t \<Longrightarrow> locks_free s = locks_free t"
  "table s = table t \<Longrightarrow> locks_but n s = locks_but n t"
  by (simp_all add: locks_free_def locks_but_def)

lemma locks_but_simps [simp]:
  "locks_but n (s\<lparr>disk := d\<rparr>) = locks_but n s"
  "locks_but n (s\<lparr>files := fs\<rparr>) = locks_but n s"
  "locks_but n (s\<lparr>filesPrimes := ps\<rparr>) = locks_but n s"
  "locks_but n (remember e rid r s) = locks_but n s"
  "locks_but n (saveVersion k v s) = locks_but n s"
  "locks_but n (snd (append_entry e le s)) = locks_but n s"
  "locks_but n (send_all le ci s) = locks_but n s"
  "locks_but n (s\<lparr>commitIndex := k'\<rparr>) = locks_but n s"
  "locks_but n (applyCommitted s) = locks_but n s"
  "locks_but n (snd (open_fd e rid cid md n' h v' msg s)) = locks_but n s"
  "locks_but n (map_entry k (\<lambda>fe. fe\<lparr>fe_version := w\<rparr>) s) = locks_but n s"
  "locks_but n (map_entry k (\<lambda>fe. fe\<lparr>fe_version := fe_version fe + 1\<rparr>) s) = locks_but n s"
  by (simp_all add: locks_but_def) (auto simp: table_map_entry)

lemma locks_with_write:
  assumes "locks_free s" "\<And>t. locks_but name t \<Longrightarrow> locks_but name (snd (body t))"
  shows "locks_free (snd (with_write name body s))"
  using locks_release [OF assms(2) [OF locks_but_locked [OF assms(1)]]]
  by (simp add: with_write_free [OF assms(1)] case_prod_beta)

lemma locks_free_iff: "locks_free t \<longleftrightarrow> (\<forall>m. locks_but m t)"
proof
  show "\<forall>m. locks_but m t" if "locks_free t"
    using that by (simp add: locks_free_def locks_but_def lock_free_def)
next
  assume a: "\<forall>m. locks_but m t"
  have "lock_free fe" if "mget (table t) n = Some fe" for n fe
  proof -
    have "locks_but (CHR ''x'' # n) t" using a by blast
    then show ?thesis using that unfolding locks_but_def lock_free_def by (metis not_Cons_self2)
  qed
  then show "locks_free t" by (simp add: locks_free_def)
qed

lemma locks_create_locked:
  "locks_but n s \<Longrightarrow> locks_but n (snd (create_locked e req safe s))"
  by (auto simp: create_locked_def Let_def split: option.splits sum.splits open_error.splits)

lemma locks_Create: "locks_free s \<Longrightarrow> locks_free (snd (Create e req s))"
  using locks_with_write [OF _ locks_create_locked]
  by (auto simp: Create_def Let_def split: option.splits response.splits)

lemma locks_Delete: "locks_free s \<Longrightarrow> locks_free (snd (Delete e req s))"
  by (auto simp: Delete_def Let_def already_deleted_def delete_entry_def locks_free_def
      split: option.splits response.splits if_splits)

lemma locks_open_input:
  assumes "locks_free s" "lock_free fe"
  shows "locks_free (snd (open_input e req safe fe s))"
proof -
  have "locks_free (map_entry safe ReleaseRead t)"
    if "table t = mput safe (fe\<lparr>activeReaders := 1\<rparr>) (table s)" for t
    using assms that
    by (auto simp: locks_free_def table_map_entry ReleaseRead_def lock_free_def split: if_splits)
  then show ?thesis using assms AcquireReadNoPriority_free [OF assms(2)]
    by (auto simp: open_input_def case_prod_beta split: sum.splits)
qed

lemma locks_Open:
  assumes "locks_free s"
  shows "locks_free (snd (Open e req s))"
proof -
  have "locks_free (snd (open_output e req safe fe t))" if "locks_free t" for safe fe t
    using that locks_cong(1) [of "snd (open_fd _ _ _ _ _ _ _ _ t)" t]
    by (auto simp: open_output_def split: sum.splits)
  then show ?thesis
    using assms locks_getFileEntry [OF assms] locks_open_input fst_getFileEntry_free [OF assms]
    by (auto simp: Open_def Let_def case_prod_beta split: option.splits response.splits)
qed

lemma locks_close_finish: "locks_but n s \<Longrightarrow> locks_but n (snd (close_finish e req safe s))"
  by (auto simp: close_finish_def Let_def split: option.splits)

lemma locks_close_dirty:
  assumes "locks_but n s"
  shows "locks_but n (snd (close_dirty e req fn safe md s))"
proof -
  have "locks_but n (snd (append_entry e le s))" for le using assms by simp
  then show ?thesis using assms locks_close_finish
    by (cases "append_entry e (close_entry e (cl_Data req) fn safe s) s")
      (auto simp: close_dirty_def Let_def dest!: arg_cong [where f = snd])
qed

lemma locks_finish:
  assumes "locks_free s" "\<And>t m. locks_but m t \<Longrightarrow> locks_but m (snd (f t))"
  shows "locks_free (snd (f (snd (getFileEntry n s))))"
  using assms(2) locks_getFileEntry [OF assms(1)] by (simp add: locks_free_iff)

lemma locks_Close:
  assumes "locks_free s"
  shows "locks_free (snd (Close e req s))"
  using assms locks_finish [OF assms locks_close_finish] locks_with_write [OF assms locks_close_dirty]
  by (auto simp: Close_def Let_def split: option.splits response.splits)

lemma locks_write_finish: "locks_but n s \<Longrightarrow> locks_but n (snd (write_finish e req name s))"
  by (auto simp: write_finish_def Let_def)

lemma locks_write_numbers: "locks_but n s \<Longrightarrow> locks_but n (snd (write_numbers e req name s))"
  by (auto simp: write_numbers_def Let_def case_prod_beta split: option.splits
      intro!: locks_write_finish)

lemma locks_write_dirty:
  assumes "locks_but n s"
  shows "locks_but n (snd (write_dirty e req name md s))"
proof -
  have "locks_but n (snd (append_entry e le s))" for le using assms by simp
  then show ?thesis using assms locks_write_numbers
    by (cases "append_entry e (write_entry (wr_Data req) name s) s")
      (auto simp: write_dirty_def Let_def dest!: arg_cong [where f = snd])
qed

lemma locks_Write:
  assumes "locks_free s"
  shows "locks_free (snd (Write e req s))"
  using assms locks_finish [OF assms locks_write_finish] locks_with_write [OF assms locks_write_dirty]
  by (auto simp: Write_def Let_def split: option.splits response.splits)

lemma locks_Read: "locks_free s \<Longrightarrow> locks_free (snd (Read e req s))"
  by (auto simp: Read_def Let_def locks_free_def split: option.splits)

lemma locks_AppendEntries:
  assumes "locks_free s"
  shows "locks_free (snd (AppendEntries e req s))"
proof -
  have "table (fold (receive_entry e) ps s) = table s" for ps
    by (induction ps arbitrary: s) (simp_all add: receive_entry_def Let_def)
  then have "table (snd (AppendEntries e req s)) = table s" by (simp add: AppendEntries_def Let_def)
  then show ?thesis using assms locks_cong(1) by metis
qed

lemmas locks_handlers = locks_Create locks_Delete locks_Open locks_Close locks_Read locks_Write
  locks_AppendEntries

section \<open>Calls\<close>

text \<open>The state after one call of a handler, by any client or server.\<close>

inductive call :: "server \<Rightarrow> server \<Rightarrow> bool" where
  call_Create: "call s (snd (Create e cr s))"
| call_Delete: "call s (snd (Delete e de s))"
| call_Open: "call s (snd (Open e fr s))"
| call_Close: "call s (snd (Close e cl s))"
| call_Read: "call s (snd (Read e rd s))"
| call_Write: "call s (snd (Write e wr s))"
| call_AppendEntries: "call s (snd (AppendEntries e ae s))"

inductive_cases callE: "call s s'"

lemma server_inv_call [inv_intros]: "call s s' \<Longrightarrow> server_inv s \<Longrightarrow> server_inv s'"
  unfolding server_inv_iff by (erule callE) (simp_all add: locks_handlers desc.P_handlers)

lemma server_inv_calls: "call\<^sup>*\<^sup>* s s' \<Longrightarrow> server_inv s \<Longrightarrow> server_inv s'"
  by (induction rule: rtranclp_induct) (auto intro: server_inv_call)

lemma at_least_calls: "call\<^sup>*\<^sup>* s s' \<Longrightarrow> at_least n s \<Longrightarrow> at_least n s'"
  by (induction rule: rtranclp_induct) (auto elim!: callE simp: count.P_handlers)

lemma same_server_call: "call s s' \<Longrightarrow> same_server s0 s \<Longrightarrow> same_server s0 s'"
  by (erule callE) (simp_all add: ident.P_handlers)

lemma leader_check_call: "call s s' \<Longrightarrow> wf_disk (disk s) \<Longrightarrow> leader_check s' = leader_check s"
  using same_server_call [OF _ same_server_refl] leader_check_same by blast

lemma server_inv_NewServer:
  "wf_disk d \<Longrightarrow> server_inv ((NewServer i r srvs d lf sf)\<lparr>primaryID := p, role := rl\<rparr>)"
  by (simp add: NewServer_def server_inv_def locks_free_def fds_ok_def handles_ok_def)

end
