(* ===== verification/ReplicationProps.thy ===== *)
theory ReplicationProps
  imports LogReplay
begin

text \<open>
  The properties of the replicated log: what replicas guarantee, and the ways in which the code
  as written loses or mixes up entries.
\<close>

section \<open>A concrete server\<close>

definition example_servers :: "(string, ServerInfo) gomap" where
  "example_servers =
    [(''1'', \<lparr>ID = ''1'', Address = ''localhost:5001'', Timestamp = 0, Alive = True\<rparr>),
     (''2'', \<lparr>ID = ''2'', Address = ''localhost:5002'', Timestamp = 0, Alive = True\<rparr>),
     (''3'', \<lparr>ID = ''3'', Address = ''localhost:5003'', Timestamp = 0, Alive = True\<rparr>)]"

definition example_disk :: disk where
  "example_disk = empty_disk\<lparr>dirs := [''storage'', ''storage/input'', ''storage/output'']\<rparr>"

definition example_backup :: "string \<Rightarrow> server" where
  "example_backup i = NewServer i ''storage'' example_servers example_disk None []"

definition example_env :: env where
  "example_env = \<lparr>now = 0, metadata = Some [(''clientid'', [''worker_0''])], answers = [(''2'', True), (''3'', True)],
     range_order = (\<lambda>S. S), log_fault = False, crashes = [], mod_time = (\<lambda>n. None)\<rparr>"

definition example_entry :: "int \<Rightarrow> string \<Rightarrow> bytes \<Rightarrow> LogEntry" where
  "example_entry i f c = \<lparr>Index = i, Op = ''WRITE'', Filename = f, Content = c, Version = 1\<rparr>"

lemma proper_storage [simp]: "proper ''storage''"
  by (simp add: proper_def dot_def dotdot_def noslash_def)

lemma flat_a [simp]: "flat_name ''output/a''" and flat_b [simp]: "flat_name ''output/b''"
  by (simp_all add: flat_name_def proper_def dot_def dotdot_def noslash_def)

lemma storage_ok_example [simp]: "storage_ok ''storage'' example_disk"
proof -
  have "\<not> is_dir example_disk (''storage'' @ ''/output/'' @ n)" if "proper n" for n
    using proper_nonempty [OF that]
    by (auto simp: is_dir_def example_disk_def empty_disk_def dot_def)
  moreover have "wf_disk example_disk" by (simp add: example_disk_def wf_disk_def empty_disk_def)
  ultimately show ?thesis
    by (simp add: storage_ok_def is_file_def) (simp add: example_disk_def empty_disk_def)
qed

lemma example_backup_simps [simp]:
  "log (example_backup i) = []" "disk (example_backup i) = example_disk"
  "rootDir (example_backup i) = ''storage''" "lastApplied (example_backup i) = 0"
  "commitIndex (example_backup i) = 0" "server_id (example_backup i) = i"
  "servers (example_backup i) = example_servers" "role (example_backup i) = Backup"
  by (simp_all add: example_backup_def NewServer_def)

lemma server_ok_example [simp]: "server_ok (example_backup i)"
  by (simp add: server_ok_def)

lemma replica_ok_example: "replica_ok (stored (example_backup i)) (example_backup i)"
  by (simp add: replica_ok_def replay_def)

lemma stored_example: "stored (example_backup i) f = None"
  by (simp add: stored_def os_ReadFile_def) (simp add: example_disk_def empty_disk_def)

section \<open>What holds\<close>

text \<open>
  C5. A backup stores the replay of its log: whatever requests it receives, duplicated, reordered
  or with gaps, its files are those of the entries of its own log up to \<open>lastApplied\<close>, applied in
  the order of the log to the files it started with.
\<close>

theorem backup_stores_replay:
  assumes "server_ok s" "log s = []" "lastApplied s = 0"
    and "list_all (\<lambda>req. list_all (flat_entry \<circ> of_pb) (Entries req)) reqs"
    and "s' = fold (\<lambda>req t. snd (AppendEntries e req t)) reqs s"
  shows "stored s' = replay (take (nat (lastApplied s')) (log s')) (stored s)
    \<and> lastApplied s' \<le> int (length (log s'))"
proof -
  have "replica_ok m0 (fold (\<lambda>req t. snd (AppendEntries e req t)) reqs u)" if "replica_ok m0 u" for m0 u
    using that assms(4) by (induction reqs arbitrary: u) (simp_all add: replica_ok_AppendEntries)
  moreover have "replica_ok (stored s) s" using assms(1-3) by (simp add: replica_ok_def replay_def)
  ultimately have "replica_ok (stored s) s'" using assms(5) by simp
  then show ?thesis by (simp add: replica_ok_def)
qed

theorem backup_stores_replay_witness:
  "\<exists>s'. s' = fold (\<lambda>req t. snd (AppendEntries example_env req t))
       [append_request ''1'' (example_entry 1 ''output/a'' ''x'') 1] (example_backup ''2'') \<and>
     stored s' = replay (take (nat (lastApplied s')) (log s')) (stored (example_backup ''2''))"
  using backup_stores_replay [of "example_backup ''2''"
      "[append_request ''1'' (example_entry 1 ''output/a'' ''x'') 1]" _ example_env]
  by (simp add: append_request_def example_entry_def flat_entry_def of_pb_def to_pb_def)

text \<open>
  C6. Replicas agree: two backups that started with the same files and received a leader's entries
  without gaps (in any number of duplicates, with any commit indexes) hold a prefix of the leader's
  log, and when they have applied as many entries they store the same files, which are the replay
  of that prefix.
\<close>

theorem replicas_agree:
  assumes "leader_log L" "delivered L s0 s" "delivered L t0 t"
    and "server_ok s0" "log s0 = []" "lastApplied s0 = 0"
    and "server_ok t0" "log t0 = []" "lastApplied t0 = 0"
    and "stored s0 = stored t0" "lastApplied s = lastApplied t"
  shows "log s = take (length (log s)) L \<and> stored s = stored t \<and>
    stored s = replay (take (nat (lastApplied s)) L) (stored s0)"
proof -
  have i: "replica_ok (stored s0) s0" "replica_ok (stored s0) t0"
    using assms(4-10) by (simp_all add: replica_ok_def replay_def)
  note s = delivered_prefix [OF assms(2,1) i(1)] and t = delivered_prefix [OF assms(3,1) i(2)]
  have tk: "take (nat (lastApplied u)) (log u) = take (nat (lastApplied u)) L"
    if "replica_ok (stored s0) u" "log u = take (length (log u)) L" for u
    using that by (metis min.absorb1 nat_le_iff replica_ok_def take_take)
  have "take (nat (lastApplied s)) (log s) = take (nat (lastApplied s)) L"
    "take (nat (lastApplied t)) (log t) = take (nat (lastApplied t)) L"
    using tk s t assms(5,8) by simp_all
  then show ?thesis using s t assms(5,8,11) by (simp add: replica_ok_def)
qed

definition two_entries :: "LogEntry list" where
  "two_entries = [example_entry 1 ''output/a'' ''x'', example_entry 2 ''output/b'' ''y'']"

lemma leader_log_two: "leader_log two_entries"
  by (simp add: leader_log_def two_entries_def example_entry_def flat_entry_def upt_rec)

definition after_two :: "string \<Rightarrow> server" where
  "after_two i = snd (AppendEntries example_env (append_request ''1'' (two_entries ! 1) 2)
     (snd (AppendEntries example_env (append_request ''1'' (two_entries ! 0) 0) (example_backup i))))"

lemma delivered_two: "delivered two_entries (example_backup i) (after_two i)"
  unfolding after_two_def
  by (rule delivered.entry [where i = 1], rule delivered.entry [where i = 0], rule delivered.nothing)
    (simp_all add: two_entries_def append_request_def AppendEntries_log receive_entry_def
      of_pb_def to_pb_def example_entry_def)

theorem replicas_agree_witness: "stored (after_two ''2'') = stored (after_two ''3'')"
proof -
  have la: "lastApplied (after_two i) = 2" for i
    by (simp add: after_two_def two_entries_def append_request_def example_entry_def
        AppendEntries_def receive_entry_def of_pb_def to_pb_def Let_def applyCommitted_eq
        applied_upto_def)
  have st: "stored (example_backup ''2'') = stored (example_backup ''3'')"
    by (rule ext) (simp add: stored_example)
  show ?thesis
    using replicas_agree [OF leader_log_two delivered_two delivered_two, of "''2''" "''3''"] la st
    by simp
qed

text \<open>
  C7. Recovery restores the log when each line of it, with its newline, fits the 16 MB buffer of the
  scanner, its indices count from 1, they are
  fewer than 2^31, and its names are directly in \<open>output/\<close>: a server restarted on
  the file such a log was persisted to has the same log, stores its replay, and counts every entry of
  it as committed and applied, those that never reached a majority included. (A longer line ends the
  recovery: \<open>recovery_stops_at_long_line\<close>.)
\<close>

theorem recovery_restores_log:
  assumes "storage_ok r d" "leader_log es" "list_all (\<lambda>le. json_len le + 1 \<le> maxBuf) es"
    and "s0 = NewServer i r srvs d (Some (map EntryLine es)) sf"
  shows "fst (recoverFromLog s0) \<and> log (snd (recoverFromLog s0)) = es \<and>
    commitIndex (snd (recoverFromLog s0)) = int (length es) \<and>
    lastApplied (snd (recoverFromLog s0)) = int (length es) \<and>
    stored (snd (recoverFromLog s0)) = replay es (stored s0)"
proof -
  have s0: "server_ok s0" "log s0 = []" "commitIndex s0 = 0" "lastApplied s0 = 0" "role s0 = Backup"
    "log_file s0 = Some (map EntryLine es)"
    using assms(1,4) by (simp_all add: NewServer_def server_ok_def)
  have f: "list_all flat_entry es" using assms(2) by (simp add: leader_log_def)
  have ix: "Index (es ! k) = int (length (log s0) + k) + 1" if "k < length es" for k
    using leader_log_Index [OF assms(2) that] s0(2) by simp
  show ?thesis
    using recover_lines_ok [OF s0(1) f assms(3) ix] s0
    by (auto simp: recoverFromLog_def rebuildAllPrimeSets_def split: prod.splits)
qed

theorem recovery_restores_log_witness:
  "log (snd (recoverFromLog (NewServer ''1'' ''storage'' example_servers example_disk
     (Some (map EntryLine two_entries)) []))) = two_entries"
proof -
  have d: "dec_string n = [digit_char n]" if "n < 10" for n :: int
    using that by (subst dec_string.simps) simp
  have "list_all (\<lambda>le. json_len le + 1 \<le> maxBuf) two_entries"
    by (simp add: two_entries_def example_entry_def json_len_def maxBuf_def json_string_len_def
        json_text_len.simps rune_size_def json_ascii_len_def base64_len_def format_int_def d)
  from recovery_restores_log [OF storage_ok_example leader_log_two this refl] show ?thesis by blast
qed

section \<open>What does not\<close>

text \<open>
  A backup acknowledges an entry it does not store: when the index is not beyond the length of
  its log, the entry is dropped without being compared with the one it has, and the answer is
  success. A primary whose log was emptied by a full synchronisation numbers its entries from 1
  again, so its writes are committed without any backup storing them.
\<close>

theorem stale_index_acked_not_stored:
  assumes "1 \<le> Index le" "Index le \<le> int (length (log s))" "Index le < 2 ^ 31"
    and "0 \<le> ci" "ci \<le> lastApplied s" "ci \<le> commitIndex s" "commitIndex s \<le> lastApplied s" "ci < 2 ^ 31"
  shows "AppendEntries e (append_request l le ci) s = (Ok True, s)"
proof -
  have "of_pb (to_pb le) = le" using assms by (intro of_to_pb) simp_all
  moreover have "sint (word_of_int ci :: i32) = ci"
    using assms(4,8) by (simp add: sint_sbintrunc' signed_take_bit_int_eq_self)
  moreover have "applyCommitted s = s" using assms by (subst applyCommitted.simps) simp
  ultimately show ?thesis using assms(2,6)
    by (simp add: AppendEntries_def append_request_def receive_entry_def)
qed

theorem stale_index_acked_not_stored_witness:
  "\<exists>s. log s = two_entries \<and>
    AppendEntries example_env (append_request ''3'' (example_entry 1 ''output/a'' ''new'') 0) s = (Ok True, s)"
proof -
  let ?s = "(example_backup ''2'')\<lparr>log := two_entries, commitIndex := 2, lastApplied := 2\<rparr>"
  have "AppendEntries example_env (append_request ''3'' (example_entry 1 ''output/a'' ''new'') 0) ?s = (Ok True, ?s)"
    by (rule stale_index_acked_not_stored) (simp_all add: example_entry_def two_entries_def)
  then show ?thesis by (intro exI [of _ ?s]) simp
qed

text \<open>
  There is no check for gaps: a fresh backup that misses the first entry stores the second one
  in its place, then drops the first as a duplicate; both calls succeed, and whatever commit index
  follows, the file of the first entry is never written.
\<close>

theorem gap_loses_entry:
  assumes "server_ok s" "log s = []" "lastApplied s = 0" "commitIndex s = 0"
    and "Index a = 1" "Index b = 2" "Op a = ''WRITE''" "flat_entry a" "flat_entry b"
    and "Filename a \<noteq> Filename b" "0 \<le> ci" "ci < 2 ^ 31"
    and "s1 = snd (AppendEntries e (append_request l b 0) s)"
    and "s2 = snd (AppendEntries e (append_request l a ci) s1)"
  shows "log s2 = [b] \<and> stored s2 (Filename a) = stored s (Filename a) \<and>
    fst (AppendEntries e (append_request l a ci) s1) = Ok True"
proof -
  have pb: "of_pb (to_pb a) = a" "of_pb (to_pb b) = b" using assms(5,6) by (intro of_to_pb; simp)+
  have l1: "log s1 = [b]" using assms(2,6,13) pb
    by (simp add: AppendEntries_log append_request_def receive_entry_def)
  have l2: "log s2 = [b]" using assms(5,14) pb l1
    by (simp add: AppendEntries_log append_request_def receive_entry_def)
  have "replica_ok (stored s) s" using assms(1-3) by (simp add: replica_ok_def replay_def)
  then have "replica_ok (stored s) s2" unfolding assms(13,14)
    using pb assms(8,9) by (intro replica_ok_AppendEntries) (simp_all add: append_request_def)
  then have "stored s2 = replay (take (nat (lastApplied s2)) [b]) (stored s)"
    using l2 by (simp add: replica_ok_def)
  then have "stored s2 (Filename a) = stored s (Filename a)"
    using assms(10) by (cases "nat (lastApplied s2)") (auto simp: replay_def store_step_def)
  then show ?thesis using l2 by (simp add: AppendEntries_def Let_def)
qed

theorem gap_loses_entry_witness:
  "\<exists>s2. log s2 = [two_entries ! 1] \<and> stored s2 ''output/a'' = None"
proof -
  note gap_loses_entry [where e = example_env and l = "''1''" and ci = 2, OF server_ok_example
      example_backup_simps(1,4,5) _ _ _ _ _ _ _ _ refl refl, of "two_entries ! 0" "two_entries ! 1" "''2''"]
  then show ?thesis
    by (simp add: two_entries_def example_entry_def flat_entry_def stored_example) blast
qed

text \<open>
  An entry that failed wins over the committed one: a backup that holds an entry of a deposed
  leader drops the new leader's entry with the same index, acknowledges it, and applies its own
  when the commit index covers it.
\<close>

theorem stale_entry_wins:
  assumes "server_ok s" "log s = [a]" "lastApplied s = 0" "commitIndex s = 0"
    and "Op a = ''WRITE''" "flat_entry a" "Index b = 1"
  shows "fst (AppendEntries e (append_request l b 1) s) = Ok True \<and>
    stored (snd (AppendEntries e (append_request l b 1) s)) (Filename a) = Some (Content a)"
proof -
  have pb: "of_pb (to_pb b) = b" using assms(7) by (intro of_to_pb) simp_all
  have "replica_ok (stored s) s" using assms by (simp add: replica_ok_def replay_def)
  let ?t = "s\<lparr>commitIndex := 1\<rparr>"
  have st: "AppendEntries e (append_request l b 1) s = (Ok True, applyCommitted ?t)"
    using assms pb by (simp add: AppendEntries_def append_request_def receive_entry_def)
  have "applyCommitted ?t = (apply_entry a ?t)\<lparr>lastApplied := 1\<rparr>"
    using assms by (simp add: applyCommitted_eq pending_def applied_upto_def)
  then have "stored (applyCommitted ?t) = stored (apply_entry a ?t)"
    using stored_cong [of "applyCommitted ?t" "apply_entry a ?t"] by simp
  moreover have "server_ok ?t" using assms(1) by (simp add: server_ok_def)
  ultimately show ?thesis using st apply_entry_ok [OF _ assms(6), of ?t] assms(5)
    by (simp add: store_step_def)
qed

theorem stale_entry_wins_witness:
  "\<exists>s. stored (snd (AppendEntries example_env
      (append_request ''3'' (example_entry 1 ''output/a'' ''new'') 1) s)) ''output/a'' = Some ''old''"
proof -
  let ?a = "example_entry 1 ''output/a'' ''old''"
  let ?s = "(example_backup ''2'')\<lparr>log := [?a]\<rparr>"
  have "server_ok ?s" using server_ok_example [of "''2''"] by (simp add: server_ok_def)
  then show ?thesis
    using stale_entry_wins [of ?s ?a "example_entry 1 ''output/a'' ''new''" example_env "''3''"]
    by (intro exI [of _ ?s]) (simp add: example_entry_def flat_entry_def)
qed

text \<open>
  Recovery stops at a line that does not fit the scanner's buffer: the entries before it are
  recovered, it and all after it are not, and the recovery reports an error (which \<open>StartServer\<close>
  only prints).
\<close>

theorem recovery_stops_at_long_line:
  assumes "json_len le + 1 > maxBuf" "list_all (\<lambda>le. json_len le + 1 \<le> maxBuf) pre"
    and "log_file s = Some (map EntryLine pre @ EntryLine le # post)"
  shows "\<not> fst (recoverFromLog s) \<and> log (snd (recoverFromLog s)) = log s @ pre"
  using recover_lines_stop [OF assms(1,2), of post s] assms(3)
  by (auto simp: recoverFromLog_def split: prod.splits)

theorem recovery_stops_at_long_line_witness:
  "\<exists>s le. log_file s = Some [EntryLine le] \<and> \<not> fst (recoverFromLog s)"
proof -
  obtain n :: nat where n: "n = 13000000" by simp
  let ?le = "example_entry 1 ''output/a'' (replicate n CHR ''x'')"
  let ?s = "(example_backup ''1'')\<lparr>log_file := Some [EntryLine ?le]\<rparr>"
  have "replicate n CHR ''x'' \<noteq> []" using n by simp
  then have "maxBuf < base64_len (Content ?le)"
    using n by (simp add: base64_len_def maxBuf_def example_entry_def)
  then have "json_len ?le + 1 > maxBuf" by (simp add: json_len_def)
  from recovery_stops_at_long_line [OF this, of "[]" ?s "[]"] show ?thesis
    by (intro exI [of _ ?s] exI [of _ ?le]) simp
qed

end
