(* ===== verification/CloseCommit.thy ===== *)
theory CloseCommit
  imports HandlerInv ReplicationProps
begin

text \<open>
  The commit of a file by \<open>Close\<close>: what a successful one does to the log, the files, the versions
  and the prime sets, and what the failing ones leave behind.
\<close>

section \<open>Updates that only touch the table\<close>

lemma map_entry_table: "\<exists>tb. map_entry n f s = s\<lparr>table := tb\<rparr>"
proof (cases "mget (table s) n")
  case None
  then have "map_entry n f s = s\<lparr>table := table s\<rparr>" by (simp add: map_entry_def)
  then show ?thesis by blast
next
  case (Some fe)
  then have "map_entry n f s = s\<lparr>table := mput n (f fe) (table s)\<rparr>"
    by (simp add: map_entry_def set_entry_def)
  then show ?thesis by blast
qed

lemma locked_table: "\<exists>tb. locked n s = s\<lparr>table := tb\<rparr>"
  by (auto simp: locked_def getFileEntry_def Let_def set_entry_def)

lemma map_entry_simps [simp]:
  "log (map_entry n f s) = log s" "disk (map_entry n f s) = disk s" "files (map_entry n f s) = files s"
  "rootDir (map_entry n f s) = rootDir s" "commitIndex (map_entry n f s) = commitIndex s"
  "lastApplied (map_entry n f s) = lastApplied s" "filesPrimes (map_entry n f s) = filesPrimes s"
  "requests (map_entry n f s) = requests s" "servers (map_entry n f s) = servers s"
  "server_id (map_entry n f s) = server_id s" "role (map_entry n f s) = role s"
  "primaryID (map_entry n f s) = primaryID s" "nextFD (map_entry n f s) = nextFD s"
  "openMap (map_entry n f s) = openMap s"
  by (simp_all add: map_entry_def set_entry_def split: option.splits)

lemma locked_simps [simp]:
  "log (locked n s) = log s" "disk (locked n s) = disk s" "files (locked n s) = files s"
  "rootDir (locked n s) = rootDir s" "commitIndex (locked n s) = commitIndex s"
  "lastApplied (locked n s) = lastApplied s" "filesPrimes (locked n s) = filesPrimes s"
  "requests (locked n s) = requests s" "servers (locked n s) = servers s"
  "server_id (locked n s) = server_id s"  "role (locked n s) = role s"
  "primaryID (locked n s) = primaryID s"
  using locked_table [of n s] by (elim exE; simp)+

lemma saveVersion_simps [simp]:
  "log (saveVersion n v s) = log s" "files (saveVersion n v s) = files s"
  "rootDir (saveVersion n v s) = rootDir s" "commitIndex (saveVersion n v s) = commitIndex s"
  "lastApplied (saveVersion n v s) = lastApplied s" "filesPrimes (saveVersion n v s) = filesPrimes s"
  "role (saveVersion n v s) = role s" "primaryID (saveVersion n v s) = primaryID s"
  "servers (saveVersion n v s) = servers s"
  by (simp_all add: saveVersion_def try_disk_def split: option.splits)

lemma send_all_simps [simp]:
  "log (send_all le ci s) = log s" "disk (send_all le ci s) = disk s" "files (send_all le ci s) = files s"
  "rootDir (send_all le ci s) = rootDir s" "commitIndex (send_all le ci s) = commitIndex s"
  "lastApplied (send_all le ci s) = lastApplied s" "filesPrimes (send_all le ci s) = filesPrimes s"
  "servers (send_all le ci s) = servers s" "server_id (send_all le ci s) = server_id s"
  "role (send_all le ci s) = role s" "primaryID (send_all le ci s) = primaryID s"
  by (simp_all add: send_all_def)

lemma remember_simps [simp]:
  "log (remember e rid r s) = log s" "disk (remember e rid r s) = disk s"
  "files (remember e rid r s) = files s" "rootDir (remember e rid r s) = rootDir s"
  "commitIndex (remember e rid r s) = commitIndex s" "lastApplied (remember e rid r s) = lastApplied s"
  "filesPrimes (remember e rid r s) = filesPrimes s" "role (remember e rid r s) = role s"
  "primaryID (remember e rid r s) = primaryID s" "servers (remember e rid r s) = servers s"
  by (simp_all add: remember_def)

lemma append_entry_simps2 [simp]:
  "files (snd (append_entry e le s)) = files s"
  "filesPrimes (snd (append_entry e le s)) = filesPrimes s"
  "role (snd (append_entry e le s)) = role s" "primaryID (snd (append_entry e le s)) = primaryID s"
  by (simp_all add: append_entry_def appendToDisk_def)

lemma fst_append_entry [simp]: "fst (append_entry e le s) = (\<not> log_fault e)"
  by (simp add: append_entry_def appendToDisk_def)

lemma applyCommitted_keeps:
  "files (applyCommitted s) = files s \<and> filesPrimes (applyCommitted s) = filesPrimes s \<and>
   rootDir (applyCommitted s) = rootDir s \<and> role (applyCommitted s) = role s \<and>
   primaryID (applyCommitted s) = primaryID s \<and> servers (applyCommitted s) = servers s \<and>
   commitIndex (applyCommitted s) = commitIndex s"
proof (induction s rule: applyCommitted.induct)
  case (1 s)
  then show ?case by (subst (1 2 3 4 5 6 7) applyCommitted.simps) (auto simp: Let_def)
qed

lemmas applyCommitted_keeps_simps [simp] =
  applyCommitted_keeps [THEN conjunct1]
  applyCommitted_keeps [THEN conjunct2, THEN conjunct1]
  applyCommitted_keeps [THEN conjunct2, THEN conjunct2, THEN conjunct1]
  applyCommitted_keeps [THEN conjunct2, THEN conjunct2, THEN conjunct2, THEN conjunct1]
  applyCommitted_keeps [THEN conjunct2, THEN conjunct2, THEN conjunct2, THEN conjunct2, THEN conjunct1]
  applyCommitted_keeps [THEN conjunct2, THEN conjunct2, THEN conjunct2, THEN conjunct2, THEN conjunct2, THEN conjunct1]
  applyCommitted_keeps [THEN conjunct2, THEN conjunct2, THEN conjunct2, THEN conjunct2, THEN conjunct2, THEN conjunct2]

section \<open>The version file\<close>

lemma proper_meta: "proper n \<Longrightarrow> proper (n @ ''.meta'')"
  by (auto simp: proper_def dot_def dotdot_def noslash_def append_eq_Cons_conv)

text \<open>Saving a version next to a flat file writes only its \<open>.meta\<close> file.\<close>

definition version_text :: "i32 \<Rightarrow> bytes" where
  "version_text v = format_int (sint v)"

lemma stored_saveVersion:
  assumes "server_ok s" "flat_name fn" "is_dir (disk s) (rootDir s @ ''/output'')"
  shows "server_ok (saveVersion fn v s) \<and>
    stored (saveVersion fn v s) = (stored s)(fn @ ''.meta'' \<mapsto> version_text v)"
proof -
  let ?r = "rootDir s"
  obtain n where n: "fn = ''output/'' @ n" "proper n" using assms(2) by (rule flat_nameE)
  have r: "storage_ok ?r (disk s)" "proper ?r" using assms(1) by (simp_all add: server_ok_def storage_ok_def)
  note pm = proper_meta [OF n(2)]
  have full: "full_path s (fn @ ''.meta'') = ?r @ ''/output/'' @ n @ ''.meta''"
    using Join_output [OF r(2) pm] n(1) by (simp add: full_path_def)
  have "creatable (disk s) (?r @ ''/output/'' @ n @ ''.meta'')"
    using r(1) pm assms(3) Dir_file [OF r(2) pm] by (auto simp: creatable_def storage_ok_def)
  then obtain d where d: "os_WriteFile (disk s) (?r @ ''/output/'' @ n @ ''.meta'') (version_text v) = Some d"
    using WriteFile_enabled by blast
  have sv: "saveVersion fn v s = s\<lparr>disk := d\<rparr>"
    using d full by (simp add: saveVersion_def try_disk_def version_text_def)
  have "stored (s\<lparr>disk := d\<rparr>) f = ((stored s)(fn @ ''.meta'' \<mapsto> version_text v)) f" for f
  proof (cases "flat_name f")
    case True
    then obtain k where k: "f = ''output/'' @ k" "proper k" by (rule flat_nameE)
    have "(Join ?r f = ?r @ ''/output/'' @ n @ ''.meta'') = (f = fn @ ''.meta'')"
      using Join_output [OF r(2) k(2)] k n by auto
    then show ?thesis using True read_WriteFile [OF _ d, of "Join ?r f"] r(1)
      by (auto simp: stored_def full_path_def storage_ok_def)
  next
    case False
    then have "f \<noteq> fn @ ''.meta''" using n pm by (auto simp: flat_name_def)
    then show ?thesis using False by (simp add: stored_def)
  qed
  then show ?thesis using sv storage_ok_WriteFile [OF r(1) pm d] by (auto simp: server_ok_def)
qed

lemma is_dir_apply_write:
  assumes "storage_ok r d" "proper n"
  shows "is_dir (apply_write (r @ ''/output/'' @ n) x d) (r @ ''/output'')"
proof -
  have r: "proper r" using assms(1) by (simp add: storage_ok_def)
  obtain d1 where d1: "os_MkdirAll d (r @ ''/output'') = Some d1" "is_dir d1 (r @ ''/output'')"
    using MkdirAll_output [OF assms(1)] by metis
  show ?thesis
  proof (cases "os_WriteFile d1 (r @ ''/output/'' @ n) x")
    case None
    then show ?thesis using d1 Dir_file [OF r assms(2)] by (simp add: apply_write_def)
  next
    case (Some d2)
    then show ?thesis using d1 Dir_file [OF r assms(2)] dirs_WriteFile [OF Some]
      by (simp add: apply_write_def is_dir_def)
  qed
qed

section \<open>A \<open>Close\<close> that reaches the replication\<close>

definition current_version :: "string \<Rightarrow> server \<Rightarrow> i32" where
  "current_version fn s = (case mget (table s) fn of Some fe \<Rightarrow> fe_version fe | None \<Rightarrow> 1)"

text \<open>
  The request is a dirty close by a client that has the file open for writing at the current
  version, of a file directly in \<open>output/\<close>, on a primary, and it is not a retry.
\<close>

definition can_commit :: "env \<Rightarrow> CloseRequest \<Rightarrow> server \<Rightarrow> string \<Rightarrow> bool" where
  "can_commit e req s fn \<longleftrightarrow> leader_check s = None \<and> cached e s (cl_RequestId req) = None \<and>
     cl_Dirty req \<and> servers s \<noteq> [] \<and> flat_name fn \<and> safePath_unchecked fn = fn \<and>
     cl_Version req = current_version fn s \<and>
     (case mget (files s) (cl_Fd req) of None \<Rightarrow> False
      | Some m \<Rightarrow> filename m = fn \<and> (case mget (clients m) (getClientIDFromContext e) of
          None \<Rightarrow> False | Some c \<Rightarrow> mode c = FileMode_WRITE))"

definition healthy :: "env \<Rightarrow> bool" where
  "healthy e \<longleftrightarrow> \<not> log_fault e \<and> crashes e = []"

definition close_majority :: "env \<Rightarrow> server \<Rightarrow> bool" where
  "close_majority e s \<longleftrightarrow> reaches_majority e s (length (servers s) div 2 + 1)"

text \<open>The log entry of the commit.\<close>

definition commit_entry :: "env \<Rightarrow> CloseRequest \<Rightarrow> string \<Rightarrow> server \<Rightarrow> LogEntry" where
  "commit_entry e req fn s = \<lparr>Index = int (length (log s)) + 1, Op = ''WRITE'', Filename = fn,
     Content = format_lines (range_order e (merged_primes (cl_Data req) fn s)),
     Version = current_version fn s + 1\<rparr>"

lemma close_entry_locked: "close_entry e (cl_Data req) fn fn (locked fn s) = commit_entry e req fn s"
  by (simp add: close_entry_def commit_entry_def merged_primes_def current_version_def
      entry_version_locked split: option.splits)

lemma Close_locked:
  assumes "can_commit e req s fn" "locks_free s"
  shows "Close e req s = (case close_dirty e req fn fn FileMode_WRITE (locked fn s) of
    (r, t) \<Rightarrow> (r, map_entry fn ReleaseWrite t))"
  using assms(1)
  by (auto simp: can_commit_def Close_def Let_def with_write_free [OF assms(2)] split: option.splits)

lemma peers_cong: "servers t = servers s \<Longrightarrow> server_id t = server_id s \<Longrightarrow>
    reaches_majority e t k = reaches_majority e s k"
  by (simp add: reaches_majority_def peer_answers_def peers_def)

text \<open>The server after an entry is logged and sent, and after it is committed and sent again.\<close>

definition logged :: "env \<Rightarrow> LogEntry \<Rightarrow> string \<Rightarrow> server \<Rightarrow> server" where
  "logged e le fn s = send_all le (commitIndex s) (snd (append_entry e le (locked fn s)))"

definition applied :: "env \<Rightarrow> LogEntry \<Rightarrow> string \<Rightarrow> server \<Rightarrow> server" where
  "applied e le fn s = send_all le (Index le) (applyCommitted ((logged e le fn s)\<lparr>commitIndex := Index le\<rparr>))"

definition committed :: "env \<Rightarrow> CloseRequest \<Rightarrow> string \<Rightarrow> server \<Rightarrow> server" where
  "committed e req fn s = (let s4 = applied e (commit_entry e req fn s) fn s
     in s4\<lparr>filesPrimes := mput fn (merged_primes (cl_Data req) fn s) (filesPrimes s4)\<rparr>)"

lemma merged_primes_locked: "merged_primes d fn (locked fn s) = merged_primes d fn s"
  by (simp add: merged_primes_def)

lemma close_dirty_outcome:
  assumes "can_commit e req s fn" "healthy e"
  shows "close_dirty e req fn fn FileMode_WRITE (locked fn s) =
    (if close_majority e s then close_finish e req fn (committed e req fn s)
     else (fail Unavailable ''failed to reach majority'', logged e (commit_entry e req fn s) fn s))"
proof -
  let ?le = "commit_entry e req fn s"
  obtain ok s1 where a: "append_entry e ?le (locked fn s) = (ok, s1)" by fastforce
  have s1: "ok" "s1 = snd (append_entry e ?le (locked fn s))"
    using a fst_append_entry [of e ?le "locked fn s"] assms(2) by (simp_all add: healthy_def)
  have v: "entry_version fn (locked fn s) = cl_Version req"
    using assms(1) by (simp add: can_commit_def entry_version_locked current_version_def split: option.splits)
  have ci: "commitIndex s1 = commitIndex s" "servers s1 = servers s" "server_id s1 = server_id s"
    unfolding s1(2) by simp_all
  have m: "reaches_majority e (send_all ?le (commitIndex s) s1) (length (servers s) div 2 + 1)
      = close_majority e s"
    unfolding close_majority_def by (rule peers_cong) (simp_all add: ci)
  show ?thesis
    using assms v a s1(1) ci m
    by (simp add: close_dirty_def close_entry_locked merged_primes_locked Let_def healthy_def
        can_commit_def committed_def applied_def logged_def s1(2) [symmetric])
qed

lemma logged_simps [simp]:
  "log (logged e le fn s) = log s @ [le]"
  "disk (logged e le fn s) = disk s" "rootDir (logged e le fn s) = rootDir s"
  "commitIndex (logged e le fn s) = commitIndex s" "lastApplied (logged e le fn s) = lastApplied s"
  "files (logged e le fn s) = files s" "filesPrimes (logged e le fn s) = filesPrimes s"
  "servers (logged e le fn s) = servers s" "server_id (logged e le fn s) = server_id s"
  "table (logged e le fn s) = table (locked fn s)"
  by (simp_all add: logged_def)

lemma applied_simps [simp]:
  "log (applied e le fn s) = log s @ [le]" "rootDir (applied e le fn s) = rootDir s"
  "commitIndex (applied e le fn s) = Index le" "files (applied e le fn s) = files s"
  "filesPrimes (applied e le fn s) = filesPrimes s" "table (applied e le fn s) = table (locked fn s)"
  by (simp_all add: applied_def)

lemma committed_simps [simp]:
  "log (committed e req fn s) = log s @ [commit_entry e req fn s]"
  "rootDir (committed e req fn s) = rootDir s"
  "commitIndex (committed e req fn s) = int (length (log s)) + 1"
  "files (committed e req fn s) = files s"
  "filesPrimes (committed e req fn s) = mput fn (merged_primes (cl_Data req) fn s) (filesPrimes s)"
  "table (committed e req fn s) = table (locked fn s)"
  "disk (committed e req fn s) = disk (applied e (commit_entry e req fn s) fn s)"
  "lastApplied (committed e req fn s) = lastApplied (applied e (commit_entry e req fn s) fn s)"
  by (simp_all add: committed_def Let_def) (simp add: commit_entry_def)

text \<open>The entries that a commit applies: those that were logged and not applied, then its own.\<close>

definition to_apply :: "LogEntry \<Rightarrow> server \<Rightarrow> LogEntry list" where
  "to_apply le s = drop (nat (lastApplied s)) (log s) @ [le]"

lemma applied_ok:
  assumes "0 \<le> lastApplied s" "lastApplied s \<le> int (length (log s))"
    and "server_ok s" "list_all flat_entry (log s)" "flat_name fn"
    and "Index le = int (length (log s)) + 1" "Op le = ''WRITE''" "Filename le = fn"
  shows "lastApplied (applied e le fn s) = int (length (log s)) + 1 \<and>
    server_ok (applied e le fn s) \<and>
    stored (applied e le fn s) = replay (to_apply le s) (stored s) \<and>
    is_dir (disk (applied e le fn s)) (rootDir s @ ''/output'')"
proof -
  let ?t = "(logged e le fn s)\<lparr>commitIndex := Index le\<rparr>"
  let ?es = "to_apply le s"
  have up: "applied_upto ?t = int (length (log s)) + 1"
    using assms(2,6) by (simp add: applied_upto_def)
  have p: "pending ?t = ?es"
    using assms(1,2) up by (simp add: pending_def to_apply_def nat_add_distrib nat_le_iff)
  have a: "applyCommitted ?t = (fold apply_entry ?es ?t)\<lparr>lastApplied := int (length (log s)) + 1\<rparr>"
    using applyCommitted_eq [of ?t] assms(1) up p by simp
  have cong: "stored u = stored v \<and> server_ok u = server_ok v"
    if "rootDir u = rootDir v" "disk u = disk v" for u v
    using that stored_cong server_ok_cong by blast
  have d: "disk (applied e le fn s) = disk (fold apply_entry ?es ?t)"
    by (simp add: applied_def a)
  have la: "lastApplied (applied e le fn s) = int (length (log s)) + 1"
    by (simp add: applied_def a)
  have t: "server_ok ?t" "stored ?t = stored s" using cong [of ?t s] assms(3) by simp_all
  have fe: "flat_entry le" using assms(5,8) by (simp add: flat_entry_def)
  then have fes: "list_all flat_entry ?es"
    using assms(4) by (auto simp: to_apply_def list_all_iff dest: in_set_dropD)
  have st: "stored (fold apply_entry ?es ?t) = replay ?es (stored s)" "server_ok (fold apply_entry ?es ?t)"
    using rl.fold_view [OF t(1) fes] rl.fold_good [OF t(1) fes] t(2) by (simp_all add: replay_def)
  let ?u = "fold apply_entry (drop (nat (lastApplied s)) (log s)) ?t"
  have u: "server_ok ?u" using fes by (intro rl.fold_good [OF t(1)]) (simp add: to_apply_def)
  obtain n where n: "fn = ''output/'' @ n" "proper n" using assms(5) by (rule flat_nameE)
  have r: "storage_ok (rootDir s) (disk ?u)" "proper (rootDir s)"
    using u by (simp_all add: server_ok_def storage_ok_def)
  have last: "fold apply_entry ?es ?t = apply_entry le ?u" by (simp add: to_apply_def)
  have dl: "disk (apply_entry le ?u) = apply_write (rootDir s @ ''/output/'' @ n) (Content le) (disk ?u)"
    using Join_output [OF r(2) n(2)] n(1) assms(7,8)
    by (simp add: apply_entry_def full_path_def)
  have "is_dir (disk (fold apply_entry ?es ?t)) (rootDir s @ ''/output'')"
    unfolding last dl by (rule is_dir_apply_write [OF r(1) n(2)])
  then show ?thesis
    using la d st cong [of "applied e le fn s" "fold apply_entry ?es ?t"] by simp
qed

lemma committed_applies:
  assumes "0 \<le> lastApplied s" "lastApplied s \<le> int (length (log s))"
    and "server_ok s" "list_all flat_entry (log s)" "flat_name fn"
  shows "lastApplied (committed e req fn s) = int (length (log s)) + 1 \<and>
    server_ok (committed e req fn s) \<and>
    stored (committed e req fn s) = replay (to_apply (commit_entry e req fn s) s) (stored s) \<and>
    is_dir (disk (committed e req fn s)) (rootDir s @ ''/output'')"
proof -
  let ?le = "commit_entry e req fn s" and ?c = "committed e req fn s"
  have "Index ?le = int (length (log s)) + 1" "Op ?le = ''WRITE''" "Filename ?le = fn"
    by (simp_all add: commit_entry_def)
  note applied_ok [OF assms this, of e]
  moreover have "disk ?c = disk (applied e ?le fn s)" "rootDir ?c = rootDir (applied e ?le fn s)"
    "lastApplied ?c = lastApplied (applied e ?le fn s)" by simp_all
  ultimately show ?thesis
    using stored_cong [of ?c "applied e ?le fn s"] server_ok_cong [of ?c "applied e ?le fn s"] by simp
qed

lemma close_finish_dirty:
  assumes "crashes e = []" "cl_Dirty req" "mget (table t) fn = Some fe"
  shows "fst (close_finish e req fn t) = Ok (CloseResponse ''closed'' (fe_version fe + 1))"
    and "log (snd (close_finish e req fn t)) = log t"
    and "commitIndex (snd (close_finish e req fn t)) = commitIndex t"
    and "lastApplied (snd (close_finish e req fn t)) = lastApplied t"
    and "filesPrimes (snd (close_finish e req fn t)) = filesPrimes t"
    and "rootDir (snd (close_finish e req fn t)) = rootDir t"
    and "disk (snd (close_finish e req fn t)) = disk (saveVersion fn (fe_version fe + 1) t)"
    and "mget (table (snd (close_finish e req fn t))) fn = Some (fe\<lparr>fe_version := fe_version fe + 1\<rparr>)"
proof -
  let ?t1 = "map_entry fn (\<lambda>fe. fe\<lparr>fe_version := fe_version fe + 1\<rparr>) t"
  let ?t2 = "saveVersion fn (fe_version fe + 1) ?t1"
  have d: "disk ?t2 = disk (saveVersion fn (fe_version fe + 1) t)"
    by (simp add: saveVersion_def try_disk_def full_path_def split: option.splits)
  have v: "entry_version fn ?t2 = fe_version fe + 1" "entry_version fn t = fe_version fe"
    using assms(3) by (simp_all add: entry_version_def table_map_entry)
  have tb: "mget (table ?t2) fn = Some (fe\<lparr>fe_version := fe_version fe + 1\<rparr>)"
    using assms(3) by (simp add: table_map_entry)
  note defs = close_finish_def Let_def assms(1,2) v
  show "fst (close_finish e req fn t) = Ok (CloseResponse ''closed'' (fe_version fe + 1))"
    "log (snd (close_finish e req fn t)) = log t"
    "commitIndex (snd (close_finish e req fn t)) = commitIndex t"
    "lastApplied (snd (close_finish e req fn t)) = lastApplied t"
    "filesPrimes (snd (close_finish e req fn t)) = filesPrimes t"
    "rootDir (snd (close_finish e req fn t)) = rootDir t"
    by (simp_all add: defs split: option.splits)
  show "disk (snd (close_finish e req fn t)) = disk (saveVersion fn (fe_version fe + 1) t)"
    using d by (simp add: defs split: option.splits)
  show "mget (table (snd (close_finish e req fn t))) fn = Some (fe\<lparr>fe_version := fe_version fe + 1\<rparr>)"
    using tb by (simp add: defs split: option.splits)
qed

lemma table_locked: "\<exists>fe. mget (table (locked fn s)) fn = Some fe \<and> fe_version fe = current_version fn s"
  by (auto simp: locked_def getFileEntry_def Let_def current_version_def NewFileEntry_def
      split: option.splits)

definition steady :: "server \<Rightarrow> bool" where
  "steady s \<longleftrightarrow> server_inv s \<and> server_ok s \<and> list_all flat_entry (log s) \<and>
     0 \<le> lastApplied s \<and> lastApplied s \<le> int (length (log s))"

lemma Close_committed:
  assumes "steady s" "can_commit e req s fn" "healthy e" "close_majority e s"
    and "v = current_version fn s + 1" "s' = snd (Close e req s)"
  shows "fst (Close e req s) = Ok (CloseResponse ''closed'' v)"
    and "log s' = log s @ [commit_entry e req fn s]"
    and "commitIndex s' = int (length (log s')) \<and> lastApplied s' = int (length (log s'))"
    and "stored s' = (replay (to_apply (commit_entry e req fn s) s) (stored s))(fn @ ''.meta'' \<mapsto> version_text v)"
    and "filesPrimes s' = mput fn (merged_primes (cl_Data req) fn s) (filesPrimes s)"
    and "current_version fn s' = v"
    and "server_ok s' \<and> rootDir s' = rootDir s"
proof -
  let ?c = "committed e req fn s"
  have st: "locks_free s" "server_ok s" "list_all flat_entry (log s)" "0 \<le> lastApplied s"
    "lastApplied s \<le> int (length (log s))" using assms(1) by (simp_all add: steady_def server_inv_iff)
  have fl: "flat_name fn" "cl_Dirty req" "crashes e = []"
    using assms(2,3) by (simp_all add: can_commit_def healthy_def)
  obtain fe where fe: "mget (table ?c) fn = Some fe" "fe_version fe = current_version fn s"
    using table_locked [of fn s] by auto
  have close: "Close e req s = (fst (close_finish e req fn ?c),
      map_entry fn ReleaseWrite (snd (close_finish e req fn ?c)))"
    using Close_locked [OF assms(2) st(1)] close_dirty_outcome [OF assms(2,3)] assms(4)
    by (simp add: case_prod_beta)
  note cf = close_finish_dirty [OF fl(3,2) fe(1)]
  note ca = committed_applies [OF st(4,5,2,3) fl(1), of e req]
  let ?s' = "snd (close_finish e req fn ?c)"
  have s': "s' = map_entry fn ReleaseWrite ?s'" using assms(6) close by simp
  have v: "fe_version fe + 1 = v" using fe(2) assms(5) by simp
  show "fst (Close e req s) = Ok (CloseResponse ''closed'' v)" using close cf(1) v by simp
  show "log s' = log s @ [commit_entry e req fn s]" using s' cf(2) by simp
  then show "commitIndex s' = int (length (log s')) \<and> lastApplied s' = int (length (log s'))"
    using s' cf(3,4) ca by simp
  have sv: "server_ok (saveVersion fn v ?c) \<and>
      stored (saveVersion fn v ?c) = (stored ?c)(fn @ ''.meta'' \<mapsto> version_text v)"
    using ca fl(1) by (intro stored_saveVersion) simp_all
  have d: "disk s' = disk (saveVersion fn v ?c)" "rootDir s' = rootDir (saveVersion fn v ?c)"
    using s' cf(6,7) v by simp_all
  show "stored s' = (replay (to_apply (commit_entry e req fn s) s) (stored s))(fn @ ''.meta'' \<mapsto> version_text v)"
    using stored_cong [OF d(2,1)] sv ca by simp
  show "server_ok s' \<and> rootDir s' = rootDir s" using server_ok_cong [OF d(2,1)] sv d(2) by simp
  show "filesPrimes s' = mput fn (merged_primes (cl_Data req) fn s) (filesPrimes s)"
    using s' cf(5) by simp
  show "current_version fn s' = v"
    using s' cf(8) v by (simp add: current_version_def table_map_entry ReleaseWrite_def)
qed

lemma Close_no_majority:
  assumes "server_inv s" "can_commit e req s fn" "healthy e" "\<not> close_majority e s"
  shows "fst (Close e req s) = fail Unavailable ''failed to reach majority''"
    and "log (snd (Close e req s)) = log s @ [commit_entry e req fn s]"
    and "disk (snd (Close e req s)) = disk s \<and> rootDir (snd (Close e req s)) = rootDir s \<and>
      commitIndex (snd (Close e req s)) = commitIndex s \<and> lastApplied (snd (Close e req s)) = lastApplied s"
  using Close_locked [OF assms(2)] close_dirty_outcome [OF assms(2,3)] assms(1,4)
  by (simp_all add: server_inv_iff)

lemma steady_Close:
  assumes "steady s" "can_commit e req s fn" "healthy e"
  shows "steady (snd (Close e req s))"
proof (cases "close_majority e s")
  case True
  note c = Close_committed [OF assms True refl refl]
  have "flat_entry (commit_entry e req fn s)"
    using assms(2) by (simp add: can_commit_def flat_entry_def commit_entry_def)
  then show ?thesis
    using c assms(1) server_inv_call [OF call_Close, of s e req] by (simp add: steady_def)
next
  case False
  have "flat_entry (commit_entry e req fn s)"
    using assms(2) by (simp add: can_commit_def flat_entry_def commit_entry_def)
  then show ?thesis
    using Close_no_majority [OF _ assms(2,3) False] assms(1) server_inv_call [OF call_Close, of s e req]
      server_ok_cong [of "snd (Close e req s)" s] by (simp add: steady_def)
qed

end
