(* ===== verification/CloseProps.thy ===== *)
theory CloseProps
  imports CloseCommit
begin

text \<open>
  The properties of \<open>Close\<close>: what a successful one commits and how the backups follow, what a failing
  one leaves, retries, and the faults: bytes that are not numbers are dropped, a failed commit is
  applied by a later one, a second close deadlocks the server, two concurrent closes share an index.
\<close>

section \<open>A concrete primary\<close>

text \<open>A primary on which \<open>worker_0\<close> has the new file \<open>output/a\<close> open for writing, at descriptor 0.\<close>

definition example_primary :: server where
  "example_primary = (example_backup ''1'')\<lparr>role := Primary, primaryID := ''1'', nextFD := 1,
     disk := new_file example_disk ''storage/output/a'' [],
     files := [(0, \<lparr>meta_file = Some (HFile 0), filename = ''output/a'', meta_version = 0,
       clients = [(''worker_0'', \<lparr>lastSeen = 0, mode = FileMode_WRITE\<rparr>)]\<rparr>)],
     openMap := [((''worker_0'', ''output/a''), 0)],
     table := [(''output/a'', NewFileEntry)]\<rparr>"

definition example_close :: "string \<Rightarrow> bytes \<Rightarrow> CloseRequest" where
  "example_close rid data = \<lparr>cl_RequestId = rid, cl_Fd = 0, cl_Dirty = True, cl_Version = 0, cl_Data = data\<rparr>"

lemma storage_ok_new_file:
  assumes "storage_ok r d" "proper n"
  shows "storage_ok r (new_file d (r @ ''/output/'' @ n) x)"
proof -
  have "is_file (new_file d (r @ ''/output/'' @ n) x) p = (is_file d p \<or> p = r @ ''/output/'' @ n)" for p
    by (auto simp: is_file_def new_file_def)
  moreover have "is_dir (new_file d (r @ ''/output/'' @ n) x) p = is_dir d p" for p
    by (simp add: is_dir_def new_file_def)
  ultimately show ?thesis
    using assms wf_new_file proper_not_file [of r n] by (simp add: storage_ok_def)
qed

lemma proper_a [simp]: "proper ''a''"
  by (simp add: proper_def dot_def dotdot_def noslash_def)

lemma example_primary_simps [simp]:
  "log example_primary = []" "lastApplied example_primary = 0" "commitIndex example_primary = 0"
  "rootDir example_primary = ''storage''" "role example_primary = Primary"
  "servers example_primary = example_servers" "server_id example_primary = ''1''"
  "requests example_primary = []" "filesPrimes example_primary = []"
  by (simp_all add: example_primary_def) (simp_all add: example_backup_def NewServer_def)

lemma server_ok_primary [simp]: "server_ok example_primary"
  using storage_ok_new_file [OF storage_ok_example proper_a]
  by (simp add: server_ok_def) (simp add: example_primary_def)

lemma steady_primary: "steady example_primary"
proof -
  have "locks_free example_primary"
    by (simp add: locks_free_def example_primary_def lock_free_def NewFileEntry_def)
  moreover have "unat fd < unat (1 :: i32) \<longleftrightarrow> fd = 0" for fd :: i32
    by (simp add: unat_eq_0)
  then have "fds_ok example_primary"
    by (simp add: fds_ok_def) (simp add: example_primary_def MaxOpenFiles_def)
  moreover have "wf_disk (new_file example_disk ''storage/output/a'' [])"
    using server_ok_primary by (simp add: server_ok_def storage_ok_def) (simp add: example_primary_def)
  then have "handles_ok example_primary"
    by (simp add: handles_ok_def example_primary_def)
      (simp add: new_file_def example_disk_def empty_disk_def)
  ultimately show ?thesis by (simp add: steady_def server_inv_def)
qed

lemma safe_a: "safePath_unchecked ''output/a'' = ''output/a''"
  by code_simp

lemma client_example [simp]: "getClientIDFromContext example_env = ''worker_0''"
  by (simp add: getClientIDFromContext_def example_env_def)

lemma can_commit_example: "can_commit example_env (example_close rid data) example_primary ''output/a''"
  by (simp add: can_commit_def leader_check_def cached_def example_close_def safe_a)
    (simp add: example_primary_def example_servers_def current_version_def NewFileEntry_def)

lemma healthy_example: "healthy example_env"
  by (simp add: healthy_def example_env_def)

lemma majority_example: "close_majority example_env example_primary"
  by (simp add: close_majority_def reaches_majority_def peer_answers_def peers_def)
    (simp add: example_env_def example_servers_def)

lemma fair_example: "fair_order example_env"
  by (simp add: fair_order_def example_env_def)

lemma AppendEntries_one:
  assumes "of_pb (to_pb le) = le" "0 \<le> ci" "ci < 2 ^ 31"
    and "s1 = (if Index le \<le> int (length (log s)) then s else snd (append_entry e le s))"
  shows "snd (AppendEntries e (append_request l le ci) s) =
    applyCommitted (if ci > commitIndex s then s1\<lparr>commitIndex := ci\<rparr> else s1)"
proof -
  have "sint (word_of_int ci :: i32) = ci"
    using assms(2,3) by (simp add: sint_sbintrunc' signed_take_bit_int_eq_self)
  moreover have "commitIndex s1 = commitIndex s" using assms(4) by simp
  ultimately show ?thesis using assms(1,4)
    by (simp add: AppendEntries_def append_request_def receive_entry_def Let_def)
qed

lemma applyCommitted_none: "commitIndex s \<le> lastApplied s \<Longrightarrow> applyCommitted s = s"
  by (subst applyCommitted.simps) simp

section \<open>What a commit does\<close>

lemma union_of_commit:
  assumes "steady s" "can_commit e req s fn" "healthy e" "close_majority e s"
    and "lastApplied s = int (length (log s))" "fair_order e"
    and "old = (case mget (filesPrimes s) fn of Some S \<Rightarrow> S | None \<Rightarrow> [])" "distinct old"
    and "v = current_version fn s + 1" "s' = snd (Close e req s)"
  shows "fst (Close e req s) = Ok (CloseResponse ''closed'' v) \<and> current_version fn s' = v \<and>
    stored s' (fn @ ''.meta'') = Some (version_text v) \<and>
    (\<forall>f. f \<noteq> fn \<longrightarrow> f \<noteq> fn @ ''.meta'' \<longrightarrow> stored s' f = stored s f) \<and>
    (\<exists>c. stored s' fn = Some c \<and> distinct (parseNumbers c) \<and>
      set (parseNumbers c) = set old \<union> set (parseNumbers (cl_Data req)))"
proof -
  let ?P = "merged_primes (cl_Data req) fn s"
  note c = Close_committed [OF assms(1-4,9,10)]
  have "to_apply (commit_entry e req fn s) s = [commit_entry e req fn s]"
    using assms(5) by (simp add: to_apply_def)
  then have st: "stored s' = (stored s)(fn \<mapsto> format_lines (range_order e ?P), fn @ ''.meta'' \<mapsto> version_text v)"
    using c(4) by (simp add: replay_def store_step_def commit_entry_def)
  have m: "mset (range_order e ?P) = mset ?P" using assms(6) by (simp add: fair_order_def)
  have "distinct ?P" "set ?P = set old \<union> set (parseNumbers (cl_Data req))"
    using assms(7,8) Filter_distinct [of old] Filter_set [of "parseNumbers (cl_Data req)" old]
    by (simp_all add: merged_primes_def)
  then have p: "distinct (range_order e ?P)" "set (range_order e ?P) = set old \<union> set (parseNumbers (cl_Data req))"
    using mset_eq_imp_distinct_iff [OF m] mset_eq_setD [OF m] by simp_all
  show ?thesis using c(1,6) st p by (auto simp: parse_format_lines)
qed

text \<open>
  C1. A successful dirty \<open>Close\<close> on a primary with nothing left to apply commits the deduplicated
  union: the file becomes a list of numbers without repetition, whose set is the set the server had in
  memory for its name (\<open>filesPrimes\<close>, which after a failover need not hold what the file held) and
  the numbers of the data; the version grows by one, in the answer, the table and the version file;
  no other file changes. The client has the file open for writing at its current version, a majority
  answers, and neither a write fault nor a crash is injected.
\<close>

theorem close_commits_union:
  assumes "steady s" "can_commit e req s fn" "healthy e" "close_majority e s"
    and "lastApplied s = int (length (log s))" "fair_order e"
    and "old = (case mget (filesPrimes s) fn of Some S \<Rightarrow> S | None \<Rightarrow> [])" "distinct old"
    and "v = current_version fn s + 1" "s' = snd (Close e req s)"
  shows "fst (Close e req s) = Ok (CloseResponse ''closed'' v) \<and> current_version fn s' = v \<and>
    stored s' (fn @ ''.meta'') = Some (version_text v) \<and>
    (\<forall>f. f \<noteq> fn \<longrightarrow> f \<noteq> fn @ ''.meta'' \<longrightarrow> stored s' f = stored s f) \<and>
    (\<exists>c. stored s' fn = Some c \<and> distinct (parseNumbers c) \<and>
      set (parseNumbers c) = set old \<union> set (parseNumbers (cl_Data req)))"
  using union_of_commit [OF assms] .

theorem close_commits_union_witness:
  "\<exists>c. stored (snd (Close example_env (example_close ''r1'' ''7 5 7'') example_primary)) ''output/a'' = Some c
    \<and> set (parseNumbers c) = {5, 7}"
proof -
  have p: "parseNumbers ''7 5 7'' = [7, 5, 7]" by code_simp
  show ?thesis
    using close_commits_union [OF steady_primary can_commit_example healthy_example majority_example _
        fair_example refl _ refl refl, of "''r1''" "''7 5 7''"]
    by (auto simp: example_close_def p)
qed

text \<open>
  C2. The backups follow a commit of \<open>Close\<close>: a backup with the primary's log and files that receives
  the entry, before and after the commit, stores the same files as the primary, but for the version
  file, which only the primary writes.
\<close>

theorem close_agrees_with_backup:
  assumes "steady s" "can_commit e req s fn" "healthy e" "close_majority e s"
    and "lastApplied s = int (length (log s))" "commitIndex s \<le> lastApplied s" "0 \<le> commitIndex s"
    and "int (length (log s)) + 1 < 2 ^ 31"
    and "server_ok b" "log b = log s" "lastApplied b = lastApplied s" "stored b = stored s"
    and "commitIndex b \<le> lastApplied b"
    and "le = commit_entry e req fn s" "s' = snd (Close e req s)"
    and "b1 = snd (AppendEntries eb (append_request (server_id s) le (commitIndex s)) b)"
    and "b2 = snd (AppendEntries eb (append_request (server_id s) le (Index le)) b1)"
  shows "log b2 = log s' \<and> (\<forall>f. f \<noteq> fn @ ''.meta'' \<longrightarrow> stored b2 f = stored s' f)"
proof -
  let ?n = "int (length (log s))"
  note c = Close_committed [OF assms(1-4) refl assms(15)]
  have le: "Index le = ?n + 1" "Op le = ''WRITE''" "Filename le = fn" by (simp_all add: assms(14) commit_entry_def)
  have fe: "flat_entry le" using assms(2) le by (simp add: flat_entry_def can_commit_def)
  have pb: "of_pb (to_pb le) = le" using le assms(8) by (intro of_to_pb) simp_all
  let ?b = "snd (append_entry eb le b)"
  have n: "\<not> Index le \<le> int (length (log b))" "commitIndex s < 2 ^ 31" "?n + 1 < 2 ^ 31"
    using le(1) assms(5,6,8,10) by simp_all
  have "b1 = (if commitIndex s > commitIndex b then ?b\<lparr>commitIndex := commitIndex s\<rparr> else ?b)"
    using AppendEntries_one [OF pb assms(7) n(2) refl, of eb "server_id s" b] n(1)
      applyCommitted_none [of "?b\<lparr>commitIndex := commitIndex s\<rparr>"] applyCommitted_none [of ?b]
      assms(6,11,13,16) by simp
  then have b1: "log b1 = log s @ [le] \<and> disk b1 = disk b \<and> rootDir b1 = rootDir b \<and> lastApplied b1 = ?n
      \<and> commitIndex b1 \<le> ?n"
    using assms(5,6,10,11,13) by simp
  let ?t = "b1\<lparr>commitIndex := ?n + 1\<rparr>"
  have "b2 = applyCommitted ?t"
    using AppendEntries_one [OF pb _ _ refl, of "Index le" eb "server_id s" b1] assms(17) b1 le(1) n(3)
    by simp
  moreover have "applyCommitted ?t = (apply_entry le ?t)\<lparr>lastApplied := ?n + 1\<rparr>"
    using b1 by (subst applyCommitted_eq) (simp_all add: pending_def applied_upto_def nat_add_distrib)
  ultimately have "stored b2 = stored (apply_entry le ?t)" "log b2 = log s @ [le]"
    using b1 stored_cong [of b2 "apply_entry le ?t"] by simp_all
  moreover have "server_ok ?t" "stored ?t = stored s"
    using server_ok_cong [of ?t b] stored_cong [of ?t b] b1 assms(9,12) by simp_all
  ultimately have b2: "stored b2 = store_step le (stored s)" "log b2 = log s @ [le]"
    using apply_entry_ok [OF _ fe, of ?t] by simp_all
  have "to_apply (commit_entry e req fn s) s = [le]" using assms(5,14) by (simp add: to_apply_def)
  then show ?thesis using b2 c(2,4) assms(14) by (simp add: replay_def)
qed

theorem close_agrees_with_backup_witness:
  "\<exists>b2. log b2 = [commit_entry example_env (example_close ''r1'' ''7'') ''output/a'' example_primary] \<and>
    stored b2 ''output/a'' =
      stored (snd (Close example_env (example_close ''r1'' ''7'') example_primary)) ''output/a''"
proof -
  let ?b = "(example_backup ''2'')\<lparr>disk := disk example_primary\<rparr>"
  let ?le = "commit_entry example_env (example_close ''r1'' ''7'') ''output/a'' example_primary"
  let ?b1 = "snd (AppendEntries example_env (append_request (server_id example_primary) ?le
    (commitIndex example_primary)) ?b)"
  let ?b2 = "snd (AppendEntries example_env (append_request (server_id example_primary) ?le (Index ?le)) ?b1)"
  have "server_ok ?b" "stored ?b = stored example_primary"
    using server_ok_cong [of ?b example_primary] stored_cong [of ?b example_primary] by simp_all
  note close_agrees_with_backup [OF steady_primary can_commit_example [of "''r1''" "''7''"]
      healthy_example majority_example _ _ _ _ this(1) _ _ this(2) _ refl refl refl refl, of example_env]
  then have "log ?b2 = log (snd (Close example_env (example_close ''r1'' ''7'') example_primary))"
    "stored ?b2 ''output/a'' = stored (snd (Close example_env (example_close ''r1'' ''7'') example_primary)) ''output/a''"
    by simp_all
  moreover have "log (snd (Close example_env (example_close ''r1'' ''7'') example_primary)) = [?le]"
    using Close_committed(2) [OF steady_primary can_commit_example healthy_example majority_example refl refl]
    by simp
  ultimately show ?thesis by (intro exI [of _ ?b2]) simp
qed

text \<open>
  A \<open>Close\<close> stores numbers only: when the data of a new file holds no number, a checkpoint in JSON
  or the bytes of a tensor, the commit succeeds, the version grows, and the file is empty.
\<close>

theorem close_drops_other_bytes:
  assumes "steady s" "can_commit e req s fn" "healthy e" "close_majority e s" "fair_order e"
    and "lastApplied s = int (length (log s))"
    and "mget (filesPrimes s) fn = None" "parseNumbers (cl_Data req) = []"
  shows "fst (Close e req s) = Ok (CloseResponse ''closed'' (current_version fn s + 1)) \<and>
    stored (snd (Close e req s)) fn = Some []"
proof -
  note c = Close_committed [OF assms(1-4) refl refl]
  have "mset (range_order e []) = {#}" using assms(5) by (simp add: fair_order_def)
  then have "range_order e (merged_primes (cl_Data req) fn s) = []"
    using assms(7,8) by (simp add: merged_primes_def)
  then show ?thesis using c(1,4) assms(6)
    by (simp add: to_apply_def replay_def store_step_def commit_entry_def)
qed

theorem close_drops_other_bytes_witness:
  "stored (snd (Close example_env (example_close ''r1'' ''{worker_id:w0, step:20}'') example_primary))
     ''output/a'' = Some []"
proof -
  have "parseNumbers ''{worker_id:w0, step:20}'' = []" by code_simp
  then show ?thesis
    using close_drops_other_bytes [OF steady_primary can_commit_example healthy_example majority_example
        fair_example, of "''r1''" "''{worker_id:w0, step:20}''"]
    by (simp add: example_close_def)
qed

section \<open>What failing closes leave\<close>

text \<open>
  C31. A rejected \<open>Close\<close> changes nothing: with a version that is not the current one, or a
  descriptor that is not open for writing, the answer is an error and the server is the same but for
  the entry of the file table that the lookup may have created; the lock is released.
\<close>

theorem rejected_close_changes_nothing:
  assumes "locks_free s" "leader_check s = None" "cached e s (cl_RequestId req) = None" "cl_Dirty req"
    and "mget (files s) (cl_Fd req) = Some m" "mget (clients m) (getClientIDFromContext e) = Some c"
    and "safePath_unchecked (filename m) = fn" "s' = snd (Close e req s)"
    and "mode c \<noteq> FileMode_WRITE \<or> cl_Version req \<noteq> current_version fn s"
  shows "(fst (Close e req s) = fail PermissionDenied ''not opened in write mode'' \<or>
      fst (Close e req s) = fail Aborted ''conflict'') \<and>
    s'\<lparr>table := table s\<rparr> = s \<and> locks_free s'"
proof -
  have v: "entry_version fn (locked fn s) = current_version fn s"
    by (simp add: entry_version_locked current_version_def split: option.splits)
  obtain tb tb' where tb: "locked fn s = s\<lparr>table := tb\<rparr>"
    "map_entry fn ReleaseWrite (locked fn s) = (locked fn s)\<lparr>table := tb'\<rparr>"
    using locked_table map_entry_table by metis
  have close: "Close e req s = (case close_dirty e req (filename m) fn (mode c) (locked fn s) of
      (r, t) \<Rightarrow> (r, map_entry fn ReleaseWrite t))"
    using assms(2-7) by (simp add: Close_def Let_def with_write_free [OF assms(1)])
  have d: "close_dirty e req (filename m) fn (mode c) (locked fn s) =
      (if mode c \<noteq> FileMode_WRITE then fail PermissionDenied ''not opened in write mode''
       else fail Aborted ''conflict'', locked fn s)"
    using assms(9) v by (simp add: close_dirty_def)
  have "(map_entry fn ReleaseWrite (locked fn s))\<lparr>table := table s\<rparr> = s"
    unfolding tb(2) by (simp add: tb(1))
  moreover have "locks_free s'" using locks_Close [OF assms(1)] assms(8) by simp
  ultimately show ?thesis using close d assms(8) by simp
qed

theorem rejected_close_changes_nothing_witness:
  "(snd (Close example_env ((example_close ''r1'' ''7'')\<lparr>cl_Version := 3\<rparr>) example_primary))
     \<lparr>table := table example_primary\<rparr> = example_primary"
proof -
  have "locks_free example_primary" using steady_primary by (simp add: steady_def server_inv_iff)
  then show ?thesis
    using rejected_close_changes_nothing [of example_primary example_env
        "(example_close ''r1'' ''7'')\<lparr>cl_Version := 3\<rparr>" "\<lparr>meta_file = Some (HFile 0), filename = ''output/a'',
          meta_version = 0, clients = [(''worker_0'', \<lparr>lastSeen = 0, mode = FileMode_WRITE\<rparr>)]\<rparr>"
        "\<lparr>lastSeen = 0, mode = FileMode_WRITE\<rparr>" "''output/a''"] safe_a
    by (simp add: leader_check_def cached_def example_close_def)
      (simp add: example_primary_def current_version_def NewFileEntry_def)
qed

lemma can_commit_after:
  assumes "can_commit e1 r1 s f1" "healthy e1" "\<not> close_majority e1 s" "steady s"
    and "can_commit e2 r2 s f2"
  shows "can_commit e2 r2 (snd (Close e1 r1 s)) f2 \<and>
    close_majority e2 (snd (Close e1 r1 s)) = close_majority e2 s"
proof -
  let ?s1 = "snd (Close e1 r1 s)"
  have inv: "server_inv s" "locks_free s" "wf_disk (disk s)"
    using assms(4) by (simp_all add: steady_def server_inv_def handles_ok_def)
  have s1: "?s1 = map_entry f1 ReleaseWrite (logged e1 (commit_entry e1 r1 f1 s) f1 s)"
    using Close_locked [OF assms(1) inv(2)] close_dirty_outcome [OF assms(1,2)] assms(3) by simp
  have same: "same_server s ?s1" using same_server_call [OF call_Close same_server_refl [OF inv(3)]] .
  have req: "requests ?s1 = requests s" "files ?s1 = files s"
    using s1 by (simp_all add: logged_def append_entry_def appendToDisk_def send_all_def)
  have tbl: "mget (table ?s1) f = (if f = f1 then map_option ReleaseWrite (mget (table (locked f1 s)) f1)
      else mget (table s) f)" for f
    using s1 by (simp add: table_map_entry logged_def locked_def table_getFileEntry case_prod_beta)
  obtain fe where "mget (table (locked f1 s)) f1 = Some fe" "fe_version fe = current_version f1 s"
    using table_locked by blast
  then have v: "current_version f ?s1 = current_version f s" for f
    using tbl [of f] by (auto simp: current_version_def ReleaseWrite_def)
  have "leader_check ?s1 = leader_check s" by (rule leader_check_same [OF same])
  moreover have "cached e2 ?s1 rid = cached e2 s rid" for rid by (simp add: cached_def req)
  moreover have "servers ?s1 = servers s" "server_id ?s1 = server_id s"
    using same by (simp_all add: same_server_def same_id_def)
  ultimately show ?thesis
    using assms(5) v req peers_cong [of ?s1 s e2] by (simp add: can_commit_def close_majority_def)
qed

text \<open>
  C33. A failed commit is not undone: a \<open>Close\<close> that misses its majority tells the client so, but its
  entry stays in the log, and the next successful \<open>Close\<close> of any other file applies it as well, so
  the file has the content of the failed request.
\<close>

theorem failed_close_applied_later:
  assumes "steady s" "can_commit e1 r1 s f1" "healthy e1" "\<not> close_majority e1 s"
    and "can_commit e2 r2 s f2" "healthy e2" "close_majority e2 s" "f1 \<noteq> f2" "f1 \<noteq> f2 @ ''.meta''"
    and "s1 = snd (Close e1 r1 s)"
  shows "fst (Close e1 r1 s) = fail Unavailable ''failed to reach majority'' \<and>
    stored s1 = stored s \<and>
    stored (snd (Close e2 r2 s1)) f1 = Some (Content (commit_entry e1 r1 f1 s))"
proof -
  have i: "server_inv s" using assms(1) by (simp add: steady_def)
  note n = Close_no_majority [OF i assms(2-4)]
  note a = can_commit_after [OF assms(2-4,1,5)]
  have st1: "steady s1" using steady_Close [OF assms(1-3)] assms(10) by simp
  have c2: "can_commit e2 r2 s1 f2" "close_majority e2 s1" using a assms(7,10) by simp_all
  note c = Close_committed [OF st1 c2(1) assms(6) c2(2) refl refl]
  let ?l1 = "commit_entry e1 r1 f1 s" and ?l2 = "commit_entry e2 r2 f2 s1"
  have "nat (lastApplied s) \<le> length (log s)" using assms(1) by (simp add: steady_def nat_le_iff)
  then have "to_apply (commit_entry e2 r2 f2 s1) s1 = drop (nat (lastApplied s)) (log s) @ [?l1, ?l2]"
    using n(2,3) assms(10) by (simp add: to_apply_def)
  then have "stored (snd (Close e2 r2 s1)) f1 = Some (Content ?l1)"
    using c(4) assms(8,9) by (simp add: replay_def store_step_def commit_entry_def)
  moreover have "stored s1 = stored s" using n(3) assms(10) stored_cong [of s1 s] by simp
  ultimately show ?thesis using n(1) by simp
qed

text \<open>The same primary with a second file, \<open>output/b\<close>, open at descriptor 1.\<close>

definition example_two :: server where
  "example_two = example_primary\<lparr>nextFD := 2,
     files := files example_primary @ [(1, \<lparr>meta_file = None, filename = ''output/b'', meta_version = 0,
       clients = [(''worker_0'', \<lparr>lastSeen = 0, mode = FileMode_WRITE\<rparr>)]\<rparr>)],
     table := table example_primary @ [(''output/b'', NewFileEntry)]\<rparr>"

lemma example_two_simps [simp]:
  "log example_two = []" "lastApplied example_two = 0" "role example_two = Primary"
  "servers example_two = example_servers" "server_id example_two = ''1''" "requests example_two = []"
  by (simp_all add: example_two_def)

lemma unat_less_2: "unat (fd :: i32) < 2 \<longleftrightarrow> fd = 0 \<or> fd = 1"
proof -
  have "unat fd < 2 \<longleftrightarrow> unat fd = 0 \<or> unat fd = 1" by linarith
  then show ?thesis by (simp add: word_unat_eq_iff)
qed

lemma steady_two: "steady example_two"
proof -
  have "handles_ok example_primary" using steady_primary by (simp add: steady_def server_inv_def)
  moreover have "mget (files example_primary) fd = Some m"
    if "mget (files example_two) fd = Some m" "meta_file m = Some h" for fd m h
    using that by (auto simp: example_two_def split: if_splits option.splits)
  moreover have "disk example_two = disk example_primary" by (simp add: example_two_def)
  ultimately have "handles_ok example_two" unfolding handles_ok_def by metis
  moreover have "locks_free example_two"
    by (simp add: locks_free_def example_two_def example_primary_def lock_free_def NewFileEntry_def)
  moreover have "fds_ok example_two"
    by (simp add: fds_ok_def example_two_def unat_less_2) (auto simp: example_primary_def MaxOpenFiles_def)
  moreover have "server_ok example_two"
    using server_ok_primary server_ok_cong [of example_two example_primary] by (simp add: example_two_def)
  ultimately show ?thesis by (simp add: steady_def server_inv_def)
qed

lemma safe_b: "safePath_unchecked ''output/b'' = ''output/b''"
  by code_simp

lemma can_commit_two:
  assumes "getClientIDFromContext e = ''worker_0''"
  shows "can_commit e (example_close rid data) example_two ''output/a''"
    and "can_commit e ((example_close rid data)\<lparr>cl_Fd := 1\<rparr>) example_two ''output/b''"
  using assms
  by (simp_all add: can_commit_def leader_check_def cached_def example_close_def safe_a safe_b)
    (simp_all add: example_two_def example_primary_def example_servers_def current_version_def NewFileEntry_def)

theorem failed_close_applied_later_witness:
  "\<exists>e1. fst (Close e1 (example_close ''r1'' ''7'') example_two) = fail Unavailable ''failed to reach majority'' \<and>
    stored (snd (Close example_env ((example_close ''r2'' ''3'')\<lparr>cl_Fd := 1\<rparr>)
      (snd (Close e1 (example_close ''r1'' ''7'') example_two)))) ''output/a'' = Some (''7'' @ [CHR 0x0A])"
proof -
  let ?e = "example_env\<lparr>answers := []\<rparr>"
  have c: "getClientIDFromContext ?e = ''worker_0''"
    by (simp add: getClientIDFromContext_def) (simp add: example_env_def)
  have h: "healthy ?e" using healthy_example by (simp add: healthy_def)
  have m: "\<not> close_majority ?e example_two" "close_majority example_env example_two"
    by (simp_all add: close_majority_def reaches_majority_def peer_answers_def peers_def)
      (simp_all add: example_servers_def example_env_def)
  have "format_lines (snd (FilterUniquePrimes (parseNumbers ''7'') [])) = ''7'' @ [CHR 0x0A]" by code_simp
  then have "Content (commit_entry ?e (example_close ''r1'' ''7'') ''output/a'' example_two) = ''7'' @ [CHR 0x0A]"
    by (simp add: commit_entry_def merged_primes_def example_close_def example_two_def)
      (simp add: example_env_def)
  then show ?thesis
    using failed_close_applied_later [OF steady_two can_commit_two(1) [OF c] h m(1)
        can_commit_two(2) [OF client_example] healthy_example m(2) _ _ refl, of "''r1''" "''7''" "''r2''" "''3''"]
    by (intro exI [of _ ?e]) simp
qed

text \<open>
  C39. Two closes at once share an index: when two handlers build their entries from the same log and
  then append them, both entries carry the same index, and a backup that receives them in order
  acknowledges both and stores only the first.
\<close>

theorem concurrent_closes_share_index:
  assumes "le1 = close_entry e1 d1 f1 p1 s" "le2 = close_entry e2 d2 f2 p2 s"
    and "s1 = snd (append_entry e1 le1 s)" "s2 = snd (append_entry e2 le2 s1)"
    and "log b = log s" "int (length (log s)) + 1 < 2 ^ 31"
    and "b1 = snd (AppendEntries eb (append_request l le1 0) b)" "0 \<le> commitIndex b"
  shows "Index le1 = Index le2 \<and> log s2 = log s @ [le1, le2] \<and>
    fst (AppendEntries eb (append_request l le2 0) b1) = Ok True \<and>
    log (snd (AppendEntries eb (append_request l le2 0) b1)) = log s @ [le1]"
proof -
  have ix: "Index le1 = int (length (log s)) + 1" "Index le2 = int (length (log s)) + 1"
    using assms(1,2) by (simp_all add: close_entry_def)
  have pb: "of_pb (to_pb le1) = le1" "of_pb (to_pb le2) = le2"
    using ix assms(6) by (intro of_to_pb; simp)+
  have "log b1 = log s @ [le1]"
    using AppendEntries_one [OF pb(1) _ _ refl, of 0 eb l b] ix(1) assms(5,7,8) by simp
  then have "log (snd (AppendEntries eb (append_request l le2 0) b1)) = log s @ [le1]"
    using AppendEntries_log [of eb "append_request l le2 0" b1] ix(2) pb(2)
    by (simp add: append_request_def receive_entry_def)
  then show ?thesis using ix assms(3,4) by (simp add: AppendEntries_def Let_def)
qed

theorem concurrent_closes_share_index_witness:
  "\<exists>le1 le2 b1. Content le1 \<noteq> Content le2 \<and> Index le1 = Index le2 \<and>
    log (snd (AppendEntries example_env (append_request ''1'' le2 0) b1)) = [le1]"
proof -
  let ?l1 = "close_entry example_env ''2'' ''output/a'' ''output/a'' example_primary"
  let ?l2 = "close_entry example_env ''3'' ''output/b'' ''output/b'' example_primary"
  let ?b1 = "snd (AppendEntries example_env (append_request ''1'' ?l1 0) (example_backup ''2''))"
  have p: "parseNumbers ''2'' = [2]" "parseNumbers ''3'' = [3]"
    "format_lines [2] \<noteq> format_lines [3]" by code_simp+
  then have "Content ?l1 \<noteq> Content ?l2"
    by (simp add: close_entry_def merged_primes_def example_env_def)
  then show ?thesis
    using concurrent_closes_share_index [where l = "''1''" and b = "example_backup ''2''" and eb = example_env,
        OF refl refl refl refl _ _ refl, of example_primary example_env "''2''" "''output/a''" "''output/a''"
          example_env "''3''" "''output/b''" "''output/b''"]
    by (intro exI [of _ ?l1] exI [of _ ?l2] exI [of _ ?b1]) simp
qed

end
