(* ===== verification/Service.thy ===== *)
theory Service
  imports CloseProps
begin

text \<open>
  The file service as a whole: the requests that carry an id, dispatched to their handlers, and what
  the request cache holds after each of them.
\<close>

section \<open>Dispatch\<close>

datatype file_request =
    CreateReq CreateRequest
  | DeleteReq DeleteRequest
  | OpenReq FileRequest
  | CloseReq CloseRequest
  | WriteReq WriteRequest

primrec serve :: "env \<Rightarrow> file_request \<Rightarrow> server \<Rightarrow> response outcome \<times> server" where
  "serve e (CreateReq r) s = Create e r s"
| "serve e (DeleteReq r) s = Delete e r s"
| "serve e (OpenReq r) s = Open e r s"
| "serve e (CloseReq r) s = Close e r s"
| "serve e (WriteReq r) s = Write e r s"

primrec request_id :: "file_request \<Rightarrow> string" where
  "request_id (CreateReq r) = cr_RequestId r"
| "request_id (DeleteReq r) = de_RequestId r"
| "request_id (OpenReq r) = fr_RequestId r"
| "request_id (CloseReq r) = cl_RequestId r"
| "request_id (WriteReq r) = wr_RequestId r"

text \<open>Whether a response is of the type the handler of a request asserts.\<close>

fun answers_to :: "file_request \<Rightarrow> response \<Rightarrow> bool" where
  "answers_to (CreateReq r) (OpenResponse fd v m) \<longleftrightarrow> True"
| "answers_to (OpenReq r) (OpenResponse fd v m) \<longleftrightarrow> True"
| "answers_to (DeleteReq r) (DeleteResponse m) \<longleftrightarrow> True"
| "answers_to (CloseReq r) (CloseResponse m v) \<longleftrightarrow> True"
| "answers_to (WriteReq r) (WriteResponse m v) \<longleftrightarrow> True"
| "answers_to q r \<longleftrightarrow> False"

definition remembered :: "env \<Rightarrow> string \<Rightarrow> response \<Rightarrow> server \<Rightarrow> bool" where
  "remembered e rid r s \<longleftrightarrow> mget (requests s) rid = Some \<lparr>response = r, timestamp = now e\<rparr>"

lemma requests_simps [simp]:
  "requests (remember e rid r s) = mput rid \<lparr>response = r, timestamp = now e\<rparr> (requests s)"
  "requests (map_entry n f s) = requests s"
  by (simp_all add: remember_def)

lemma remembered_map_entry [simp]: "remembered e rid r (map_entry n f s) = remembered e rid r s"
  by (simp add: remembered_def)

lemma remembered_remember [simp]: "remembered e rid r (remember e rid r s)"
  by (simp add: remembered_def)

lemma with_write_Ok:
  assumes "with_write name body s = (Ok r, s')"
  obtains t s'' where "body t = (Ok r, s'')" "s' = map_entry name ReleaseWrite s''"
  using assms by (auto simp: with_write_def split: prod.splits option.splits)

lemma open_fd_remembers: "open_fd e rid cid md n h v msg s = (Ok r, s') \<Longrightarrow>
    remembered e rid r s' \<and> (\<exists>fd w m. r = OpenResponse fd w m)"
  by (auto simp: open_fd_def Let_def)

lemma create_remembers: "create_locked e req safe s = (Ok r, s') \<Longrightarrow>
    remembered e (cr_RequestId req) r s' \<and> (\<exists>fd w m. r = OpenResponse fd w m)"
  by (auto simp: create_locked_def Let_def split: option.splits sum.splits open_error.splits if_splits
      dest: open_fd_remembers)

lemma close_finish_remembers: "close_finish e req safe s = (Ok r, s') \<Longrightarrow>
    remembered e (cl_RequestId req) r s' \<and> (\<exists>m v. r = CloseResponse m v)"
  by (auto simp: close_finish_def Let_def split: if_splits)

lemma close_dirty_Ok:
  assumes "close_dirty e req fn safe md s = (Ok r, s')"
  shows "\<exists>t. close_finish e req safe t = (Ok r, s') \<and> files t = files s"
proof -
  obtain ok s1 where a: "append_entry e (close_entry e (cl_Data req) fn safe s) s = (ok, s1)" by fastforce
  then have "files s1 = files s"
    using append_entry_simps2(1) [of e "close_entry e (cl_Data req) fn safe s" s] by simp
  then show ?thesis using assms a
    by (fastforce simp: close_dirty_def Let_def split: if_splits)
qed

lemma write_finish_remembers: "write_finish e req name s = (Ok r, s') \<Longrightarrow>
    remembered e (wr_RequestId req) r s' \<and> (\<exists>m v. r = WriteResponse m v)"
  by (auto simp: write_finish_def Let_def)

lemma write_dirty_remembers: "write_dirty e req name md s = (Ok r, s') \<Longrightarrow>
    remembered e (wr_RequestId req) r s' \<and> (\<exists>m v. r = WriteResponse m v)"
  by (auto simp: write_dirty_def write_numbers_def Let_def split: if_splits prod.splits option.splits
      dest: write_finish_remembers)

lemma serve_remembers:
  assumes "cached e s (request_id q) = None" "serve e q s = (Ok r, s')"
  shows "leader_check s = None \<and> remembered e (request_id q) r s' \<and> answers_to q r"
proof (cases q)
  case (CreateReq req)
  then show ?thesis using assms
    by (auto simp: Create_def Let_def split: option.splits if_splits elim!: with_write_Ok
        dest!: create_remembers)
next
  case (DeleteReq req)
  then show ?thesis using assms
    by (auto simp: Delete_def delete_entry_def already_deleted_def Let_def split: option.splits if_splits)
next
  case (OpenReq req)
  then show ?thesis using assms
    by (auto simp: Open_def open_input_def open_output_def Let_def
        split: option.splits if_splits prod.splits sum.splits dest!: open_fd_remembers)
next
  case (CloseReq req)
  then show ?thesis using assms
    by (auto simp: Close_def Let_def split: option.splits if_splits elim!: with_write_Ok
        dest!: close_dirty_Ok close_finish_remembers)
next
  case (WriteReq req)
  then show ?thesis using assms
    by (auto simp: Write_def Let_def split: option.splits if_splits elim!: with_write_Ok
        dest!: write_dirty_remembers write_finish_remembers)
qed

lemma serve_cached:
  assumes "leader_check s = None" "cached e s (request_id q) = Some r" "answers_to q r"
  shows "serve e q s = (Ok r, s)"
  using assms by (cases q; cases r) (simp_all add: Create_def Delete_def Open_def Close_def Write_def)

lemma serve_call: "call s (snd (serve e q s))"
  by (cases q) (auto intro: call.intros)

end
