(* ===== verification/ServiceProps.thy ===== *)
theory ServiceProps
  imports Service
begin

text \<open>
  The properties of the file service: the invariant, retries, descriptors, reads, and the faults of
  the request cache, of the limit on open files, of \<open>Close\<close> by a client that has closed, of \<open>Delete\<close>
  after a synchronisation, of \<open>Write\<close> and of the failover.
\<close>

section \<open>What holds\<close>

text \<open>
  C10. Every reachable server is in order: from a fresh server on a well-formed disk, after any calls
  of the handlers, no file lock is held, the open descriptors are exactly the numbers below
  \<open>nextFD\<close> and at most \<open>MaxOpenFiles\<close>, every entry of the open map leads to a descriptor of its
  file, and every open file has its inode.
\<close>

theorem server_invariant:
  assumes "wf_disk d" "call\<^sup>*\<^sup>* ((NewServer i r srvs d lf sf)\<lparr>primaryID := p, role := rl\<rparr>) s"
  shows "(\<forall>n fe. mget (table s) n = Some fe \<longrightarrow> lock_free fe) \<and>
    (\<forall>fd. mget (files s) fd \<noteq> None \<longleftrightarrow> unat fd < unat (nextFD s)) \<and> mlen (files s) \<le> MaxOpenFiles \<and>
    (\<forall>c n fd. mget (openMap s) (c, n) = Some fd \<longrightarrow> (\<exists>m. mget (files s) fd = Some m \<and> filename m = n)) \<and>
    wf_disk (disk s) \<and>
    (\<forall>fd m i. mget (files s) fd = Some m \<and> meta_file m = Some (HFile i) \<longrightarrow> mget (inodes (disk s)) i \<noteq> None)"
proof -
  have inv: "server_inv s"
    using server_inv_calls [OF assms(2)] server_inv_NewServer [OF assms(1)] by blast
  then show ?thesis
    unfolding server_inv_def locks_free_def fds_ok_def handles_ok_def by (metis (no_types))
qed

theorem server_invariant_witness:
  "lock_free (the (mget (table (snd (Open example_env
      \<lparr>fr_RequestId = ''r'', fr_Filename = ''output/a'', fr_Mode = 0, fr_ClientId = ''c''\<rparr>
      ((example_backup ''1'')\<lparr>primaryID := ''1'', role := Primary\<rparr>)))) ''output/a''))"
proof -
  let ?s = "snd (Open example_env \<lparr>fr_RequestId = ''r'', fr_Filename = ''output/a'', fr_Mode = 0, fr_ClientId = ''c''\<rparr>
    ((example_backup ''1'')\<lparr>primaryID := ''1'', role := Primary\<rparr>))"
  have w: "wf_disk example_disk" using storage_ok_example by (simp add: storage_ok_def)
  have "call\<^sup>*\<^sup>* ((example_backup ''1'')\<lparr>primaryID := ''1'', role := Primary\<rparr>) ?s"
    by (rule r_into_rtranclp) (rule call_Open)
  note server_invariant [OF w this [unfolded example_backup_def], folded example_backup_def]
  moreover have "mget (table ?s) ''output/a'' \<noteq> None"
  proof -
    have p: "sanitizePath ''output/a'' = Some ''output/a''" "normPath ''output/a'' = ''output/a''"
      "HasPrefix ''output/a'' ''input/'' = False" by code_simp+
    have o: "os_OpenFile example_disk q False = Inl ErrNotExist \<or> os_OpenFile example_disk q False = Inr HDir" for q
      by (simp add: os_OpenFile_def example_disk_def empty_disk_def)
    show ?thesis
      using o [of "Join ''storage'' ''output/a''"]
      by (auto simp: Open_def p leader_check_def cached_def getFileEntry_def set_entry_def
          open_output_def full_path_def open_fd_def Let_def remember_def too_many_files_def
          example_backup_def NewServer_def)
  qed
  ultimately show ?thesis by fastforce
qed

text \<open>
  C8. Retries are idempotent: when a request is sent again with the same id within the life of the
  cache, the handler gives the answer it gave the first time and leaves the server as it is.
\<close>

theorem retry_gives_same_answer:
  assumes "wf_disk (disk s)" "cached e s (request_id q) = None" "serve e q s = (Ok r, s')"
    and "now e' - now e < RequestCacheTTL"
  shows "serve e' q s' = (Ok r, s')"
proof -
  note m = serve_remembers [OF assms(2,3)]
  have "leader_check s' = None"
    using leader_check_call [OF serve_call assms(1), of e q] m assms(3) by simp
  moreover have "cached e' s' (request_id q) = Some r"
    using m assms(4) by (simp add: cached_def remembered_def)
  ultimately show ?thesis using m serve_cached by blast
qed

theorem retry_gives_same_answer_witness:
  "\<exists>r s'. serve example_env (CloseReq (example_close ''r1'' ''7'')) example_primary = (Ok r, s') \<and>
    serve example_env (CloseReq (example_close ''r1'' ''7'')) s' = (Ok r, s')"
proof -
  let ?q = "CloseReq (example_close ''r1'' ''7'')"
  obtain r s' where c: "serve example_env ?q example_primary = (Ok r, s')"
    using Close_committed(1) [OF steady_primary can_commit_example healthy_example majority_example refl refl,
        of "''r1''" "''7''"] by (cases "Close example_env (example_close ''r1'' ''7'') example_primary") auto
  have "wf_disk (disk example_primary)" "cached example_env example_primary (request_id ?q) = None"
    using server_ok_primary by (simp_all add: server_ok_def storage_ok_def cached_def)
  from retry_gives_same_answer [OF this c, of example_env] c show ?thesis
    by (simp add: RequestCacheTTL_def minute_def second_def)
qed

lemma open_fd_fresh:
  assumes "open_fd e rid cid md n h v msg s = (Ok r, s')" "fds_ok s"
  shows "mget (files s) (resp_fd r) = None \<and> mget (openMap s') (cid, n) = Some (resp_fd r) \<and>
    (\<exists>m. mget (files s') (resp_fd r) = Some m \<and> filename m = n \<and> mget (clients m) cid \<noteq> None) \<and>
    (\<forall>fd. fd \<noteq> resp_fd r \<longrightarrow> mget (files s') fd = mget (files s) fd)"
proof -
  have "mget (files s) (nextFD s) = None" using assms(2) by (auto simp: fds_ok_def)
  then show ?thesis using assms(1) by (auto simp: open_fd_def Let_def remember_def)
qed

lemma fds_ok_table: "fds_ok (set_entry n fe s) = fds_ok s" "fds_ok (snd (getFileEntry n s)) = fds_ok s"
  "fds_ok (map_entry n f s) = fds_ok s" "fds_ok (s\<lparr>disk := d\<rparr>) = fds_ok s"
  by (simp_all add: fds_ok_def set_entry_def getFileEntry_def Let_def)

lemma files_table: "files (set_entry n fe s) = files s" "files (snd (getFileEntry n s)) = files s"
  "openMap (set_entry n fe s) = openMap s"
  by (simp_all add: set_entry_def getFileEntry_def Let_def)

text \<open>What a new descriptor of a client for a file looks like.\<close>

definition descriptor_added :: "server \<Rightarrow> i32 \<Rightarrow> string \<Rightarrow> string \<Rightarrow> server \<Rightarrow> bool" where
  "descriptor_added s fd cid n s' \<longleftrightarrow> mget (files s) fd = None \<and> mget (openMap s') (cid, n) = Some fd \<and>
    (\<exists>m. mget (files s') fd = Some m \<and> filename m = n \<and> mget (clients m) cid \<noteq> None) \<and>
    (\<forall>k. k \<noteq> fd \<longrightarrow> mget (files s') k = mget (files s) k)"

lemma Open_descriptor:
  assumes "server_inv s" "cached e s (fr_RequestId req) = None" "Open e req s = (Ok r, s')"
    and "sanitizePath (fr_Filename req) = Some p"
  shows "descriptor_added s (resp_fd r) (fr_ClientId req) (normPath p) s'"
proof -
  let ?n = "normPath p"
  obtain fe s1 where g: "getFileEntry ?n s = (fe, s1)" by fastforce
  have s1: "fds_ok s1" "files s1 = files s"
    using fds_ok_table(2) [of ?n s] files_table(2) [of ?n s] g assms(1) by (simp_all add: server_inv_def)
  have op: "(if HasPrefix ?n ''input/'' then open_input e req ?n fe s1 else open_output e req ?n fe s1) = (Ok r, s')"
    using assms(2-4) g by (auto simp: Open_def Let_def split: option.splits)
  have "\<exists>t h v msg s2. open_fd e (fr_RequestId req) (fr_ClientId req) (fr_Mode req) ?n h v msg t = (Ok r, s2) \<and>
      fds_ok t \<and> files t = files s \<and> files s' = files s2 \<and> openMap s' = openMap s2"
    using op s1
    by (fastforce simp: open_input_def open_output_def fds_ok_table files_table
        split: if_splits option.splits sum.splits prod.splits)
  then show ?thesis unfolding descriptor_added_def using open_fd_fresh by metis
qed

lemma Create_descriptor:
  assumes "server_inv s" "cached e s (cr_RequestId req) = None" "Create e req s = (Ok r, s')"
    and "sanitizePath (cr_Filename req) = Some p"
  shows "descriptor_added s (resp_fd r) (cr_ClientId req) (normPath p) s'"
proof -
  let ?n = "normPath p"
  have lf: "locks_free s" and fd: "fds_ok s" using assms(1) by (simp add: server_inv_iff) (use assms(1) in \<open>simp add: server_inv_def\<close>)
  have l: "fds_ok (locked ?n s)" "files (locked ?n s) = files s"
    using fd locked_table [of ?n s] by (auto simp: fds_ok_def)
  let ?r = "create_locked e req ?n (locked ?n s)"
  have "(fst ?r, map_entry ?n ReleaseWrite (snd ?r)) = (Ok r, s')"
    using assms(2-4)
    by (auto simp: Create_def Let_def with_write_free [OF lf] case_prod_beta split: option.splits if_splits)
  then obtain s2 where c: "?r = (Ok r, s2)" "s' = map_entry ?n ReleaseWrite s2" by (metis prod.collapse prod.inject)
  have "\<exists>t h. open_fd e (cr_RequestId req) (cr_ClientId req) (cr_Mode req) ?n h 0 ''file created'' t = (Ok r, s2) \<and>
      fds_ok t \<and> files t = files s"
  proof (cases "os_MkdirAll (disk (locked ?n s)) (Dir (full_path (locked ?n s) ?n))")
    case (Some d1)
    show ?thesis
    proof (cases "os_CreateExcl d1 (full_path (locked ?n s) ?n)")
      case (Inl er)
      then show ?thesis using c(1) Some by (cases er) (simp_all add: create_locked_def Let_def)
    next
      case (Inr b)
      obtain d2 h where b: "b = (d2, h)" by fastforce
      let ?t = "map_entry ?n (\<lambda>fe. fe\<lparr>fe_version := 0\<rparr>) ((locked ?n s)\<lparr>disk := d2\<rparr>)"
      have "fds_ok ?t" "files ?t = files s" using l by (simp_all add: fds_ok_table)
      moreover have "open_fd e (cr_RequestId req) (cr_ClientId req) (cr_Mode req) ?n h 0 ''file created'' ?t = (Ok r, s2)"
        using c(1) Some Inr b by (simp add: create_locked_def Let_def split: if_splits)
      ultimately show ?thesis by blast
    qed
  qed (use c(1) in \<open>simp add: create_locked_def Let_def\<close>)
  moreover have "openMap s' = openMap s2" "files s' = files s2"
    unfolding c(2) by (simp_all add: map_entry_def set_entry_def split: option.split)
  ultimately obtain t h where o: "open_fd e (cr_RequestId req) (cr_ClientId req) (cr_Mode req) ?n h 0 ''file created'' t = (Ok r, s2)"
    "fds_ok t" "files t = files s" "openMap s' = openMap s2" "files s' = files s2" by blast
  show ?thesis using open_fd_fresh [OF o(1,2)] o(3-5) by (simp add: descriptor_added_def)
qed

text \<open>
  C29. Descriptors are unique: a \<open>Create\<close> or an \<open>Open\<close> that succeeds and is not answered from the
  cache returns a descriptor that was not in use, registers the client at it for the file, and leaves
  every other descriptor as it was.
\<close>

theorem open_returns_fresh_descriptor:
  assumes "server_inv s" "cached e s rid = None" "sanitizePath name = Some p"
    and "(r, s') = Open e \<lparr>fr_RequestId = rid, fr_Filename = name, fr_Mode = md, fr_ClientId = cid\<rparr> s \<or>
      (r, s') = Create e \<lparr>cr_RequestId = rid, cr_Filename = name, cr_ClientId = cid, cr_Mode = md\<rparr> s"
    and "r = Ok a"
  shows "mget (files s) (resp_fd a) = None \<and> mget (openMap s') (cid, normPath p) = Some (resp_fd a) \<and>
    (\<exists>m. mget (files s') (resp_fd a) = Some m \<and> filename m = normPath p \<and> mget (clients m) cid \<noteq> None) \<and>
    (\<forall>fd. fd \<noteq> resp_fd a \<longrightarrow> mget (files s') fd = mget (files s) fd)"
proof -
  let ?o = "\<lparr>fr_RequestId = rid, fr_Filename = name, fr_Mode = md, fr_ClientId = cid\<rparr>"
  let ?c = "\<lparr>cr_RequestId = rid, cr_Filename = name, cr_ClientId = cid, cr_Mode = md\<rparr>"
  have "descriptor_added s (resp_fd a) cid (normPath p) s'"
    using assms(4)
  proof
    assume "(r, s') = Open e ?o s"
    then show ?thesis using Open_descriptor [OF assms(1), of e ?o a s' p] assms(2,3,5) by simp
  next
    assume "(r, s') = Create e ?c s"
    then show ?thesis using Create_descriptor [OF assms(1), of e ?c a s' p] assms(2,3,5) by simp
  qed
  then show ?thesis by (simp add: descriptor_added_def)
qed

definition example_open :: FileRequest where
  "example_open = \<lparr>fr_RequestId = ''r9'', fr_Filename = ''output/a'', fr_Mode = 0, fr_ClientId = ''c2''\<rparr>"

lemma path_a: "sanitizePath ''output/a'' = Some ''output/a''" "normPath ''output/a'' = ''output/a''"
    "HasPrefix ''output/a'' ''input/'' = False" "Join ''storage'' ''output/a'' = ''storage/output/a''"
  by code_simp+

lemma Open_example: "fst (Open example_env example_open example_primary) =
    Ok (OpenResponse 1 0 ''opened output file'')"
proof -
  have o: "os_OpenFile (disk example_primary) ''storage/output/a'' False = Inr (HFile 0)"
    by (simp add: os_OpenFile_def example_primary_def new_file_def)
      (simp add: example_disk_def empty_disk_def)
  have v: "fst (getFileEntry ''output/a'' example_primary) = NewFileEntry"
    by (simp add: getFileEntry_def example_primary_def NewFileEntry_def Let_def)
  have k: "snd (getFileEntry ''output/a'' example_primary) = set_entry ''output/a'' NewFileEntry example_primary"
    using v by (simp add: getFileEntry_def Let_def)
  have l: "leader_check example_primary = None" "cached example_env example_primary ''r9'' = None"
    by (simp_all add: leader_check_def cached_def)
  have m: "\<not> too_many_files (set_entry ''output/a'' NewFileEntry example_primary)"
    by (simp add: too_many_files_def set_entry_def example_primary_def MaxOpenFiles_def)
  have n: "nextFD (set_entry ''output/a'' NewFileEntry example_primary) = 1"
    "disk (set_entry ''output/a'' NewFileEntry example_primary) = disk example_primary"
    "full_path (set_entry ''output/a'' NewFileEntry example_primary) ''output/a'' = ''storage/output/a''"
    using path_a(4) by (simp_all add: set_entry_def full_path_def) (simp add: example_primary_def)
  show ?thesis
    using v k l m n o
    by (simp add: Open_def example_open_def path_a case_prod_beta open_output_def open_fd_def Let_def)
      (simp add: NewFileEntry_def)
qed

lemma Create_example: "fst (Create example_env \<lparr>cr_RequestId = ''r8'', cr_Filename = ''output/b'', cr_ClientId = ''c2'',
    cr_Mode = 1\<rparr> example_primary) = Ok (OpenResponse 1 0 ''file created'')"
  by code_simp

theorem open_returns_fresh_descriptor_witness:
  "mget (openMap (snd (Open example_env example_open example_primary))) (''c2'', ''output/a'') = Some 1 \<and>
   mget (openMap (snd (Create example_env \<lparr>cr_RequestId = ''r8'', cr_Filename = ''output/b'', cr_ClientId = ''c2'',
     cr_Mode = 1\<rparr> example_primary))) (''c2'', ''output/b'') = Some 1"
proof
  have i: "server_inv example_primary" using steady_primary by (simp add: steady_def)
  have c: "cached example_env example_primary k = None" for k by (simp add: cached_def)
  show "mget (openMap (snd (Open example_env example_open example_primary))) (''c2'', ''output/a'') = Some 1"
    using open_returns_fresh_descriptor [OF i c path_a(1) disjI1 [OF prod.collapse] Open_example [unfolded example_open_def]]
    unfolding path_a(2) example_open_def by simp
  have p: "sanitizePath ''output/b'' = Some ''output/b''" "normPath ''output/b'' = ''output/b''" by code_simp+
  show "mget (openMap (snd (Create example_env \<lparr>cr_RequestId = ''r8'', cr_Filename = ''output/b'', cr_ClientId = ''c2'',
     cr_Mode = 1\<rparr> example_primary))) (''c2'', ''output/b'') = Some 1"
    using open_returns_fresh_descriptor [OF i c p(1) disjI2 [OF prod.collapse] Create_example] unfolding p(2) by simp
qed

lemma chunks_ok:
  assumes "n > 0"
  shows "concat (chunks n xs) = xs \<and> (\<forall>c \<in> set (chunks n xs). c \<noteq> [] \<and> length c \<le> n)"
  using assms
proof (induction n xs rule: chunks.induct)
  case (1 n xs)
  show ?case
  proof (cases "xs = []")
    case True
    then show ?thesis by (simp add: chunks.simps [of n "[]"])
  next
    case False
    then show ?thesis using 1 by (simp add: chunks.simps [of n xs])
  qed
qed

text \<open>
  C30. A read returns the file: a client that has a file open, with a lease that has not expired, gets
  chunks of at most 64 KB, none of them empty, whose concatenation is the file as it is on the disk
  now, provided the name still leads to the inode that was opened.
\<close>

theorem read_returns_file:
  assumes "server_inv s" "leader_check s = None" "sanitizePath (rd_Filename req) = Some p"
    and "mget (openMap s) (getClientIDFromContext e, normPath p) = Some fd"
    and "mget (files s) fd = Some m" "mget (clients m) (getClientIDFromContext e) = Some c"
    and "mode c = FileMode_READ \<or> mode c = FileMode_WRITE" "now e - lastSeen c \<le> LeaseTimeout"
    and "meta_file m = Some (HFile i)" "mget (names (disk s)) (full_path s (normPath p)) = Some i"
  shows "\<exists>cs. fst (Read e req s) = Ok cs \<and>
    os_ReadFile (disk s) (full_path s (normPath p)) = Some (concat cs) \<and>
    (\<forall>c \<in> set cs. c \<noteq> [] \<and> length c \<le> 65536)"
proof -
  obtain data where d: "mget (inodes (disk s)) i = Some data"
    using assms(1,5,9) by (fastforce simp: server_inv_def handles_ok_def)
  have "fst (Read e req s) = Ok (chunks ChunkSize data)"
    using assms(2-9) d by (auto simp: Read_def Let_def os_ReadHandle_def)
  moreover have "os_ReadFile (disk s) (full_path s (normPath p)) = Some data"
    using assms(10) d by (simp add: os_ReadFile_def)
  ultimately show ?thesis using chunks_ok [of ChunkSize data] by (simp add: ChunkSize_def)
qed

theorem read_returns_file_witness:
  "\<exists>cs. fst (Read example_env \<lparr>rd_Filename = ''output/a'', rd_Fd = 0\<rparr> example_primary) = Ok cs \<and> concat cs = []"
proof -
  let ?req = "\<lparr>rd_Filename = ''output/a'', rd_Fd = 0\<rparr>"
  let ?m = "\<lparr>meta_file = Some (HFile 0), filename = ''output/a'', meta_version = 0,
    clients = [(''worker_0'', \<lparr>lastSeen = 0, mode = FileMode_WRITE\<rparr>)]\<rparr>"
  have i: "server_inv example_primary" using steady_primary by (simp add: steady_def)
  have l: "leader_check example_primary = None" by (simp add: leader_check_def)
  have p: "sanitizePath (rd_Filename ?req) = Some ''output/a''" using path_a(1) by simp
  have f: "full_path example_primary (normPath ''output/a'') = ''storage/output/a''"
    using path_a(2,4) by (simp add: full_path_def)
  have om: "mget (openMap example_primary) (getClientIDFromContext example_env, normPath ''output/a'') = Some 0"
    "mget (files example_primary) 0 = Some ?m" "mget (clients ?m) (getClientIDFromContext example_env) =
      Some \<lparr>lastSeen = 0, mode = FileMode_WRITE\<rparr>"
    using path_a(2) by simp_all (simp_all add: example_primary_def)
  have n: "mget (names (disk example_primary)) (full_path example_primary (normPath ''output/a'')) = Some 0"
    "os_ReadFile (disk example_primary) (full_path example_primary (normPath ''output/a'')) = Some []"
    unfolding f by (simp_all add: example_primary_def os_ReadFile_def new_file_def)
      (simp_all add: example_disk_def empty_disk_def)
  have t: "now example_env - 0 \<le> LeaseTimeout"
    by (simp add: example_env_def LeaseTimeout_def minute_def second_def)
  show ?thesis
    using read_returns_file [OF i l p om, of 0] n t by auto
qed

end
