(* ===== verification/ServiceFaults.thy ===== *)
theory ServiceFaults
  imports ServiceProps
begin

text \<open>
  The faults of the file service: the limit on open files is reached for good, a second \<open>Close\<close> by a
  client deadlocks the server, an id used by two kinds of request or the deletion of a synchronised
  file ends the process, \<open>Write\<close> makes the primary differ from its backups, and a new primary forgets
  which numbers its files hold.
\<close>

text \<open>
  C40. The limit on open files is never recovered: once a server has \<open>MaxOpenFiles\<close> descriptors, no
  call, and no \<open>Close\<close> in particular, ever frees one, and no \<open>Create\<close> or \<open>Open\<close> that is not a retry
  succeeds again.
\<close>

theorem open_limit_is_permanent:
  assumes "wf_disk (disk s)" "too_many_files s" "call\<^sup>*\<^sup>* s s'"
    and "cached e s' (cr_RequestId creq) = None" "cached e s' (fr_RequestId oreq) = None"
  shows "too_many_files s' \<and> fst (Create e creq s') \<noteq> Ok r \<and> fst (Open e oreq s') \<noteq> Ok r"
proof -
  have "at_least MaxOpenFiles s" using assms(1,2) by (simp add: at_least_def too_many_files_def)
  then have t: "too_many_files s'"
    using at_least_calls [OF assms(3)] by (simp add: at_least_def too_many_files_def)
  have tt: "too_many_files u" if "files u = files s'" for u
    using t that by (simp add: too_many_files_def)
  have "fst (create_locked e creq safe u) \<noteq> Ok r" if "files u = files s'" for safe u
    using tt [OF that] by (auto simp: create_locked_def Let_def split: option.splits sum.splits open_error.splits)
  moreover have "files (set_entry n fe (snd (getFileEntry n s'))) = files s'" for n fe
    by (simp add: files_table)
  ultimately have "fst (with_write n (create_locked e creq n) s') \<noteq> Ok r" for n
    by (auto simp: with_write_def case_prod_beta split: option.splits)
  then have c: "fst (Create e creq s') \<noteq> Ok r"
    using assms(4) by (auto simp: Create_def Let_def split: option.splits)
  have "fst (open_input e oreq n fe u) \<noteq> Ok r \<and> fst (open_output e oreq n fe u) \<noteq> Ok r"
    if "files u = files s'" for n fe u
    using tt [OF that] by (auto simp: open_input_def open_output_def case_prod_beta split: option.splits sum.splits)
  then have "fst (Open e oreq s') \<noteq> Ok r"
    using assms(5) by (auto simp: Open_def Let_def case_prod_beta files_table split: option.splits)
  with t c show ?thesis by blast
qed

definition many_files :: server where
  "many_files = example_primary\<lparr>files := map (\<lambda>i. (of_nat i,
     \<lparr>meta_file = None, filename = ''output/a'', meta_version = 0, clients = []\<rparr>)) [0..<1000]\<rparr>"

theorem open_limit_is_permanent_witness:
  "\<forall>r. fst (Open example_env example_open many_files) \<noteq> Ok r"
proof -
  have "wf_disk (disk many_files)"
    using server_ok_primary by (simp add: many_files_def server_ok_def storage_ok_def)
  moreover have "too_many_files many_files"
    by (simp add: too_many_files_def many_files_def MaxOpenFiles_def)
  moreover have "cached example_env many_files rid = None" for rid
    by (simp add: cached_def many_files_def)
  ultimately show ?thesis using open_limit_is_permanent [of many_files many_files] by blast
qed

lemma mget_finish: "close_finish e req safe t = (Ok r, s') \<Longrightarrow> mget (files t) (cl_Fd req) = Some m \<Longrightarrow>
    \<exists>m'. mget (files s') (cl_Fd req) = Some m' \<and> mget (clients m') (getClientIDFromContext e) = None"
  by (auto simp: close_finish_def Let_def split: if_splits option.splits)

text \<open>
  A second \<open>Close\<close> deadlocks the server: after a client's \<open>Close\<close> succeeded, its \<open>Close\<close> of the
  same descriptor with a new request id never returns; the handler waits for the server's mutex,
  which it holds, so no later call of any handler gets it.
\<close>

theorem second_close_deadlocks:
  assumes "wf_disk (disk s)" "cached e s (cl_RequestId req) = None" "Close e req s = (Ok r, s')"
    and "cl_Fd req' = cl_Fd req" "getClientIDFromContext e' = getClientIDFromContext e"
    and "mget (requests s') (cl_RequestId req') = None"
  shows "Close e' req' s' = (Deadlock, s')"
proof -
  obtain m where m: "mget (files s) (cl_Fd req) = Some m" and l: "leader_check s = None"
    using assms(2,3) by (auto simp: Close_def split: option.splits)
  have "\<exists>t s2. close_finish e req (safePath_unchecked (filename m)) t = (Ok r, s2) \<and>
      files t = files s \<and> files s' = files s2"
  proof (cases "cl_Dirty req")
    case True
    then obtain c :: ClientState where "with_write (safePath_unchecked (filename m))
        (close_dirty e req (filename m) (safePath_unchecked (filename m)) (mode c)) s = (Ok r, s')"
      using assms(2,3) l m by (auto simp: Close_def Let_def split: option.splits)
    then obtain fe s2 where d: "close_dirty e req (filename m) (safePath_unchecked (filename m)) (mode c)
        (set_entry (safePath_unchecked (filename m)) fe (snd (getFileEntry (safePath_unchecked (filename m)) s)))
        = (Ok r, s2)" "s' = map_entry (safePath_unchecked (filename m)) ReleaseWrite s2"
      by (auto simp: with_write_def split: prod.splits option.splits)
    from close_dirty_Ok [OF d(1)] d(2) show ?thesis by (auto simp: files_table)
  next
    case False
    then show ?thesis using assms(2,3) l m files_table(2)
      by (fastforce simp: Close_def Let_def split: option.splits)
  qed
  then obtain t s2 where f: "close_finish e req (safePath_unchecked (filename m)) t = (Ok r, s2)"
    "files t = files s" "files s' = files s2" by blast
  have "leader_check s' = None"
    using leader_check_call [OF call_Close assms(1), of e req] l assms(3) by simp
  then show ?thesis using mget_finish [OF f(1)] f(2,3) m assms(4-6)
    by (auto simp: Close_def cached_def)
qed

lemma requests_applyCommitted [simp]: "requests (applyCommitted s) = requests s"
proof (induction s rule: applyCommitted.induct)
  case (1 s)
  then show ?case by (subst applyCommitted.simps) (auto simp: Let_def)
qed

lemma requests_committed: "requests (committed e req fn s) = requests s"
  by (simp add: committed_def applied_def Let_def logged_def send_all_def append_entry_def appendToDisk_def)

lemma requests_close_finish:
  "k \<noteq> cl_RequestId req \<Longrightarrow> mget (requests (snd (close_finish e req safe t))) k = mget (requests t) k"
  by (simp add: close_finish_def Let_def saveVersion_def try_disk_def split: option.splits)

theorem second_close_deadlocks_witness:
  "\<exists>s'. Close example_env (example_close ''r2'' ''8'') s' = (Deadlock, s') \<and>
    s' = snd (Close example_env (example_close ''r1'' ''7'') example_primary)"
proof -
  let ?s' = "snd (Close example_env (example_close ''r1'' ''7'') example_primary)"
  obtain r where c: "Close example_env (example_close ''r1'' ''7'') example_primary = (Ok r, ?s')"
    using Close_committed(1) [OF steady_primary can_commit_example healthy_example majority_example refl refl,
        of "''r1''" "''7''"] by (metis prod.collapse)
  have "mget (requests ?s') ''r2'' = None"
  proof -
    have f: "locks_free example_primary" using steady_primary by (simp add: steady_def server_inv_iff)
    have "mget (requests (snd (close_finish example_env (example_close ''r1'' ''7'') ''output/a''
        (committed example_env (example_close ''r1'' ''7'') ''output/a'' example_primary)))) ''r2'' = None"
      by (subst requests_close_finish) (simp_all add: requests_committed, simp add: example_close_def)
    then show ?thesis
      using Close_locked [OF can_commit_example f, of "''r1''" "''7''"]
        close_dirty_outcome [OF can_commit_example healthy_example, of "''r1''" "''7''"] majority_example
      by (simp add: case_prod_beta)
  qed
  then show ?thesis
    using second_close_deadlocks [OF _ _ c, of "example_close ''r2'' ''8''" example_env] server_ok_primary
    by (simp add: cached_def server_ok_def storage_ok_def example_close_def)
qed

text \<open>
  A request id used twice ends the process: once a request has been answered, a request of
  another kind with the same id makes its handler assert the wrong type on the cached response and
  panic; only \<open>Close\<close> checks the assertion.
\<close>

theorem reused_id_panics:
  assumes "wf_disk (disk s)" "cached e s (request_id q) = None" "serve e q s = (Ok r, s')"
    and "now e' - now e < RequestCacheTTL" "request_id q' = request_id q" "\<not> answers_to q' r"
    and "\<forall>c. q' \<noteq> CloseReq c"
  shows "serve e' q' s' = (Panic, s')"
proof -
  note m = serve_remembers [OF assms(2,3)]
  have l: "leader_check s' = None"
    using leader_check_call [OF serve_call assms(1), of e q] m assms(3) by simp
  have c: "cached e' s' (request_id q') = Some r"
    using m assms(4,5) by (simp add: cached_def remembered_def)
  show ?thesis using l c assms(6,7)
    by (cases q'; cases r) (simp_all add: Create_def Delete_def Open_def Write_def)
qed

theorem reused_id_panics_witness:
  "fst (serve example_env (DeleteReq \<lparr>de_RequestId = ''r1'', de_Filename = ''output/a''\<rparr>)
     (snd (serve example_env (CloseReq (example_close ''r1'' ''7'')) example_primary))) = Panic"
proof -
  let ?q = "CloseReq (example_close ''r1'' ''7'')"
  obtain s' where c: "serve example_env ?q example_primary = (Ok (CloseResponse ''closed'' 1), s')"
    using Close_committed(1) [OF steady_primary can_commit_example healthy_example majority_example refl refl,
        of "''r1''" "''7''"]
    by (cases "Close example_env (example_close ''r1'' ''7'') example_primary")
      (simp add: current_version_def, simp add: example_primary_def NewFileEntry_def)
  have "wf_disk (disk example_primary)" "cached example_env example_primary (request_id ?q) = None"
    using server_ok_primary by (simp_all add: server_ok_def storage_ok_def cached_def)
  from reused_id_panics [OF this c, of example_env
      "DeleteReq \<lparr>de_RequestId = ''r1'', de_Filename = ''output/a''\<rparr>"] c
  show ?thesis by (simp add: RequestCacheTTL_def minute_def second_def example_close_def)
qed

section \<open>\<open>Delete\<close> after a full synchronisation\<close>

text \<open>
  Deleting a synchronised file ends the process: a backup that received a file in a full
  synchronisation has an entry without condition variable for it; when it becomes primary, \<open>Delete\<close>
  removes the file and then panics in its deferred \<open>Broadcast\<close>.
\<close>

theorem delete_after_sync_panics:
  assumes "server_ok s" "role s = Backup" "flat_name fn" "mget (table s) fn = None"
    and "sync_file \<lparr>rep_Filename = fn, rep_Version = v, rep_Content = x\<rparr> s = Some s1"
    and "s2 = s1\<lparr>role := Primary\<rparr>" "cached e s2 (de_RequestId req) = None"
    and "sanitizePath (de_Filename req) = Some p" "normPath p = fn"
  shows "fst (Delete e req s2) = Panic \<and> stored s1 fn = Some x \<and> stored (snd (Delete e req s2)) fn = None"
proof -
  let ?full = "full_path s fn"
  obtain d where d: "os_WriteFile (disk s) ?full x = Some d"
    using assms(5) by (auto simp: sync_file_def split: option.splits)
  have w: "wf_disk (disk s)" using assms(1) by (simp add: server_ok_def storage_ok_def)
  have rd: "os_ReadFile d ?full = Some x" using read_WriteFile [OF w d] by simp
  have isf: "is_file d ?full" using is_file_read [OF wf_WriteFile [OF w d]] rd by simp
  then obtain i where i: "mget (names d) ?full = Some i" by (auto simp: is_file_def)
  obtain fd m where s1: "disk s1 = d" "rootDir s1 = rootDir s" "role s1 = Backup"
      "mget (table s1) fn = Some (NewFileEntry\<lparr>FD := fd, has_cond := False\<rparr>)"
    using assms(2,4,5) d i
    by (auto simp: sync_file_def getOrCreateFileMeta_def Let_def open_or_create_def full_path_def
        RebuildPrimeSet_def split: option.splits)
  have full: "full_path s2 fn = ?full" using s1 assms(6) by (simp add: full_path_def)
  have st: "os_Stat (disk s2) ?full = IsFile" using isf s1 assms(6) by (simp add: os_Stat_def)
  have l: "leader_check s2 = None" using assms(6) by (simp add: leader_check_def)
  obtain n where n: "fn = ''output/'' @ n" using assms(3) by (rule flat_nameE)
  then have ni: "\<not> HasPrefix fn ''input/''" by simp
  have del: "Delete e req s2 = delete_entry e (de_RequestId req) fn (NewFileEntry\<lparr>FD := fd, has_cond := False\<rparr>) s2"
    using l assms(6-9) ni st full s1(4) by (simp add: Delete_def Let_def)
  have free: "lock_free (NewFileEntry\<lparr>FD := fd, has_cond := False\<rparr>)"
    by (simp add: lock_free_def NewFileEntry_def)
  have "fst (Delete e req s2) = Panic"
    using del try_write_free [OF free] by (simp add: delete_entry_def Let_def NewFileEntry_def)
  moreover have "disk (snd (Delete e req s2)) = os_Remove d ?full" "rootDir (snd (Delete e req s2)) = rootDir s"
    using del try_write_free [OF free] st full s1 assms(6)
    by (simp_all add: delete_entry_def Let_def remember_def)
  then have "stored (snd (Delete e req s2)) fn = None"
    using assms(3) by (simp add: stored_def full_path_def read_Remove)
  moreover have "stored s1 fn = Some x"
    using assms(3) s1 rd by (simp add: stored_def full_path_def)
  ultimately show ?thesis by blast
qed

lemma WriteFile_example: "os_WriteFile example_disk ''storage/output/a'' x =
    Some (new_file example_disk ''storage/output/a'' x)"
proof -
  have "Dir ''storage/output/a'' = ''storage/output''"
    using Dir_file [OF proper_storage proper_a] by simp
  then show ?thesis
    by (simp add: os_WriteFile_def creatable_def is_dir_def is_file_def example_disk_def empty_disk_def dot_def)
qed

theorem delete_after_sync_panics_witness:
  "\<exists>s1. sync_file \<lparr>rep_Filename = ''output/a'', rep_Version = 3, rep_Content = ''7''\<rparr> (example_backup ''2'') = Some s1 \<and>
    fst (Delete example_env \<lparr>de_RequestId = ''r1'', de_Filename = ''output/a''\<rparr> (s1\<lparr>role := Primary\<rparr>)) = Panic"
proof -
  let ?f = "\<lparr>rep_Filename = ''output/a'', rep_Version = 3, rep_Content = ''7''\<rparr>"
  let ?req = "\<lparr>de_RequestId = ''r1'', de_Filename = ''output/a''\<rparr>"
  have t: "table (example_backup ''2'') = []" "files (example_backup ''2'') = []"
    "requests (example_backup ''2'') = []" by (simp_all add: example_backup_def NewServer_def)
  have fp: "full_path s ''output/a'' = ''storage/output/a''" if "rootDir s = ''storage''" for s
    using path_a(4) that by (simp add: full_path_def)
  obtain s1 where s1: "sync_file ?f (example_backup ''2'') = Some s1" "requests s1 = []"
    using t WriteFile_example [of "''7''"]
    by (simp add: sync_file_def fp getOrCreateFileMeta_def open_or_create_def new_file_def RebuildPrimeSet_def Let_def)
  have "mget (table (example_backup ''2'')) ''output/a'' = None" using t by simp
  moreover have "cached example_env (s1\<lparr>role := Primary\<rparr>) (de_RequestId ?req) = None"
    using s1(2) by (simp add: cached_def)
  moreover have "sanitizePath (de_Filename ?req) = Some ''output/a''" using path_a(1) by simp
  ultimately show ?thesis
    using delete_after_sync_panics [OF server_ok_example _ flat_a _ s1(1) refl _ _ path_a(2), of example_env ?req] s1(1)
    by auto
qed

section \<open>The failover\<close>

lemma elements_of_plain: "c \<in> set (elements p) \<Longrightarrow> noslash c"
proof -
  have "c \<in> set (split_slash cur p) \<Longrightarrow> noslash cur \<Longrightarrow> noslash c" for cur
    by (induction cur p rule: split_slash.induct) (auto simp: noslash_def split: if_splits)
  then show "c \<in> set (elements p) \<Longrightarrow> noslash c" by (simp add: elements_def noslash_def)
qed

lemma ReadDir_noslash:
  assumes "os_ReadDir d p = Some ns" "n \<in> set ns"
  shows "noslash n"
proof -
  have "c \<in> set (elements q)" if "child_of p q = Some c" for q c
  proof (cases "rev (elements q)")
    case (Cons a as)
    then have "a \<in> set (elements q)" by (metis in_set_conv_decomp rev_swap set_rev list.set_intros(1))
    then show ?thesis using that Cons by (auto simp: child_of_def split: if_splits)
  qed (use that in \<open>simp add: child_of_def\<close>)
  moreover obtain q where "child_of p q = Some n"
    using assms by (auto simp: os_ReadDir_def List.map_filter_def split: if_splits)
  ultimately show ?thesis using elements_of_plain by blast
qed

lemma load_primes_table: "\<exists>ps. load_primes n s = s\<lparr>filesPrimes := ps\<rparr> \<and>
    (\<forall>f. f \<noteq> n \<longrightarrow> mget ps f = mget (filesPrimes s) f)"
proof -
  have triv: "load_primes n s = s \<Longrightarrow> ?thesis"
    by (rule exI [of _ "filesPrimes s"]) simp
  show ?thesis
  proof (cases "load_primes n s = s")
    case False
    then obtain data where "load_primes n s =
        s\<lparr>filesPrimes := mput n (prime_set_of (parseNumbers data)) (filesPrimes s)\<rparr>"
      by (auto simp: load_primes_def split: if_splits option.splits)
    then show ?thesis by (intro exI [of _ "mput n (prime_set_of (parseNumbers data)) (filesPrimes s)"]) simp
  qed (rule triv)
qed

lemma fold_load_primes: "\<exists>ps. fold load_primes ns s = s\<lparr>filesPrimes := ps\<rparr> \<and>
    (\<forall>f. f \<notin> set ns \<longrightarrow> mget ps f = mget (filesPrimes s) f)"
proof (induction ns arbitrary: s)
  case Nil
  show ?case by (rule exI [of _ "filesPrimes s"]) simp
next
  case (Cons n ns)
  obtain ps where 1: "load_primes n s = s\<lparr>filesPrimes := ps\<rparr>"
    "\<forall>f. f \<noteq> n \<longrightarrow> mget ps f = mget (filesPrimes s) f" using load_primes_table by blast
  obtain qs where "fold load_primes ns (s\<lparr>filesPrimes := ps\<rparr>) = (s\<lparr>filesPrimes := ps\<rparr>)\<lparr>filesPrimes := qs\<rparr>"
    "\<forall>f. f \<notin> set ns \<longrightarrow> mget qs f = mget ps f" using Cons.IH [of "s\<lparr>filesPrimes := ps\<rparr>"] by auto
  then show ?case using 1 by (intro exI [of _ qs]) simp
qed

lemma rebuild_primes:
  assumes "flat_name fn"
  shows "\<exists>ps. rebuildAllPrimeSets s = s\<lparr>filesPrimes := ps\<rparr> \<and> mget ps fn = mget (filesPrimes s) fn"
proof -
  show ?thesis
  proof (cases "role s \<noteq> Primary \<or> os_ReadDir (disk s) (rootDir s) = None")
    case True
    then have "rebuildAllPrimeSets s = s" by (auto simp: rebuildAllPrimeSets_def)
    then show ?thesis by (intro exI [of _ "filesPrimes s"]) simp
  next
    case False
    then obtain ns where ns: "role s = Primary" "os_ReadDir (disk s) (rootDir s) = Some ns" by auto
    have "\<not> noslash fn" using assms by (auto simp: noslash_def elim: flat_nameE)
    then have "fn \<notin> set ns" using ReadDir_noslash [OF ns(2)] by blast
    then show ?thesis using ns fold_load_primes [of ns s] by (auto simp: rebuildAllPrimeSets_def)
  qed
qed

text \<open>
  C38. A new primary forgets the numbers of its files: the rebuilding of the prime sets reads only the
  top of the storage root, so it loads no file of \<open>output/\<close>; the first commit then replaces a file by
  the numbers of that commit alone, and what the file held before is gone.
\<close>

theorem failover_forgets_numbers:
  assumes "steady s" "can_commit e req s fn" "healthy e" "close_majority e s" "fair_order e"
    and "lastApplied s = int (length (log s))" "mget (filesPrimes s) fn = None"
    and "t = rebuildAllPrimeSets s"
  shows "stored t fn = stored s fn \<and> (\<exists>c. stored (snd (Close e req t)) fn = Some c \<and>
    set (parseNumbers c) = set (parseNumbers (cl_Data req)))"
proof -
  have fl: "flat_name fn" using assms(2) by (simp add: can_commit_def)
  obtain ps where t: "t = s\<lparr>filesPrimes := ps\<rparr>" "mget ps fn = None"
    using rebuild_primes [OF fl, of s] assms(7,8) by auto
  have "steady t"
    using assms(1) server_ok_cong [of t s] t(1)
    by (simp add: steady_def server_inv_def locks_free_def fds_ok_def handles_ok_def)
  moreover have "leader_check t = leader_check s" "cached e t rid = cached e s rid"
    "current_version fn t = current_version fn s" for rid
    using t(1) by (simp_all add: leader_check_def cached_def current_version_def)
  then have "can_commit e req t fn"
    using assms(2) t(1) by (simp add: can_commit_def)
  moreover have "close_majority e t"
    using assms(4) peers_cong [of t s e] t(1) by (simp add: close_majority_def)
  moreover have "lastApplied t = int (length (log t))" using assms(6) t(1) by simp
  moreover have "[] = (case mget (filesPrimes t) fn of Some S \<Rightarrow> S | None \<Rightarrow> [])" using t by simp
  ultimately have "\<exists>c. stored (snd (Close e req t)) fn = Some c \<and>
      set (parseNumbers c) = set [] \<union> set (parseNumbers (cl_Data req))"
    using union_of_commit [of t e req fn "[]" _ "snd (Close e req t)"] assms(3,5) by auto
  then show ?thesis using stored_cong [of t s] t(1) by simp
qed

text \<open>The example primary with a number already in its file.\<close>

definition example_old :: server where
  "example_old = example_primary\<lparr>disk := put_inode (disk example_primary) 0 ''5''\<rparr>"

lemma steady_old: "steady example_old"
proof -
  have i: "server_inv example_primary" "server_ok example_primary"
    using steady_primary by (simp_all add: steady_def)
  have n: "mget (names (disk example_primary)) ''storage/output/a'' = Some 0"
    by (simp add: example_primary_def new_file_def) (simp add: example_disk_def empty_disk_def)
  have "wf_disk (put_inode (disk example_primary) 0 ''5'')"
    using wf_put_inode [OF _ n] i(1) by (simp add: server_inv_def handles_ok_def)
  moreover have "is_file (put_inode d j x) p = is_file d p" "is_dir (put_inode d j x) p = is_dir d p" for d j x p
    by (simp_all add: is_file_def is_dir_def put_inode_def)
  ultimately have ok: "server_ok example_old" "wf_disk (disk example_old)"
    using i(2) by (simp_all add: server_ok_def storage_ok_def example_old_def)
  have "handles_ok example_old"
    using i(1) ok(2) by (auto simp: server_inv_def handles_ok_def example_old_def put_inode_def)
  then have "server_inv example_old"
    using i(1) by (simp add: server_inv_def locks_free_def fds_ok_def example_old_def)
  then show ?thesis using ok steady_primary by (simp add: steady_def example_old_def)
qed

theorem failover_forgets_numbers_witness:
  "parseNumbers (the (stored example_old ''output/a'')) = [5] \<and>
   (\<exists>c. stored (snd (Close example_env (example_close ''r1'' ''7'') (rebuildAllPrimeSets example_old)))
      ''output/a'' = Some c \<and> set (parseNumbers c) = {7})"
proof -
  have p: "parseNumbers ''7'' = [7]" "parseNumbers ''5'' = [5]" by code_simp+
  have f: "full_path example_old ''output/a'' = ''storage/output/a''"
    using path_a(4) by (simp add: full_path_def example_old_def)
  have st: "stored example_old ''output/a'' = Some ''5''"
    by (simp add: stored_def f os_ReadFile_def)
      (simp add: example_old_def example_primary_def put_inode_def new_file_def, simp add: example_disk_def empty_disk_def)
  have c: "can_commit example_env (example_close ''r1'' ''7'') example_old ''output/a''"
    using can_commit_example [of "''r1''" "''7''"]
    by (simp add: can_commit_def leader_check_def cached_def current_version_def example_old_def)
  have m: "close_majority example_env example_old"
    using majority_example peers_cong [of example_old example_primary example_env]
    by (simp add: close_majority_def example_old_def)
  show ?thesis
    using failover_forgets_numbers [OF steady_old c healthy_example m fair_example _ _ refl] st p
    by (simp add: example_old_def example_close_def)
qed

end
