(* ===== verification/WriteProps.thy ===== *)
theory WriteProps
  imports ServiceFaults
begin

text \<open>
  What a successful \<open>Write\<close> (the client's \<open>Commit\<close>) does: it logs and commits the data as they are,
  and the primary then appends to its own copy of the file the numbers in them that are new, which no
  entry of the log records.
\<close>

section \<open>Files in \<open>output/\<close>\<close>

lemma WriteFile_flat:
  assumes "storage_ok r d" "is_dir d (r @ ''/output'')" "proper n"
  obtains d' where "os_WriteFile d (r @ ''/output/'' @ n) x = Some d'" "storage_ok r d'"
    "is_dir d' (r @ ''/output'')"
    "\<And>q. os_ReadFile d' q = (if q = r @ ''/output/'' @ n then Some x else os_ReadFile d q)"
proof -
  have r: "proper r" "wf_disk d" using assms(1) by (simp_all add: storage_ok_def)
  have "creatable d (r @ ''/output/'' @ n)"
    using assms Dir_file [OF r(1) assms(3)] by (auto simp: creatable_def storage_ok_def)
  then obtain d' where d': "os_WriteFile d (r @ ''/output/'' @ n) x = Some d'"
    using WriteFile_enabled by blast
  have "is_dir d' (r @ ''/output'')" using assms(2) dirs_WriteFile [OF d'] by (simp add: is_dir_def)
  then show thesis
    using that [OF d' storage_ok_WriteFile [OF assms(1,3) d']] read_WriteFile [OF r(2) d'] by blast
qed

lemma storage_ok_Remove:
  "storage_ok r d \<Longrightarrow> storage_ok r (os_Remove d p)"
  "is_dir (os_Remove d p) q = is_dir d q"
  using wf_Remove [of d p]
  by (auto simp: storage_ok_def is_dir_def is_file_def) (simp_all add: os_Remove_def)

lemma proper_tmp: "proper n \<Longrightarrow> proper (n @ ''.tmp'')"
  by (auto simp: proper_def dot_def dotdot_def noslash_def append_eq_Cons_conv)

section \<open>A \<open>Write\<close> that reaches the replication\<close>

definition can_write :: "env \<Rightarrow> WriteRequest \<Rightarrow> server \<Rightarrow> string \<Rightarrow> bool" where
  "can_write e req s fn \<longleftrightarrow> leader_check s = None \<and> cached e s (wr_RequestId req) = None \<and>
     wr_Dirty req \<and> servers s \<noteq> [] \<and> flat_name fn \<and> safePath_unchecked fn = fn \<and>
     wr_Version req = current_version fn s \<and>
     (case mget (files s) (wr_Fd req) of None \<Rightarrow> False
      | Some m \<Rightarrow> filename m = fn \<and> (case mget (clients m) (getClientIDFromContext e) of
          None \<Rightarrow> False | Some c \<Rightarrow> mode c = FileMode_WRITE))"

definition write_majority :: "env \<Rightarrow> server \<Rightarrow> bool" where
  "write_majority e s \<longleftrightarrow> reaches_majority e s (alive_count s div 2 + 1)"

definition raw_entry :: "bytes \<Rightarrow> string \<Rightarrow> server \<Rightarrow> LogEntry" where
  "raw_entry data fn s = \<lparr>Index = int (length (log s)) + 1, Op = ''WRITE'', Filename = fn,
     Content = data, Version = current_version fn s + 1\<rparr>"

lemma write_entry_locked: "write_entry data fn (locked fn s) = raw_entry data fn s"
  by (simp add: write_entry_def raw_entry_def current_version_def entry_version_locked split: option.splits)

lemma Write_locked:
  assumes "can_write e req s fn" "locks_free s"
  shows "Write e req s = (case write_dirty e req fn FileMode_WRITE (locked fn s) of
    (r, t) \<Rightarrow> (r, map_entry fn ReleaseWrite t))"
  using assms(1)
  by (auto simp: can_write_def Write_def Let_def with_write_free [OF assms(2)] split: option.splits)

lemma write_dirty_commits:
  assumes "can_write e req s fn" "healthy e" "write_majority e s"
  shows "write_dirty e req fn FileMode_WRITE (locked fn s) =
    write_numbers e req fn (applied e (raw_entry (wr_Data req) fn s) fn s)"
proof -
  let ?le = "raw_entry (wr_Data req) fn s"
  obtain ok s1 where a: "append_entry e ?le (locked fn s) = (ok, s1)" by fastforce
  have s1: "ok" "s1 = snd (append_entry e ?le (locked fn s))"
    using a fst_append_entry [of e ?le "locked fn s"] assms(2) by (simp_all add: healthy_def)
  have v: "entry_version fn (locked fn s) = wr_Version req"
    using assms(1) by (simp add: can_write_def entry_version_locked current_version_def split: option.splits)
  have ci: "commitIndex s1 = commitIndex s" "servers s1 = servers s" "server_id s1 = server_id s"
    unfolding s1(2) by simp_all
  have al: "alive_count (send_all ?le (commitIndex s) s1) = alive_count s" by (simp add: alive_count_def ci)
  have m: "reaches_majority e (send_all ?le (commitIndex s) s1) (alive_count s div 2 + 1)"
    using assms(3) peers_cong [of "send_all ?le (commitIndex s) s1" s] ci by (simp add: write_majority_def)
  show ?thesis
    using assms v a s1(1) ci m al
    by (simp add: write_dirty_def write_entry_locked Let_def can_write_def applied_def logged_def
        s1(2) [symmetric])
qed

lemma stored_at:
  assumes "storage_ok r d" "proper n" "rootDir s = r" "disk s = d"
  shows "stored s (''output/'' @ n) = os_ReadFile d (r @ ''/output/'' @ n)"
proof -
  have "flat_name (''output/'' @ n)" using assms(2) by (simp add: flat_name_def)
  then show ?thesis using assms Join_output [of r n] by (simp add: stored_def full_path_def storage_ok_def)
qed

lemma write_numbers_stores:
  assumes "server_ok t" "is_dir (disk t) (rootDir t @ ''/output'')" "flat_name fn" "safePath_unchecked fn = fn"
    and "stored t fn = Some data" "mget (table t) fn = Some fe" "wr_Dirty req"
    and "uniq = fst (FilterUniquePrimes (parseNumbers (wr_Data req))
           (case mget (filesPrimes t) fn of Some S \<Rightarrow> S | None \<Rightarrow> []))"
  shows "fst (write_numbers e req fn t) = Ok (WriteResponse ''write successful'' (fe_version fe + 1))
    \<and> stored (snd (write_numbers e req fn t)) fn = Some (data @ format_lines uniq)
    \<and> log (snd (write_numbers e req fn t)) = log t"
proof -
  obtain n where n: "fn = ''output/'' @ n" "proper n" using assms(3) by (rule flat_nameE)
  let ?r = "rootDir t" and ?x = "format_lines uniq"
  have r: "storage_ok ?r (disk t)" "proper ?r" using assms(1) by (simp_all add: server_ok_def storage_ok_def)
  have full: "full_path t fn = ?r @ ''/output/'' @ n"
    using Join_output [OF r(2) n(2)] n(1) by (simp add: full_path_def)
  obtain d1 where d1: "os_WriteFile (disk t) (?r @ ''/output/'' @ n @ ''.tmp'') ?x = Some d1" "storage_ok ?r d1"
    "is_dir d1 (?r @ ''/output'')"
    "\<And>q. os_ReadFile d1 q = (if q = ?r @ ''/output/'' @ n @ ''.tmp'' then Some ?x else os_ReadFile (disk t) q)"
    by (rule WriteFile_flat [OF r(1) assms(2) proper_tmp [OF n(2)], of ?x]) blast
  have old: "os_ReadFile d1 (?r @ ''/output/'' @ n) = Some data"
    using d1(4) stored_at [OF r(1) n(2) refl refl] assms(5) n(1) by simp
  obtain d2 where d2: "os_WriteFile d1 (?r @ ''/output/'' @ n) (data @ ?x) = Some d2" "storage_ok ?r d2"
    "is_dir d2 (?r @ ''/output'')"
    "\<And>q. os_ReadFile d2 q = (if q = ?r @ ''/output/'' @ n then Some (data @ ?x) else os_ReadFile d1 q)"
    by (rule WriteFile_flat [OF d1(2,3) n(2), of "data @ ?x"]) blast
  have ap: "os_Append d1 (?r @ ''/output/'' @ n) ?x = Some d2" using old d2(1) by (simp add: os_Append_def)
  let ?tmp = "?r @ ''/output/'' @ n @ ''.tmp''"
  let ?old = "case mget (filesPrimes t) fn of Some S \<Rightarrow> S | None \<Rightarrow> []"
  let ?ps = "snd (FilterUniquePrimes (parseNumbers (wr_Data req)) ?old)"
  define t2 where "t2 = t\<lparr>disk := os_Remove d2 ?tmp, filesPrimes := mput fn ?ps (filesPrimes t)\<rparr>"
  have wn: "write_numbers e req fn t = write_finish e req fn t2"
    using d1(1) ap full assms(4,8)
    by (simp add: write_numbers_def Let_def case_prod_beta t2_def)
  have st2: "storage_ok ?r (disk t2)" "is_dir (disk t2) (?r @ ''/output'')" "rootDir t2 = ?r"
    using storage_ok_Remove d2(2,3) by (simp_all add: t2_def)
  have fn2: "stored t2 fn = Some (data @ ?x)"
    using stored_at [OF st2(1) n(2) st2(3) refl] d2(4) n(1) by (simp add: t2_def read_Remove)
  let ?t3 = "map_entry fn (\<lambda>fe. fe\<lparr>fe_version := fe_version fe + 1\<rparr>) t2"
  have t3: "server_ok ?t3" "is_dir (disk ?t3) (rootDir ?t3 @ ''/output'')" "stored ?t3 = stored t2"
    using st2 stored_cong [of ?t3 t2] by (simp_all add: server_ok_def)
  have ev: "entry_version fn t2 = fe_version fe" "entry_version fn ?t3 = fe_version fe + 1"
    using assms(6) by (simp_all add: entry_version_def t2_def table_map_entry)
  have ev': "entry_version fn (saveVersion fn v ?t3) = fe_version fe + 1" for v
    using ev(2) by (simp add: entry_version_def)
  have "stored (saveVersion fn (fe_version fe + 1) ?t3) fn = Some (data @ ?x)"
    using stored_saveVersion [OF t3(1) assms(3) t3(2), of "fe_version fe + 1"] t3(3) fn2 by simp
  moreover have "stored (remember e rid rr u) = stored u" for rid rr u
    by (rule stored_cong) simp_all
  moreover have "log t2 = log t" by (simp add: t2_def)
  ultimately show ?thesis using assms(7) ev ev' by (simp add: wn write_finish_def Let_def)
qed

text \<open>
  \<open>Write\<close> makes the primary differ from its backups: it commits the data as they are, so the
  replay of the log, which is what the backups store, has exactly the data; the primary's own file
  then also gets the numbers of the data that were new, once more.
\<close>

theorem write_diverges_from_log:
  assumes "steady s" "can_write e req s fn" "healthy e" "write_majority e s"
    and "lastApplied s = int (length (log s))" "s' = snd (Write e req s)"
    and "uniq = fst (FilterUniquePrimes (parseNumbers (wr_Data req))
           (case mget (filesPrimes s) fn of Some S \<Rightarrow> S | None \<Rightarrow> []))"
  shows "fst (Write e req s) = Ok (WriteResponse ''write successful'' (current_version fn s + 1)) \<and>
    stored s' fn = Some (wr_Data req @ format_lines uniq) \<and>
    (\<forall>m0. replay (log s') m0 fn = Some (wr_Data req))"
proof -
  let ?le = "raw_entry (wr_Data req) fn s"
  let ?t = "applied e ?le fn s"
  have st: "locks_free s" "server_ok s" "list_all flat_entry (log s)" "0 \<le> lastApplied s"
    "lastApplied s \<le> int (length (log s))" using assms(1) by (simp_all add: steady_def server_inv_iff)
  have fl: "flat_name fn" "wr_Dirty req" "safePath_unchecked fn = fn"
    using assms(2) by (simp_all add: can_write_def)
  have le: "Index ?le = int (length (log s)) + 1" "Op ?le = ''WRITE''" "Filename ?le = fn" "Content ?le = wr_Data req"
    by (simp_all add: raw_entry_def)
  note ca = applied_ok [OF st(4,5,2,3) fl(1) le(1-3), of e]
  obtain fe where fe: "mget (table ?t) fn = Some fe" "fe_version fe = current_version fn s"
    using table_locked [of fn s] by auto
  have stt: "stored ?t fn = Some (wr_Data req)"
    using ca assms(5) le by (simp add: to_apply_def replay_def store_step_def)
  have ok: "server_ok ?t" "is_dir (disk ?t) (rootDir ?t @ ''/output'')" using ca by simp_all
  have fp: "uniq = fst (FilterUniquePrimes (parseNumbers (wr_Data req))
      (case mget (filesPrimes ?t) fn of Some S \<Rightarrow> S | None \<Rightarrow> []))" using assms(7) by simp
  note wn = write_numbers_stores [OF ok fl(1,3) stt fe(1) fl(2) fp, of e]
  have w: "Write e req s = (fst (write_numbers e req fn ?t),
      map_entry fn ReleaseWrite (snd (write_numbers e req fn ?t)))"
    using Write_locked [OF assms(2) st(1)] write_dirty_commits [OF assms(2-4)] by (simp add: case_prod_beta)
  have "stored s' = stored (snd (write_numbers e req fn ?t))" "log s' = log s @ [?le]"
    using w assms(6) wn stored_cong [of s' "snd (write_numbers e req fn ?t)"] by simp_all
  then show ?thesis using w wn fe(2) le by (simp add: replay_def store_step_def)
qed

theorem write_diverges_from_log_witness:
  "\<exists>s'. stored s' ''output/a'' = Some (''7'' @ ''7'' @ [CHR 0x0A]) \<and>
    replay (log s') (stored example_primary) ''output/a'' = Some ''7''"
proof -
  let ?req = "\<lparr>wr_RequestId = ''w1'', wr_Fd = 0, wr_Dirty = True, wr_Version = 0, wr_Data = ''7''\<rparr>"
  have c: "can_write example_env ?req example_primary ''output/a''"
    by (simp add: can_write_def leader_check_def cached_def safe_a)
      (simp add: example_primary_def example_servers_def current_version_def NewFileEntry_def)
  have m: "write_majority example_env example_primary"
    by (simp add: write_majority_def reaches_majority_def peer_answers_def peers_def alive_count_def)
      (simp add: example_env_def example_servers_def)
  have f: "format_lines (fst (FilterUniquePrimes (parseNumbers ''7'') [])) = ''7'' @ [CHR 0x0A]" by code_simp
  show ?thesis
    using write_diverges_from_log [OF steady_primary c healthy_example m _ refl refl] f
    by (intro exI [of _ "snd (Write example_env ?req example_primary)"]) simp
qed

end
