(* ===== verification/Client.thy ===== *)
theory Client
  imports Handlers
begin

text \<open>
  The client of the file service (\<open>client_basics.go\<close>) and \<open>DialClient\<close> of \<open>connection.go\<close>: the cache
  of files with its LRU list, the retries and redirects, and the operations. The service is a
  parameter, a record with one function for each call of \<open>pb.FileServiceClient\<close>; the state of
  everything beyond the connection is the field \<open>world\<close>.
\<close>

section \<open>The service behind the connection\<close>

text \<open>
  The first argument of a call is the address of the connection; \<open>Close\<close>, \<open>Write\<close> and \<open>Read\<close> also
  carry the client id as metadata. A stream is the chunks received and the error that ended it, if
  it was not the end of the file. \<open>dial_error\<close> is the error of \<open>grpc.NewClient\<close> for an address.
\<close>

record 'w FileServiceClient =
  rpc_Create :: "string \<Rightarrow> CreateRequest \<Rightarrow> 'w \<Rightarrow> (rpc_error + response) \<times> 'w"
  rpc_Open :: "string \<Rightarrow> FileRequest \<Rightarrow> 'w \<Rightarrow> (rpc_error + response) \<times> 'w"
  rpc_Close :: "string \<Rightarrow> string \<Rightarrow> CloseRequest \<Rightarrow> 'w \<Rightarrow> (rpc_error + response) \<times> 'w"
  rpc_Write :: "string \<Rightarrow> string \<Rightarrow> WriteRequest \<Rightarrow> 'w \<Rightarrow> (rpc_error + response) \<times> 'w"
  rpc_Delete :: "string \<Rightarrow> DeleteRequest \<Rightarrow> 'w \<Rightarrow> (rpc_error + response) \<times> 'w"
  rpc_Read :: "string \<Rightarrow> string \<Rightarrow> ReadRequest \<Rightarrow> 'w \<Rightarrow> (rpc_error + bytes list \<times> rpc_error option) \<times> 'w"
  rpc_TestAuth :: "string \<Rightarrow> string \<Rightarrow> 'w \<Rightarrow> (rpc_error + i32) \<times> 'w"
  rpc_GetLeader :: "string \<Rightarrow> 'w \<Rightarrow> (rpc_error + string) \<times> 'w"
  dial_error :: "string \<Rightarrow> string option"

section \<open>State\<close>

record CacheEntry =
  ce_Filename :: string
  LocalPath :: string
  ce_Version :: i32
  Dirty :: bool
  ce_Fd :: i32
  Closed :: bool
  ce_Mode :: FileMode
  Valid :: bool

record 'w client =
  address :: string
  cache :: "(string, CacheEntry) gomap"
  lru :: "string list"
  requestCounter :: u64
  local_disk :: disk
  world :: 'w

definition maxTries :: nat where "maxTries = 3"
definition maxCacheEntries :: nat where "maxCacheEntries = 20"
definition ClientCacheDir :: string where "ClientCacheDir = ''./cache''"

text \<open>\<open>Crash\<close> is a call of \<open>os.Exit\<close> or a panic: the client's process ends.\<close>

datatype 'a result = Value 'a | Err go_error | Crash

text \<open>The clock at each request, and the two environment variables that inject crashes.\<close>

record client_env =
  clock :: "u64 \<Rightarrow> int"
  fail_before_commit :: bool
  fail_after_chunks :: string

definition make_dirs :: "string \<Rightarrow> disk \<Rightarrow> disk" where
  "make_dirs p d = (case os_MkdirAll d p of Some d' \<Rightarrow> d' | None \<Rightarrow> d)"

text \<open>
  The counter of the request ids is a variable of the process, not of the client; a process makes one
  client, which carries the counter, \<open>n\<close> when the client is made.
\<close>

definition NewClient :: "u64 \<Rightarrow> string \<Rightarrow> disk \<Rightarrow> 'w \<Rightarrow> 'w client" where
  "NewClient n addr d w = \<lparr>address = addr, cache = [], lru = [], requestCounter = n,
     local_disk = make_dirs (Clean ClientCacheDir) d, world = w\<rparr>"

definition generateRequestID :: "client_env \<Rightarrow> 'w client \<Rightarrow> string \<times> 'w client" where
  "generateRequestID ev c = (let n = requestCounter c + 1
     in (format_int (clock ev n) @ ''-'' @ format_uint n, c\<lparr>requestCounter := n\<rparr>))"

section \<open>The cache\<close>

definition evictable :: "'w client \<Rightarrow> string \<Rightarrow> bool" where
  "evictable c name = (case mget (cache c) name of None \<Rightarrow> False
     | Some en \<Rightarrow> Closed en \<and> \<not> Dirty en \<and> ce_Fd en = 0)"

definition evictFromCache :: "'w client \<Rightarrow> go_error option \<times> 'w client" where
  "evictFromCache c = (case find (evictable c) (lru c) of
       None \<Rightarrow> (Some (Plain ''max number of open files reached, close a file before opening another''), c)
     | Some name \<Rightarrow> (None, c\<lparr>
         local_disk := (case mget (cache c) name of Some en \<Rightarrow> os_Remove (local_disk c) (LocalPath en)
                        | None \<Rightarrow> local_disk c),
         cache := mdel name (cache c), lru := remove1 name (lru c)\<rparr>))"

definition touchLRU :: "string \<Rightarrow> 'w client \<Rightarrow> 'w client" where
  "touchLRU name c = c\<lparr>lru := remove1 name (lru c) @ [name]\<rparr>"

definition put_cache :: "string \<Rightarrow> CacheEntry \<Rightarrow> 'w client \<Rightarrow> 'w client" where
  "put_cache name en c = c\<lparr>cache := mput name en (cache c)\<rparr>"

text \<open>Space for one more file, as \<open>Create\<close> and \<open>Open\<close> make it.\<close>

definition make_space :: "'w client \<Rightarrow> go_error option \<times> 'w client" where
  "make_space c = (if mlen (cache c) \<ge> maxCacheEntries then evictFromCache c else (None, c))"

section \<open>Calls and retries\<close>

definition call :: "(string \<Rightarrow> 'w \<Rightarrow> 'r \<times> 'w) \<Rightarrow> 'w client \<Rightarrow> 'r \<times> 'w client" where
  "call f c = (case f (address c) (world c) of (r, w) \<Rightarrow> (r, c\<lparr>world := w\<rparr>))"

definition transient :: "rpc_error \<Rightarrow> bool" where
  "transient e \<longleftrightarrow> err_code e = Unavailable \<or> err_code e = DeadlineExceeded"

definition reconnectToLeader :: "'w FileServiceClient \<Rightarrow> string \<Rightarrow> 'w client \<Rightarrow> go_error option \<times> 'w client" where
  "reconnectToLeader svc addr c = (case dial_error svc addr of
       Some t \<Rightarrow> (Some (Plain t), c) | None \<Rightarrow> (None, c\<lparr>address := addr\<rparr>))"

text \<open>
  The loop of \<open>Create\<close> and \<open>Open\<close>: it follows a redirect, and tries again after any error (the test
  for a transient one only decides about the pause). Without an answer or an error, which
  \<open>maxTries > 0\<close> excludes, the caller would use a nil response.
\<close>

fun retry_call :: "'w FileServiceClient \<Rightarrow> (string \<Rightarrow> 'w \<Rightarrow> (rpc_error + 'r) \<times> 'w) \<Rightarrow> nat \<Rightarrow>
    go_error option \<Rightarrow> 'w client \<Rightarrow> 'r result \<times> 'w client" where
  "retry_call svc f 0 lastErr c = ((case lastErr of Some er \<Rightarrow> Err er | None \<Rightarrow> Crash), c)"
| "retry_call svc f (Suc n) lastErr c =
     (case call f c of
        (Inr r, c1) \<Rightarrow> (Value r, c1)
      | (Inl er, c1) \<Rightarrow> (case extractLeaderAddr er of
            Some addr \<Rightarrow> (case reconnectToLeader svc addr c1 of
                (Some er', c2) \<Rightarrow> (Err er', c2)
              | (None, c2) \<Rightarrow> retry_call svc f n (Some (Status er)) c2)
          | None \<Rightarrow> retry_call svc f n (Some (Status er)) c1))"

text \<open>\<open>testAuth\<close> tries again only after a transient error, and follows no redirect.\<close>

fun testAuth_loop :: "'w FileServiceClient \<Rightarrow> string \<Rightarrow> nat \<Rightarrow> go_error option \<Rightarrow> 'w client \<Rightarrow>
    i32 result \<times> 'w client" where
  "testAuth_loop svc name 0 lastErr c = ((case lastErr of Some er \<Rightarrow> Err er | None \<Rightarrow> Crash), c)"
| "testAuth_loop svc name (Suc n) lastErr c =
     (case call (\<lambda>a. rpc_TestAuth svc a name) c of
        (Inr v, c1) \<Rightarrow> (Value v, c1)
      | (Inl er, c1) \<Rightarrow> if transient er then testAuth_loop svc name n (Some (Status er)) c1
                        else (Err (Status er), c1))"

definition testAuth :: "'w FileServiceClient \<Rightarrow> string \<Rightarrow> 'w client \<Rightarrow> i32 result \<times> 'w client" where
  "testAuth svc name c = testAuth_loop svc name maxTries None c"

text \<open>\<open>retryWrite\<close>, which nothing calls, tries again after every error.\<close>

fun retryWrite_loop :: "'w FileServiceClient \<Rightarrow> string \<Rightarrow> WriteRequest \<Rightarrow> nat \<Rightarrow> go_error option \<Rightarrow>
    'w client \<Rightarrow> response result \<times> 'w client" where
  "retryWrite_loop svc cid req 0 lastErr c = ((case lastErr of Some er \<Rightarrow> Err er | None \<Rightarrow> Crash), c)"
| "retryWrite_loop svc cid req (Suc n) lastErr c =
     (case call (\<lambda>a. rpc_Write svc a cid req) c of
        (Inr r, c1) \<Rightarrow> (Value r, c1)
      | (Inl er, c1) \<Rightarrow> retryWrite_loop svc cid req n (Some (Status er)) c1)"

definition retryWrite :: "'w FileServiceClient \<Rightarrow> string \<Rightarrow> WriteRequest \<Rightarrow> 'w client \<Rightarrow> response result \<times> 'w client" where
  "retryWrite svc cid req c = retryWrite_loop svc cid req maxTries None c"

section \<open>\<open>Create\<close> and \<open>Open\<close>\<close>

definition local_path :: "string \<Rightarrow> string" where
  "local_path name = Join ClientCacheDir name"

definition open_failure :: "disk \<Rightarrow> string \<Rightarrow> go_error" where
  "open_failure d p = Plain (''open '' @ p @ '': '' @
     (if is_dir d p then ''is a directory'' else if below_file d p then ''not a directory''
      else ''no such file or directory''))"

text \<open>The empty local copy and the new entry of the cache.\<close>

definition new_entry :: "string \<Rightarrow> response \<Rightarrow> bool \<Rightarrow> FileMode \<Rightarrow> 'w client \<Rightarrow> CacheEntry result \<times> 'w client" where
  "new_entry name resp cl md c =
     (let p = local_path name; d = make_dirs (Dir p) (local_disk c)
      in case os_WriteFile d p [] of
          None \<Rightarrow> (Err (open_failure d p), c\<lparr>local_disk := d\<rparr>)
        | Some d' \<Rightarrow>
            let en = \<lparr>ce_Filename = name, LocalPath = p, ce_Version = resp_version resp, Dirty = False,
                  ce_Fd = resp_fd resp, Closed = cl, ce_Mode = md, Valid = False\<rparr>
            in (Value en, touchLRU name (put_cache name en (c\<lparr>local_disk := d'\<rparr>))))"

definition client_Create :: "'w FileServiceClient \<Rightarrow> client_env \<Rightarrow> string \<Rightarrow> string \<Rightarrow> 'w client \<Rightarrow>
    CacheEntry result \<times> 'w client" where
  "client_Create svc ev name cid c = (case make_space c of
       (Some er, c1) \<Rightarrow> (Err er, c1)
     | (None, c1) \<Rightarrow> (case generateRequestID ev c1 of (rid, c2) \<Rightarrow>
         let req = \<lparr>cr_RequestId = rid, cr_Filename = name, cr_ClientId = cid, cr_Mode = 0\<rparr>
         in case retry_call svc (\<lambda>a. rpc_Create svc a req) maxTries None c2 of
             (Err er, c3) \<Rightarrow> (Err er, c3)
           | (Crash, c3) \<Rightarrow> (Crash, c3)
           | (Value resp, c3) \<Rightarrow> new_entry name resp True 0 c3))"

definition open_remote :: "'w FileServiceClient \<Rightarrow> client_env \<Rightarrow> string \<Rightarrow> FileMode \<Rightarrow> string \<Rightarrow>
    'w client \<Rightarrow> CacheEntry result \<times> 'w client" where
  "open_remote svc ev name md cid c = (case generateRequestID ev c of (rid, c1) \<Rightarrow>
     let req = \<lparr>fr_RequestId = rid, fr_Filename = name, fr_Mode = md, fr_ClientId = cid\<rparr>
     in case retry_call svc (\<lambda>a. rpc_Open svc a req) maxTries None c1 of
         (Err er, c2) \<Rightarrow> (Err er, c2)
       | (Crash, c2) \<Rightarrow> (Crash, c2)
       | (Value resp, c2) \<Rightarrow> new_entry name resp False md c2)"

text \<open>A cached file whose version is current keeps its local copy, which is taken for valid.\<close>

definition open_cached :: "'w FileServiceClient \<Rightarrow> client_env \<Rightarrow> string \<Rightarrow> FileMode \<Rightarrow> string \<Rightarrow>
    CacheEntry \<Rightarrow> 'w client \<Rightarrow> CacheEntry result \<times> 'w client" where
  "open_cached svc ev name md cid en c =
     (if \<not> Closed en \<and> ce_Mode en \<noteq> md \<and> ce_Mode en = FileMode_READ
      then (Err (Status (RpcError FailedPrecondition
        ''file already open in read mode, to open in write, close file then open in write mode'')), c)
      else let en1 = en\<lparr>Valid := True, ce_Mode := md\<rparr>;
               c1 = touchLRU name (put_cache name en1 c)
           in case generateRequestID ev c1 of (rid, c2) \<Rightarrow>
             let req = \<lparr>fr_RequestId = rid, fr_Filename = name, fr_Mode = md, fr_ClientId = cid\<rparr>
             in case call (\<lambda>a. rpc_Open svc a req) c2 of
                 (Inl er, c3) \<Rightarrow> (Err (Status er), c3)
               | (Inr resp, c3) \<Rightarrow>
                   let en2 = en1\<lparr>ce_Fd := resp_fd resp, Closed := False\<rparr>
                   in (Value en2, put_cache name en2 c3))"

definition client_Open :: "'w FileServiceClient \<Rightarrow> client_env \<Rightarrow> string \<Rightarrow> FileMode \<Rightarrow> string \<Rightarrow>
    'w client \<Rightarrow> CacheEntry result \<times> 'w client" where
  "client_Open svc ev name md cid c = (case mget (cache c) name of
       Some en \<Rightarrow>
         if Dirty en then (Value en, c)
         else (case testAuth svc name c of
             (Err er, c1) \<Rightarrow> (Err er, c1)
           | (Crash, c1) \<Rightarrow> (Crash, c1)
           | (Value v, c1) \<Rightarrow>
               if ce_Version en = v then open_cached svc ev name md cid en c1
               else open_remote svc ev name md cid c1)
     | None \<Rightarrow> (case make_space c of
         (Some er, c1) \<Rightarrow> (Err er, c1)
       | (None, c1) \<Rightarrow> open_remote svc ev name md cid c1))"

section \<open>Reading and writing the local copy\<close>

definition file_not_open :: go_error where
  "file_not_open = Status (RpcError NotFound ''file not open'')"

definition client_ReadFile :: "string \<Rightarrow> string \<Rightarrow> 'w client \<Rightarrow> bytes result \<times> 'w client" where
  "client_ReadFile name path c = (case mget (cache c) name of
       None \<Rightarrow> (Err file_not_open, c)
     | Some en \<Rightarrow> (case os_ReadFile (local_disk c) path of
         None \<Rightarrow> (Err (open_failure (local_disk c) path), c)
       | Some data \<Rightarrow> (Value data, touchLRU name c)))"

text \<open>The loop over the stream; \<open>True\<close> when the injected crash ends the process.\<close>

fun recv_chunks :: "int \<Rightarrow> int \<Rightarrow> bytes list \<Rightarrow> bytes \<Rightarrow> bool \<times> bytes" where
  "recv_chunks failAfter n [] acc = (False, acc)"
| "recv_chunks failAfter n (x # xs) acc =
     (if failAfter > 0 \<and> n + 1 \<ge> failAfter then (True, acc) else recv_chunks failAfter (n + 1) xs (acc @ x))"

definition failAfterVal :: "client_env \<Rightarrow> int" where
  "failAfterVal ev = (case Atoi (fail_after_chunks ev) of Some v \<Rightarrow> v | None \<Rightarrow> - 1)"

definition os_Rename :: "disk \<Rightarrow> string \<Rightarrow> string \<Rightarrow> disk option" where
  "os_Rename d p q = (case mget (names d) p of None \<Rightarrow> None
     | Some i \<Rightarrow> if creatable d q then Some (d\<lparr>names := mput q i (mdel p (names d))\<rparr>) else None)"

definition read_remote :: "'w FileServiceClient \<Rightarrow> client_env \<Rightarrow> string \<Rightarrow> string \<Rightarrow> CacheEntry \<Rightarrow>
    'w client \<Rightarrow> bytes result \<times> 'w client" where
  "read_remote svc ev name cid en c =
     (let p = LocalPath en; tmp = p @ ''.tmp''
      in case os_WriteFile (local_disk c) tmp [] of
          None \<Rightarrow> (Err (open_failure (local_disk c) tmp), c)
        | Some d \<Rightarrow>
            case call (\<lambda>a. rpc_Read svc a cid \<lparr>rd_Filename = name, rd_Fd = ce_Fd en\<rparr>) (c\<lparr>local_disk := d\<rparr>) of
              (Inl er, c1) \<Rightarrow> (Err (Status er), c1)
            | (Inr (xs, end_error), c1) \<Rightarrow>
                (case recv_chunks (failAfterVal ev) 0 xs [] of (crashed, data) \<Rightarrow>
                  let d1 = (case os_WriteFile (local_disk c1) tmp data of Some d' \<Rightarrow> d' | None \<Rightarrow> local_disk c1);
                      c2 = c1\<lparr>local_disk := d1\<rparr>
                  in if crashed then (Crash, c2)
                     else (case end_error of
                         Some er \<Rightarrow> (Err (Status er), c2\<lparr>local_disk := os_Remove d1 tmp\<rparr>)
                       | None \<Rightarrow> (case os_Rename d1 tmp p of
                           None \<Rightarrow> (Err (Plain (''rename '' @ tmp @ '' '' @ p)), c2)
                         | Some d2 \<Rightarrow> (case os_ReadFile d2 p of
                             None \<Rightarrow> (Err (open_failure d2 p), c2\<lparr>local_disk := d2\<rparr>)
                           | Some x \<Rightarrow> (Value x, touchLRU name (c2\<lparr>local_disk := d2\<rparr>)))))))"

definition client_Read :: "'w FileServiceClient \<Rightarrow> client_env \<Rightarrow> string \<Rightarrow> string \<Rightarrow> 'w client \<Rightarrow>
    bytes result \<times> 'w client" where
  "client_Read svc ev name cid c = (case mget (cache c) name of
       None \<Rightarrow> (Err file_not_open, c)
     | Some en \<Rightarrow> if Valid en then client_ReadFile name (LocalPath en) c
                  else read_remote svc ev name cid en c)"

definition dirtied :: "string \<Rightarrow> CacheEntry \<Rightarrow> disk \<Rightarrow> 'w client \<Rightarrow> 'w client" where
  "dirtied name en d c =
     touchLRU name (put_cache name (en\<lparr>Dirty := True, Valid := False\<rparr>) (c\<lparr>local_disk := d\<rparr>))"

definition client_WriteFile :: "string \<Rightarrow> bytes \<Rightarrow> 'w client \<Rightarrow> unit result \<times> 'w client" where
  "client_WriteFile name data c = (case mget (cache c) name of
       None \<Rightarrow> (Err file_not_open, c)
     | Some en \<Rightarrow>
         if ce_Mode en = FileMode_READ
         then (Err (Status (RpcError PermissionDenied ''file opened in read mode'')), c)
         else (case os_WriteFile (local_disk c) (LocalPath en) data of
             None \<Rightarrow> (Err (open_failure (local_disk c) (LocalPath en)), c)
           | Some d \<Rightarrow> (Value (), dirtied name en d c)))"

definition client_AppendFile :: "string \<Rightarrow> bytes \<Rightarrow> 'w client \<Rightarrow> unit result \<times> 'w client" where
  "client_AppendFile name data c = (case mget (cache c) name of
       None \<Rightarrow> (Err file_not_open, c)
     | Some en \<Rightarrow>
         if ce_Mode en = FileMode_READ
         then (Err (Status (RpcError PermissionDenied ''file opened in read mode'')), c)
         else (case (if is_file (local_disk c) (LocalPath en)
                     then os_Append (local_disk c) (LocalPath en) data else None) of
             None \<Rightarrow> (Err (open_failure (local_disk c) (LocalPath en)), c)
           | Some d \<Rightarrow> (Value (), dirtied name en d c)))"

definition GetFileStatus :: "string \<Rightarrow> 'w client \<Rightarrow> bool result" where
  "GetFileStatus name c = (case mget (cache c) name of
       None \<Rightarrow> Err file_not_open | Some en \<Rightarrow> Value (Dirty en))"

section \<open>\<open>Commit\<close>, \<open>Close\<close> and \<open>Delete\<close>\<close>

text \<open>
  After an error that names the leader the call is repeated there, and its result is dropped: the
  operation still returns the first error.
\<close>

definition call_redirect :: "'w FileServiceClient \<Rightarrow> (string \<Rightarrow> 'w \<Rightarrow> (rpc_error + 'r) \<times> 'w) \<Rightarrow>
    'w client \<Rightarrow> (go_error + 'r) \<times> 'w client" where
  "call_redirect svc f c = (case call f c of
       (Inr r, c1) \<Rightarrow> (Inr r, c1)
     | (Inl er, c1) \<Rightarrow> (case extractLeaderAddr er of
         None \<Rightarrow> (Inl (Status er), c1)
       | Some addr \<Rightarrow> (case reconnectToLeader svc addr c1 of
           (Some er', c2) \<Rightarrow> (Inl er', c2)
         | (None, c2) \<Rightarrow> (Inl (Status er), snd (call f c2)))))"

definition client_Commit :: "'w FileServiceClient \<Rightarrow> client_env \<Rightarrow> string \<Rightarrow> string \<Rightarrow> 'w client \<Rightarrow>
    unit result \<times> 'w client" where
  "client_Commit svc ev name cid c = (case mget (cache c) name of
       None \<Rightarrow> (Err (Plain ''file not in cache''), c)
     | Some en \<Rightarrow>
         if Closed en then (Err (Plain ''file is closed''), c)
         else if \<not> Dirty en then (Value (), c)
         else (case generateRequestID ev c of (rid, c1) \<Rightarrow>
           (case os_ReadFile (local_disk c1) (LocalPath en) of
              None \<Rightarrow> (Err (open_failure (local_disk c1) (LocalPath en)), c1)
            | Some data \<Rightarrow>
                if fail_before_commit ev then (Crash, c1)
                else let req = \<lparr>wr_RequestId = rid, wr_Fd = ce_Fd en, wr_Dirty = Dirty en,
                       wr_Version = ce_Version en, wr_Data = data\<rparr>
                     in (case call_redirect svc (\<lambda>a. rpc_Write svc a cid req) c1 of
                          (Inl er, c2) \<Rightarrow> (Err er, c2)
                        | (Inr resp, c2) \<Rightarrow> (Value (),
                            put_cache name (en\<lparr>ce_Version := resp_version resp, Dirty := False\<rparr>) c2)))))"

definition client_Close :: "'w FileServiceClient \<Rightarrow> client_env \<Rightarrow> string \<Rightarrow> string \<Rightarrow> 'w client \<Rightarrow>
    unit result \<times> 'w client" where
  "client_Close svc ev name cid c = (case mget (cache c) name of
       None \<Rightarrow> (Err file_not_open, c)
     | Some en \<Rightarrow> (case generateRequestID ev c of (rid, c1) \<Rightarrow>
         (case (if Dirty en then os_ReadFile (local_disk c1) (LocalPath en) else Some []) of
            None \<Rightarrow> (Err (open_failure (local_disk c1) (LocalPath en)), c1)
          | Some data \<Rightarrow>
              if fail_before_commit ev then (Crash, c1)
              else let req = \<lparr>cl_RequestId = rid, cl_Fd = ce_Fd en, cl_Dirty = Dirty en,
                     cl_Version = ce_Version en, cl_Data = data\<rparr>
                   in (case call_redirect svc (\<lambda>a. rpc_Close svc a cid req) c1 of
                        (Inl er, c2) \<Rightarrow> (Err er, c2)
                      | (Inr resp, c2) \<Rightarrow> (Value (), touchLRU name (put_cache name
                          (en\<lparr>ce_Version := resp_version resp, Dirty := False, Closed := True, ce_Fd := 0\<rparr>) c2))))))"

definition client_Delete :: "'w FileServiceClient \<Rightarrow> client_env \<Rightarrow> string \<Rightarrow> 'w client \<Rightarrow>
    unit result \<times> 'w client" where
  "client_Delete svc ev name c =
     (if (case mget (cache c) name of Some en \<Rightarrow> Dirty en | None \<Rightarrow> False)
      then (Err (Status (RpcError FailedPrecondition ''cannot delete: file has uncommitted changes'')), c)
      else if (case mget (cache c) name of Some en \<Rightarrow> os_Stat (local_disk c) (LocalPath en) = NotDir | None \<Rightarrow> False)
      then (Err (Plain (''remove '' @ local_path name @ '': not a directory'')), c)
      else let c1 = (case mget (cache c) name of None \<Rightarrow> c
             | Some en \<Rightarrow> c\<lparr>local_disk := os_Remove (local_disk c) (LocalPath en), cache := mdel name (cache c)\<rparr>)
      in case generateRequestID ev c1 of (rid, c2) \<Rightarrow>
        (case call_redirect svc (\<lambda>a. rpc_Delete svc a \<lparr>de_RequestId = rid, de_Filename = name\<rparr>) c2 of
           (Inl er, c3) \<Rightarrow> (Err er, c3)
         | (Inr resp, c3) \<Rightarrow> (Value (), c3\<lparr>lru := remove1 name (lru c3)\<rparr>)))"

section \<open>\<open>DialClient\<close>\<close>

fun DialClient_loop :: "'w FileServiceClient \<Rightarrow> u64 \<Rightarrow> disk \<Rightarrow> string list \<Rightarrow> string \<Rightarrow> 'w \<Rightarrow>
    'w client result \<times> 'w" where
  "DialClient_loop svc n d [] lastErr w = (Err (Plain (''failed to connect to leader: '' @ lastErr)), w)"
| "DialClient_loop svc n d (addr # addrs) lastErr w =
     (case dial_error svc addr of
        Some t \<Rightarrow> DialClient_loop svc n d addrs t w
      | None \<Rightarrow> (case rpc_GetLeader svc addr w of
          (Inl er, w1) \<Rightarrow> DialClient_loop svc n d addrs (error_text er) w1
        | (Inr leader, w1) \<Rightarrow>
            if leader = addr then (Value (NewClient n addr d w1), w1)
            else (case dial_error svc leader of
                Some t \<Rightarrow> DialClient_loop svc n d addrs t w1
              | None \<Rightarrow> (Value (NewClient n leader d w1), w1))))"

definition DialClient :: "'w FileServiceClient \<Rightarrow> u64 \<Rightarrow> disk \<Rightarrow> string list \<Rightarrow> 'w \<Rightarrow> 'w client result \<times> 'w" where
  "DialClient svc n d addrs w = DialClient_loop svc n d addrs ''<nil>'' w"

end
