(* ===== verification/ClientProps.thy ===== *)
theory ClientProps
  imports Client
begin

text \<open>
  What holds of the client whatever the service answers: the cache stays within its bound and in step
  with the LRU list, eviction never loses uncommitted data, request ids do not repeat; and what its
  retries and its cache get wrong.
\<close>

section \<open>What the calls leave alone\<close>

lemma call_simps [simp]:
  "cache (snd (call f c)) = cache c" "lru (snd (call f c)) = lru c"
  "local_disk (snd (call f c)) = local_disk c" "address (snd (call f c)) = address c"
  "requestCounter (snd (call f c)) = requestCounter c"
  by (simp_all add: call_def split: prod.splits)

lemma call_keeps: "call f c = (r, c') \<Longrightarrow> cache c' = cache c \<and> lru c' = lru c \<and> local_disk c' = local_disk c \<and>
    address c' = address c"
  using call_simps [of f c] by auto

lemma reconnect_keeps: "reconnectToLeader svc a c = (r, c') \<Longrightarrow>
    cache c' = cache c \<and> lru c' = lru c \<and> local_disk c' = local_disk c"
  by (auto simp: reconnectToLeader_def split: option.splits)

text \<open>\<open>quiet_client\<close>: nothing of the cache changes.\<close>

definition quiet_client :: "'w client \<Rightarrow> 'w client \<Rightarrow> bool" where
  "quiet_client c c' \<longleftrightarrow> cache c' = cache c \<and> lru c' = lru c \<and> local_disk c' = local_disk c"

lemma quiet_client_refl [simp]: "quiet_client c c"
  by (simp add: quiet_client_def)

lemma quiet_client_trans: "quiet_client a b \<Longrightarrow> quiet_client b c \<Longrightarrow> quiet_client a c"
  by (simp add: quiet_client_def)

lemma quiet_call: "call f c = (r, c') \<Longrightarrow> quiet_client c c'"
  by (drule call_keeps) (simp add: quiet_client_def)

lemma quiet_reconnect: "reconnectToLeader svc a c = (r, c') \<Longrightarrow> quiet_client c c'"
  by (drule reconnect_keeps) (simp add: quiet_client_def)

lemma quiet_retry: "retry_call svc f n er c = (r, c') \<Longrightarrow> quiet_client c c'"
proof (induction svc f n er c rule: retry_call.induct)
  case (2 svc f n er c)
  obtain x c1 where x: "call f c = (x, c1)" by fastforce
  then have q: "quiet_client c c1" by (rule quiet_call)
  show ?case
  proof (cases x)
    case (Inr y)
    then show ?thesis using 2(3) x q by simp
  next
    case (Inl e)
    show ?thesis
    proof (cases "extractLeaderAddr e")
      case None
      then have "quiet_client c1 c'" using 2(1) [OF x [symmetric] Inl] 2(3) x Inl by simp
      then show ?thesis using q quiet_client_trans by blast
    next
      case (Some a)
      obtain y c2 where y: "reconnectToLeader svc a c1 = (y, c2)" by fastforce
      then have q2: "quiet_client c c2" using q quiet_reconnect quiet_client_trans by blast
      show ?thesis
      proof (cases y)
        case None
        then have "quiet_client c2 c'" using 2(2) [OF x [symmetric] Inl Some y [symmetric]] 2(3) x Inl Some y by simp
        then show ?thesis using q2 quiet_client_trans by blast
      qed (use 2(3) x Inl Some y q2 in simp)
    qed
  qed
qed simp

lemma quiet_testAuth_loop: "testAuth_loop svc name n er c = (r, c') \<Longrightarrow> quiet_client c c'"
proof (induction svc name n er c rule: testAuth_loop.induct)
  case (2 svc name n er c)
  obtain x c1 where x: "call (\<lambda>a. rpc_TestAuth svc a name) c = (x, c1)" by fastforce
  then have q: "quiet_client c c1" by (rule quiet_call)
  show ?case
  proof (cases x)
    case (Inl e)
    then show ?thesis
      using 2(1) [OF x [symmetric] Inl] 2(2) x q quiet_client_trans [OF q] by (cases "transient e") auto
  qed (use 2(2) x q in simp)
qed simp

lemma quiet_testAuth: "testAuth svc name c = (r, c') \<Longrightarrow> quiet_client c c'"
  by (simp add: testAuth_def quiet_testAuth_loop)

lemma quiet_request_id: "generateRequestID ev c = (i, c') \<Longrightarrow> quiet_client c c'"
  by (auto simp: generateRequestID_def Let_def quiet_client_def)

lemma quiet_call_redirect: "call_redirect svc f c = (r, c') \<Longrightarrow> quiet_client c c'"
proof -
  assume a: "call_redirect svc f c = (r, c')"
  obtain x c1 where x: "call f c = (x, c1)" by fastforce
  then have q: "quiet_client c c1" by (rule quiet_call)
  show ?thesis
  proof (cases x)
    case (Inl e)
    show ?thesis
    proof (cases "extractLeaderAddr e")
      case (Some ad)
      obtain y c2 where y: "reconnectToLeader svc ad c1 = (y, c2)" by fastforce
      then have q2: "quiet_client c c2" using q quiet_reconnect quiet_client_trans by blast
      have "c' = (if y = None then snd (call f c2) else c2)"
        using a x Inl Some y by (cases y) (simp_all add: call_redirect_def)
      moreover have "quiet_client c2 (snd (call f c2))" by (simp add: quiet_client_def)
      ultimately show ?thesis using q2 quiet_client_trans by auto
    qed (use a x q Inl in \<open>simp add: call_redirect_def\<close>)
  qed (use a x q in \<open>simp add: call_redirect_def\<close>)
qed

lemmas quiet_client_rules = quiet_call quiet_reconnect quiet_retry quiet_testAuth quiet_request_id quiet_call_redirect

section \<open>Invariants of the cache\<close>

definition has_space :: "string \<Rightarrow> 'w client \<Rightarrow> bool" where
  "has_space name c \<longleftrightarrow> mget (cache c) name \<noteq> None \<or> mlen (cache c) < maxCacheEntries"

text \<open>
  A property of the cache that the steps the operations are made of keep: a change elsewhere, a touch
  of a cached file, an update of an entry, a new entry where there is space, the removal of an entry,
  and of the name of a file that has none.
\<close>

locale cache_property =
  fixes P :: "'w client \<Rightarrow> bool"
  assumes silent: "cache c' = cache c \<Longrightarrow> lru c' = lru c \<Longrightarrow> P c \<Longrightarrow> P c'"
    and touch: "P c \<Longrightarrow> P (touchLRU name c)"
    and update: "P c \<Longrightarrow> mget (cache c) name = Some en \<Longrightarrow> ce_Filename en' = ce_Filename en \<Longrightarrow>
      LocalPath en' = LocalPath en \<Longrightarrow> P (put_cache name en' c)"
    and new: "P c \<Longrightarrow> has_space name c \<Longrightarrow> ce_Filename en = name \<Longrightarrow> LocalPath en = local_path name \<Longrightarrow>
      P (touchLRU name (put_cache name en c))"
    and removed: "P c \<Longrightarrow> P (c\<lparr>cache := mdel name (cache c)\<rparr>)"
    and dropped: "P c \<Longrightarrow> mget (cache c) name = None \<Longrightarrow> P (c\<lparr>lru := remove1 name (lru c)\<rparr>)"
begin

lemma quiet: "quiet_client c c' \<Longrightarrow> P c \<Longrightarrow> P c'"
  using silent by (auto simp: quiet_client_def)

lemma on_disk: "P c \<Longrightarrow> P (c\<lparr>local_disk := d\<rparr>)"
  by (rule silent) simp_all

lemma evicted: "P c \<Longrightarrow> evictFromCache c = (r, c') \<Longrightarrow> P c'"
proof -
  assume a: "P c" "evictFromCache c = (r, c')"
  show "P c'"
  proof (cases "find (evictable c) (lru c)")
    case (Some name)
    let ?d = "case mget (cache c) name of Some en \<Rightarrow> os_Remove (local_disk c) (LocalPath en) | None \<Rightarrow> local_disk c"
    let ?c = "c\<lparr>local_disk := ?d\<rparr>"
    have "P (?c\<lparr>cache := mdel name (cache ?c)\<rparr>)" by (rule removed [OF on_disk [OF a(1)]])
    from dropped [OF this, of name] show ?thesis using a(2) Some by (simp add: evictFromCache_def)
  qed (use a in \<open>simp add: evictFromCache_def\<close>)
qed

lemma made_space: "P c \<Longrightarrow> make_space c = (r, c') \<Longrightarrow> P c'"
  using evicted by (auto simp: make_space_def split: if_splits)

lemma new_entry_keeps:
  assumes "P c" "has_space name c" "new_entry name resp cl md c = (r, c')"
  shows "P c'"
proof -
  let ?d = "make_dirs (Dir (local_path name)) (local_disk c)"
  show ?thesis
  proof (cases "os_WriteFile ?d (local_path name) []")
    case None
    then show ?thesis using assms(1,3) on_disk by (auto simp: new_entry_def Let_def)
  next
    case (Some d)
    have "P (c\<lparr>local_disk := d\<rparr>)" "has_space name (c\<lparr>local_disk := d\<rparr>)"
      using assms(1,2) on_disk by (simp_all add: has_space_def)
    from new [OF this] show ?thesis using assms(3) Some by (auto simp: new_entry_def Let_def)
  qed
qed

end

lemma mlen_mdel_less: "mget m k \<noteq> None \<Longrightarrow> mlen (mdel k m) < mlen m"
  unfolding AList.delete_eq by (rule length_filter_less [of "(k, the (mget m k))"]) (auto dest: map_of_SomeD)

text \<open>Space that was made is there.\<close>

lemma make_space_has_space:
  assumes "make_space c = (None, c')" "mlen (cache c) \<le> maxCacheEntries"
  shows "has_space name c'"
proof (cases "mlen (cache c) \<ge> maxCacheEntries")
  case True
  then obtain n where n: "find (evictable c) (lru c) = Some n" "cache c' = mdel n (cache c)"
    using assms(1) by (auto simp: make_space_def evictFromCache_def split: option.splits)
  then have "mget (cache c) n \<noteq> None" by (auto simp: find_Some_iff evictable_def split: option.splits)
  then show ?thesis using mlen_mdel_less [of "cache c" n] n(2) assms(2) by (simp add: has_space_def)
qed (use assms in \<open>simp add: make_space_def has_space_def\<close>)

lemma quiet_has_space: "quiet_client c c' \<Longrightarrow> has_space name c' = has_space name c"
  by (simp add: quiet_client_def has_space_def)

context cache_property
begin

lemma retried_entry:
  assumes "P c" "has_space name c" "retry_call svc f n er c = (Value resp, c1)" "new_entry name resp cl md c1 = (r, c')"
  shows "P c'"
  using assms quiet_retry [OF assms(3)] quiet quiet_has_space new_entry_keeps by blast

lemma open_remote_keeps:
  assumes "P c" "has_space name c" "open_remote svc ev name md cid c = (r, c')"
  shows "P c'"
proof -
  obtain rid c1 where i: "generateRequestID ev c = (rid, c1)" by fastforce
  let ?f = "\<lambda>a. rpc_Open svc a \<lparr>fr_RequestId = rid, fr_Filename = name, fr_Mode = md, fr_ClientId = cid\<rparr>"
  obtain x c2 where x: "retry_call svc ?f maxTries None c1 = (x, c2)" by fastforce
  have P1: "P c1" "has_space name c1" using quiet_request_id [OF i] assms(1,2) quiet quiet_has_space by blast+
  show ?thesis
  proof (cases x)
    case (Value resp)
    then show ?thesis using assms(3) i x retried_entry [OF P1] by (simp add: open_remote_def)
  qed (use assms(3) i x P1(1) quiet [OF quiet_retry [OF x]] in \<open>simp_all add: open_remote_def\<close>)
qed

lemma Create_keeps:
  assumes "P c" "mlen (cache c) \<le> maxCacheEntries" "client_Create svc ev name cid c = (r, c')"
  shows "P c'"
proof -
  obtain x c1 where s: "make_space c = (x, c1)" by fastforce
  have P1: "P c1" by (rule made_space [OF assms(1) s])
  show ?thesis
  proof (cases x)
    case None
    obtain rid c2 where i: "generateRequestID ev c1 = (rid, c2)" by fastforce
    let ?f = "\<lambda>a. rpc_Create svc a \<lparr>cr_RequestId = rid, cr_Filename = name, cr_ClientId = cid, cr_Mode = 0\<rparr>"
    obtain y c3 where y: "retry_call svc ?f maxTries None c2 = (y, c3)" by fastforce
    have "has_space name c1" using make_space_has_space s None assms(2) by blast
    then have P2: "P c2" "has_space name c2" using quiet_request_id [OF i] P1 quiet quiet_has_space by blast+
    show ?thesis
    proof (cases y)
      case (Value resp)
      then show ?thesis using assms(3) s None i y retried_entry [OF P2] by (simp add: client_Create_def)
    qed (use assms(3) s None i y P2(1) quiet [OF quiet_retry [OF y]] in \<open>simp_all add: client_Create_def\<close>)
  qed (use assms(3) s P1 in \<open>simp add: client_Create_def\<close>)
qed

lemma open_cached_keeps:
  assumes "P c" "mget (cache c) name = Some en" "open_cached svc ev name md cid en c = (r, c')"
  shows "P c'"
proof (cases "\<not> Closed en \<and> ce_Mode en \<noteq> md \<and> ce_Mode en = FileMode_READ")
  case False
  let ?en = "en\<lparr>Valid := True, ce_Mode := md\<rparr>"
  let ?c1 = "touchLRU name (put_cache name ?en c)"
  have P1: "P ?c1" using update [OF assms(1,2)] touch by simp
  obtain rid c2 where i: "generateRequestID ev ?c1 = (rid, c2)" by fastforce
  let ?f = "\<lambda>a. rpc_Open svc a \<lparr>fr_RequestId = rid, fr_Filename = name, fr_Mode = md, fr_ClientId = cid\<rparr>"
  obtain x c3 where x: "call ?f c2 = (x, c3)" by fastforce
  have q: "quiet_client ?c1 c3" using quiet_request_id [OF i] quiet_call [OF x] quiet_client_trans by blast
  have P3: "P c3" by (rule quiet [OF q P1])
  have e3: "mget (cache c3) name = Some ?en" using q by (simp add: quiet_client_def touchLRU_def put_cache_def)
  show ?thesis
  proof (cases x)
    case (Inr resp)
    have "P (put_cache name (?en\<lparr>ce_Fd := resp_fd resp, Closed := False\<rparr>) c3)" by (rule update [OF P3 e3]) simp_all
    then show ?thesis using assms(3) False i x Inr by (auto simp: open_cached_def Let_def)
  qed (use assms(3) False i x P3 in \<open>auto simp: open_cached_def Let_def\<close>)
qed (use assms in \<open>auto simp: open_cached_def\<close>)

lemma Open_keeps:
  assumes "P c" "mlen (cache c) \<le> maxCacheEntries" "client_Open svc ev name md cid c = (r, c')"
  shows "P c'"
proof (cases "mget (cache c) name")
  case None
  obtain x c1 where s: "make_space c = (x, c1)" by fastforce
  have "P c1" by (rule made_space [OF assms(1) s])
  then show ?thesis
    using assms(3) None s make_space_has_space [OF _ assms(2)] open_remote_keeps
    by (cases x) (auto simp: client_Open_def)
next
  case (Some en)
  obtain x c1 where t: "testAuth svc name c = (x, c1)" by fastforce
  have q: "quiet_client c c1" by (rule quiet_testAuth [OF t])
  then have c1: "P c1" "mget (cache c1) name = Some en" "has_space name c1"
    using quiet [OF q assms(1)] Some by (auto simp: quiet_client_def has_space_def)
  show ?thesis
    using assms(1,3) Some t c1 open_cached_keeps [OF c1(1,2)] open_remote_keeps [OF c1(1,3)]
    by (cases x) (auto simp: client_Open_def split: if_splits)
qed

lemma ReadFile_keeps: "P c \<Longrightarrow> client_ReadFile name path c = (r, c') \<Longrightarrow> P c'"
  using touch by (auto simp: client_ReadFile_def split: option.splits)

lemma read_remote_keeps:
  assumes "P c" "read_remote svc ev name cid en c = (r, c')"
  shows "P c'"
proof (cases "os_WriteFile (local_disk c) (LocalPath en @ ''.tmp'') []")
  case (Some d)
  let ?f = "\<lambda>a. rpc_Read svc a cid \<lparr>rd_Filename = name, rd_Fd = ce_Fd en\<rparr>"
  obtain x c1 where x: "call ?f (c\<lparr>local_disk := d\<rparr>) = (x, c1)" by fastforce
  have c1: "P c1" using quiet_call [OF x] quiet on_disk [OF assms(1)] by blast
  show ?thesis
  proof (cases x)
    case (Inr ys)
    obtain xs end_error where ys: "ys = (xs, end_error)" by fastforce
    obtain crashed data where r: "recv_chunks (failAfterVal ev) 0 xs [] = (crashed, data)" by fastforce
    let ?tmp = "LocalPath en @ ''.tmp''"
    let ?d1 = "case os_WriteFile (local_disk c1) ?tmp data of Some d' \<Rightarrow> d' | None \<Rightarrow> local_disk c1"
    have "\<exists>d. c' = c1\<lparr>local_disk := d\<rparr> \<or> c' = touchLRU name (c1\<lparr>local_disk := d\<rparr>)"
    proof (cases "crashed \<or> end_error \<noteq> None")
      case True
      then show ?thesis using assms(2) Some x Inr ys r
        by (cases crashed; cases end_error) (auto simp: read_remote_def Let_def)
    next
      case False
      then show ?thesis using assms(2) Some x Inr ys r
        by (cases "os_Rename ?d1 ?tmp (LocalPath en)"; cases "os_ReadFile (the (os_Rename ?d1 ?tmp (LocalPath en))) (LocalPath en)")
          (auto simp: read_remote_def Let_def)
    qed
    then show ?thesis using on_disk [OF c1] touch by blast
  qed (use assms(2) Some x c1 in \<open>simp add: read_remote_def Let_def\<close>)
qed (use assms in \<open>simp add: read_remote_def Let_def\<close>)

lemma Read_keeps:
  assumes "P c" "client_Read svc ev name cid c = (r, c')"
  shows "P c'"
proof (cases "mget (cache c) name")
  case (Some en)
  show ?thesis
  proof (cases "Valid en")
    case True
    then show ?thesis using assms Some ReadFile_keeps by (simp add: client_Read_def)
  next
    case False
    then have "read_remote svc ev name cid en c = (r, c')" using assms(2) Some by (simp add: client_Read_def)
    then show ?thesis by (rule read_remote_keeps [OF assms(1)])
  qed
qed (use assms in \<open>simp add: client_Read_def\<close>)

lemma dirtied_keeps: "P c \<Longrightarrow> mget (cache c) name = Some en \<Longrightarrow> P (dirtied name en d c)"
  using update [OF on_disk] touch by (simp add: dirtied_def)

lemma WriteFile_keeps: "P c \<Longrightarrow> client_WriteFile name data c = (r, c') \<Longrightarrow> P c'"
  using dirtied_keeps by (auto simp: client_WriteFile_def split: option.splits if_splits)

lemma AppendFile_keeps: "P c \<Longrightarrow> client_AppendFile name data c = (r, c') \<Longrightarrow> P c'"
  using dirtied_keeps by (auto simp: client_AppendFile_def split: option.splits if_splits)

lemma Commit_keeps:
  assumes "P c" "client_Commit svc ev name cid c = (r, c')"
  shows "P c'"
proof (cases "mget (cache c) name")
  case (Some en)
  obtain rid c1 where i: "generateRequestID ev c = (rid, c1)" by fastforce
  have P1: "P c1" by (rule quiet [OF quiet_request_id [OF i] assms(1)])
  show ?thesis
  proof (cases "Closed en \<or> \<not> Dirty en \<or> fail_before_commit ev \<or> os_ReadFile (local_disk c1) (LocalPath en) = None")
    case True
    then show ?thesis using assms Some i P1 by (auto simp: client_Commit_def split: if_splits option.splits)
  next
    case False
    then obtain data where d: "os_ReadFile (local_disk c1) (LocalPath en) = Some data" by blast
    let ?f = "\<lambda>a. rpc_Write svc a cid \<lparr>wr_RequestId = rid, wr_Fd = ce_Fd en, wr_Dirty = Dirty en,
      wr_Version = ce_Version en, wr_Data = data\<rparr>"
    obtain x c2 where x: "call_redirect svc ?f c1 = (x, c2)" by fastforce
    have q: "quiet_client c c2" using quiet_request_id [OF i] quiet_call_redirect [OF x] quiet_client_trans by blast
    have P2: "P c2" by (rule quiet [OF q assms(1)])
    have e2: "mget (cache c2) name = Some en" using q Some by (simp add: quiet_client_def)
    show ?thesis
      using assms(2) Some i False d x P2 update [OF P2 e2] by (cases x) (auto simp: client_Commit_def)
  qed
qed (use assms in \<open>simp add: client_Commit_def\<close>)

lemma Close_keeps:
  assumes "P c" "client_Close svc ev name cid c = (r, c')"
  shows "P c'"
proof (cases "mget (cache c) name")
  case (Some en)
  obtain rid c1 where i: "generateRequestID ev c = (rid, c1)" by fastforce
  have P1: "P c1" by (rule quiet [OF quiet_request_id [OF i] assms(1)])
  let ?data = "if Dirty en then os_ReadFile (local_disk c1) (LocalPath en) else Some []"
  show ?thesis
  proof (cases "fail_before_commit ev \<or> ?data = None")
    case True
    then show ?thesis using assms Some i P1
      by (cases ?data) (auto simp: client_Close_def split: if_splits)
  next
    case False
    then obtain data where d: "?data = Some data" by blast
    let ?f = "\<lambda>a. rpc_Close svc a cid \<lparr>cl_RequestId = rid, cl_Fd = ce_Fd en, cl_Dirty = Dirty en,
      cl_Version = ce_Version en, cl_Data = data\<rparr>"
    obtain x c2 where x: "call_redirect svc ?f c1 = (x, c2)" by fastforce
    have q: "quiet_client c c2" using quiet_request_id [OF i] quiet_call_redirect [OF x] quiet_client_trans by blast
    have P2: "P c2" by (rule quiet [OF q assms(1)])
    have e2: "mget (cache c2) name = Some en" using q Some by (simp add: quiet_client_def)
    show ?thesis
      using assms(2) Some i False d x P2 touch [OF update [OF P2 e2]] by (cases x) (auto simp: client_Close_def)
  qed
qed (use assms in \<open>simp add: client_Close_def\<close>)

lemma Delete_keeps:
  assumes "P c" "client_Delete svc ev name c = (r, c')"
  shows "P c'"
proof (cases "(case mget (cache c) name of Some en \<Rightarrow> Dirty en | None \<Rightarrow> False) \<or>
    (case mget (cache c) name of Some en \<Rightarrow> os_Stat (local_disk c) (LocalPath en) = NotDir | None \<Rightarrow> False)")
  case False
  let ?c1 = "case mget (cache c) name of None \<Rightarrow> c
    | Some en \<Rightarrow> c\<lparr>local_disk := os_Remove (local_disk c) (LocalPath en), cache := mdel name (cache c)\<rparr>"
  have P1: "P ?c1 \<and> mget (cache ?c1) name = None"
    using assms(1) removed [OF on_disk [OF assms(1)], of name] by (auto split: option.splits)
  obtain rid c2 where i: "generateRequestID ev ?c1 = (rid, c2)" by fastforce
  let ?f = "\<lambda>a. rpc_Delete svc a \<lparr>de_RequestId = rid, de_Filename = name\<rparr>"
  obtain x c3 where x: "call_redirect svc ?f c2 = (x, c3)" by fastforce
  have q: "quiet_client ?c1 c3" using quiet_request_id [OF i] quiet_call_redirect [OF x] quiet_client_trans by blast
  have P3: "P c3" "mget (cache c3) name = None" using quiet [OF q] P1 q by (auto simp: quiet_client_def)
  then show ?thesis using assms(2) False i x dropped [OF P3] by (cases x) (auto simp: client_Delete_def Let_def)
qed (use assms in \<open>auto simp: client_Delete_def split: if_splits\<close>)

end

section \<open>Runs of a client\<close>

inductive client_step :: "'w FileServiceClient \<Rightarrow> 'w client \<Rightarrow> 'w client \<Rightarrow> bool" for svc where
  Create: "client_step svc c (snd (client_Create svc ev name cid c))"
| Open: "client_step svc c (snd (client_Open svc ev name md cid c))"
| Read: "client_step svc c (snd (client_Read svc ev name cid c))"
| ReadFile: "client_step svc c (snd (client_ReadFile name path c))"
| WriteFile: "client_step svc c (snd (client_WriteFile name data c))"
| AppendFile: "client_step svc c (snd (client_AppendFile name data c))"
| Commit: "client_step svc c (snd (client_Commit svc ev name cid c))"
| Close: "client_step svc c (snd (client_Close svc ev name cid c))"
| Delete: "client_step svc c (snd (client_Delete svc ev name c))"

context cache_property
begin

lemma step:
  assumes "client_step svc c c'" "P c" "mlen (cache c) \<le> maxCacheEntries"
  shows "P c'"
  using assms Create_keeps Open_keeps Read_keeps ReadFile_keeps WriteFile_keeps AppendFile_keeps
    Commit_keeps Close_keeps Delete_keeps
  by cases (metis surjective_pairing)+

end

definition bounded :: "'w client \<Rightarrow> bool" where
  "bounded c \<longleftrightarrow> mwf (cache c) \<and> mlen (cache c) \<le> maxCacheEntries"

definition listed :: "'w client \<Rightarrow> bool" where
  "listed c \<longleftrightarrow> distinct (lru c) \<and> (\<forall>name. mget (cache c) name \<noteq> None \<longrightarrow> name \<in> set (lru c))"

definition placed :: "'w client \<Rightarrow> bool" where
  "placed c \<longleftrightarrow> (\<forall>name en. mget (cache c) name = Some en \<longrightarrow> ce_Filename en = name \<and> LocalPath en = local_path name)"

interpretation bd: cache_property bounded
proof unfold_locales
  fix c :: "'w client" and name :: string and en
  assume "bounded c" "has_space name c"
  then show "bounded (touchLRU name (put_cache name en c))"
    by (cases "mget (cache c) name")
      (auto simp: bounded_def has_space_def touchLRU_def put_cache_def mlen_mput_new mlen_mput_old)
next
  fix c :: "'w client" and name :: string
  assume "bounded c"
  then show "bounded (c\<lparr>cache := mdel name (cache c)\<rparr>)"
    using mlen_mdel [of name "cache c"] by (simp add: bounded_def)
qed (simp_all add: bounded_def touchLRU_def put_cache_def mlen_mput_old)

interpretation ls: cache_property listed
  by unfold_locales (auto simp: listed_def touchLRU_def put_cache_def)

interpretation pl: cache_property placed
  by unfold_locales (auto simp: placed_def touchLRU_def put_cache_def split: if_splits)

text \<open>A service that answers everything the same way and counts the calls, for the examples.\<close>

definition constant_service :: "rpc_error + response \<Rightarrow> i32 \<Rightarrow> nat FileServiceClient" where
  "constant_service r v = \<lparr>
     rpc_Create = (\<lambda>a q w. (r, w + 1)), rpc_Open = (\<lambda>a q w. (r, w + 1)), rpc_Close = (\<lambda>a i q w. (r, w + 1)),
     rpc_Write = (\<lambda>a i q w. (r, w + 1)), rpc_Delete = (\<lambda>a q w. (r, w + 1)),
     rpc_Read = (\<lambda>a i q w. (Inr ([''7''], None), w + 1)), rpc_TestAuth = (\<lambda>a n w. (Inr v, w + 1)),
     rpc_GetLeader = (\<lambda>a w. (Inr a, w + 1)), dial_error = (\<lambda>a. None)\<rparr>"

definition example_client :: "nat client" where
  "example_client = NewClient 0 ''localhost:5001'' empty_disk 0"

definition example_client_env :: client_env where
  "example_client_env = \<lparr>clock = (\<lambda>n. 0), fail_before_commit = False, fail_after_chunks = []\<rparr>"

text \<open>
  C12. The cache is bounded: whatever the service answers and whatever operations a client performs, it
  holds at most \<open>maxCacheEntries\<close> files, each under its own name and with its own local copy, and the
  LRU list has every one of them, without repetition.
\<close>

theorem client_cache_bounded:
  assumes "(client_step svc)\<^sup>*\<^sup>* (NewClient n addr d w) c"
  shows "mlen (cache c) \<le> 20 \<and> distinct (map fst (cache c)) \<and> distinct (lru c) \<and>
    (\<forall>name en. mget (cache c) name = Some en \<longrightarrow>
       name \<in> set (lru c) \<and> ce_Filename en = name \<and> LocalPath en = local_path name)"
proof -
  have "bounded c \<and> listed c \<and> placed c"
    using assms
  proof induction
    case base
    then show ?case by (simp add: bounded_def listed_def placed_def NewClient_def)
  next
    case (step y z)
    then have "mlen (cache y) \<le> maxCacheEntries" by (simp add: bounded_def)
    then show ?case using step bd.step ls.step pl.step by blast
  qed
  then show ?thesis by (simp add: bounded_def listed_def placed_def mwf_def maxCacheEntries_def)
qed

theorem client_cache_bounded_witness:
  "mlen (cache (snd (client_Create (constant_service (Inr (OpenResponse 0 1 [])) 1) example_client_env
     ''output/a'' ''worker_0'' example_client))) \<le> 20"
proof -
  let ?svc = "constant_service (Inr (OpenResponse 0 1 [])) 1"
  have "(client_step ?svc)\<^sup>*\<^sup>* example_client
      (snd (client_Create ?svc example_client_env ''output/a'' ''worker_0'' example_client))"
    by (rule r_into_rtranclp, rule client_step.Create)
  then show ?thesis using client_cache_bounded [of ?svc] unfolding example_client_def by blast
qed

section \<open>Uncommitted data\<close>

text \<open>\<open>spares f\<close>: the entry of \<open>f\<close> and its local copy stay.\<close>

definition spares :: "string \<Rightarrow> 'w client \<Rightarrow> 'w client \<Rightarrow> bool" where
  "spares f c c' \<longleftrightarrow> mget (cache c') f = mget (cache c) f \<and>
     os_ReadFile (local_disk c') (local_path f) = os_ReadFile (local_disk c) (local_path f) \<and>
     (wf_disk (local_disk c) \<longrightarrow> wf_disk (local_disk c'))"

lemma spares_trans: "spares f a b \<Longrightarrow> spares f b c \<Longrightarrow> spares f a c"
  by (simp add: spares_def)

lemma spares_refl [simp]: "spares f c c"
  by (simp add: spares_def)

lemma spares_quiet: "quiet_client c c' \<Longrightarrow> spares f c c'"
  by (simp add: quiet_client_def spares_def)

lemma spares_touch [simp]: "spares f c (touchLRU n c)"
  by (simp add: spares_def touchLRU_def)

lemma spares_put [simp]: "n \<noteq> f \<Longrightarrow> spares f c (put_cache n en c)"
  by (simp add: spares_def put_cache_def)

lemma spares_make_space:
  assumes "placed c" "mget (cache c) f = Some en" "Dirty en"
    and "\<forall>n. mget (cache c) n \<noteq> None \<and> n \<noteq> f \<longrightarrow> local_path n \<noteq> local_path f"
    and "make_space c = (r, c')"
  shows "spares f c c'"
proof (cases "mlen (cache c) \<ge> maxCacheEntries \<and> find (evictable c) (lru c) \<noteq> None")
  case True
  then obtain n where n: "find (evictable c) (lru c) = Some n" by blast
  then obtain en' where en': "mget (cache c) n = Some en'" "\<not> Dirty en'"
    by (auto simp: find_Some_iff evictable_def split: option.splits)
  then have "n \<noteq> f" using assms(2,3) by auto
  moreover from this have "LocalPath en' \<noteq> local_path f" using en'(1) assms(1,4) by (auto simp: placed_def)
  ultimately show ?thesis using assms(5) True n en'
    by (auto simp: spares_def make_space_def evictFromCache_def read_Remove wf_Remove)
next
  case False
  then show ?thesis using assms(5) by (auto simp: make_space_def evictFromCache_def split: if_splits)
qed

lemma make_dirs_disk: "wf_disk d \<Longrightarrow> wf_disk (make_dirs p d)" "os_ReadFile (make_dirs p d) q = os_ReadFile d q"
  by (auto simp: make_dirs_def wf_MkdirAll read_MkdirAll split: option.splits)

lemma spares_new_entry:
  assumes "wf_disk (local_disk c)" "n \<noteq> f" "local_path n \<noteq> local_path f" "new_entry n resp cl md c = (r, c')"
  shows "spares f c c'"
proof -
  let ?d = "make_dirs (Dir (local_path n)) (local_disk c)"
  have d: "wf_disk ?d" "os_ReadFile ?d q = os_ReadFile (local_disk c) q" for q
    using make_dirs_disk assms(1) by auto
  show ?thesis
  proof (cases "os_WriteFile ?d (local_path n) []")
    case None
    then show ?thesis using assms(4) d by (auto simp: new_entry_def Let_def spares_def)
  next
    case (Some d')
    then show ?thesis using assms(2-4) d read_WriteFile [OF d(1) Some] wf_WriteFile [OF d(1) Some]
      by (auto simp: new_entry_def Let_def spares_def touchLRU_def put_cache_def)
  qed
qed

lemma spares_retried:
  assumes "wf_disk (local_disk c)" "n \<noteq> f" "local_path n \<noteq> local_path f"
    and "retry_call svc g k er c = (Value resp, c1)" "new_entry n resp cl md c1 = (r, c')"
  shows "spares f c c'"
proof -
  have "quiet_client c c1" by (rule quiet_retry [OF assms(4)])
  then have "spares f c c1" "wf_disk (local_disk c1)" using assms(1) spares_quiet by (auto simp: quiet_client_def)
  then show ?thesis using spares_new_entry [OF _ assms(2,3,5)] spares_trans by blast
qed

lemma spares_open_remote:
  assumes "wf_disk (local_disk c)" "n \<noteq> f" "local_path n \<noteq> local_path f" "open_remote svc ev n md cid c = (r, c')"
  shows "spares f c c'"
proof -
  obtain rid c1 where i: "generateRequestID ev c = (rid, c1)" by fastforce
  let ?f = "\<lambda>a. rpc_Open svc a \<lparr>fr_RequestId = rid, fr_Filename = n, fr_Mode = md, fr_ClientId = cid\<rparr>"
  obtain x c2 where x: "retry_call svc ?f maxTries None c1 = (x, c2)" by fastforce
  have c1: "spares f c c1" "wf_disk (local_disk c1)"
    using quiet_request_id [OF i] assms(1) spares_quiet by (auto simp: quiet_client_def)
  show ?thesis
  proof (cases x)
    case (Value resp)
    then have "new_entry n resp False md c2 = (r, c')" "retry_call svc ?f maxTries None c1 = (Value resp, c2)"
      using assms(4) i x by (simp_all add: open_remote_def)
    then show ?thesis using spares_retried [OF c1(2) assms(2,3)] spares_trans [OF c1(1)] by blast
  qed (use assms(4) i x spares_trans [OF c1(1)] spares_quiet [OF quiet_retry [OF x]] in \<open>auto simp: open_remote_def\<close>)
qed

lemma spares_Create:
  assumes "placed c" "wf_disk (local_disk c)" "mget (cache c) f = Some en" "Dirty en" "n \<noteq> f" "local_path n \<noteq> local_path f"
    and "\<forall>n. mget (cache c) n \<noteq> None \<and> n \<noteq> f \<longrightarrow> local_path n \<noteq> local_path f"
    and "client_Create svc ev n cid c = (r, c')"
  shows "spares f c c'"
proof -
  obtain x c1 where s: "make_space c = (x, c1)" by fastforce
  have s1: "spares f c c1" by (rule spares_make_space [OF assms(1,3,4,7) s])
  show ?thesis
  proof (cases x)
    case None
    obtain rid c2 where i: "generateRequestID ev c1 = (rid, c2)" by fastforce
    let ?f = "\<lambda>a. rpc_Create svc a \<lparr>cr_RequestId = rid, cr_Filename = n, cr_ClientId = cid, cr_Mode = 0\<rparr>"
    obtain y c3 where y: "retry_call svc ?f maxTries None c2 = (y, c3)" by fastforce
    have s2: "spares f c c2" "wf_disk (local_disk c2)"
      using spares_trans [OF s1 spares_quiet [OF quiet_request_id [OF i]]] assms(2) by (simp_all add: spares_def)
    show ?thesis
    proof (cases y)
      case (Value resp)
      then have "new_entry n resp True 0 c3 = (r, c')" "retry_call svc ?f maxTries None c2 = (Value resp, c3)"
        using assms(8) s None i y by (simp_all add: client_Create_def)
      then show ?thesis using spares_retried [OF s2(2) assms(5,6)] spares_trans [OF s2(1)] by blast
    qed (use assms(8) s None i y spares_trans [OF s2(1)] spares_quiet [OF quiet_retry [OF y]] in \<open>auto simp: client_Create_def\<close>)
  qed (use assms(8) s s1 in \<open>simp add: client_Create_def\<close>)
qed

lemma spares_open_cached:
  assumes "n \<noteq> f" "open_cached svc ev n md cid en c = (r, c')"
  shows "spares f c c'"
proof (cases "\<not> Closed en \<and> ce_Mode en \<noteq> md \<and> ce_Mode en = FileMode_READ")
  case False
  let ?en = "en\<lparr>Valid := True, ce_Mode := md\<rparr>"
  let ?c1 = "touchLRU n (put_cache n ?en c)"
  obtain rid c2 where i: "generateRequestID ev ?c1 = (rid, c2)" by fastforce
  let ?f = "\<lambda>a. rpc_Open svc a \<lparr>fr_RequestId = rid, fr_Filename = n, fr_Mode = md, fr_ClientId = cid\<rparr>"
  obtain x c3 where x: "call ?f c2 = (x, c3)" by fastforce
  have "spares f c ?c1" using assms(1) by (simp add: spares_def touchLRU_def put_cache_def)
  then have s3: "spares f c c3"
    using quiet_request_id [OF i] quiet_call [OF x] spares_quiet spares_trans by metis
  have "spares f c3 (put_cache n en' c3)" for en' using assms(1) by simp
  then show ?thesis using assms(2) False i x s3 spares_trans [OF s3]
    by (cases x) (auto simp: open_cached_def Let_def)
qed (use assms in \<open>auto simp: open_cached_def\<close>)

lemma spares_Open:
  assumes "placed c" "wf_disk (local_disk c)" "mget (cache c) f = Some en" "Dirty en" "n \<noteq> f" "local_path n \<noteq> local_path f"
    and "\<forall>n. mget (cache c) n \<noteq> None \<and> n \<noteq> f \<longrightarrow> local_path n \<noteq> local_path f"
    and "client_Open svc ev n md cid c = (r, c')"
  shows "spares f c c'"
proof (cases "mget (cache c) n")
  case None
  obtain x c1 where s: "make_space c = (x, c1)" by fastforce
  have s1: "spares f c c1" by (rule spares_make_space [OF assms(1,3,4,7) s])
  show ?thesis
  proof (cases x)
    case None
    then have "open_remote svc ev n md cid c1 = (r, c')"
      using assms(8) s \<open>mget (cache c) n = None\<close> by (simp add: client_Open_def)
    moreover have "wf_disk (local_disk c1)" using s1 assms(2) by (simp add: spares_def)
    ultimately show ?thesis using spares_open_remote [OF _ assms(5,6)] spares_trans [OF s1] by blast
  qed (use assms(8) s s1 None in \<open>simp add: client_Open_def\<close>)
next
  case (Some e)
  obtain x c1 where t: "testAuth svc n c = (x, c1)" by fastforce
  have s1: "spares f c c1" "wf_disk (local_disk c1)"
    using spares_quiet [OF quiet_testAuth [OF t]] assms(2) by (simp_all add: spares_def)
  show ?thesis
  proof (cases "\<not> Dirty e \<and> (\<exists>v. x = Value v)")
    case True
    then obtain v where "x = Value v" by blast
    then have "open_cached svc ev n md cid e c1 = (r, c') \<or> open_remote svc ev n md cid c1 = (r, c')"
      using assms(8) Some t True by (auto simp: client_Open_def split: if_splits)
    then have "spares f c1 c'"
      using spares_open_cached [OF assms(5)] spares_open_remote [OF s1(2) assms(5,6)] by blast
    then show ?thesis by (rule spares_trans [OF s1(1)])
  next
    case False
    then show ?thesis using assms(8) Some t s1 by (cases x) (auto simp: client_Open_def split: if_splits)
  qed
qed

text \<open>
  C18. Uncommitted data survive: while a file is dirty, creating or opening another file, with the
  eviction that makes space for it, leaves its entry and its local copy as they are, provided no other
  name leads to the same local copy.
\<close>

theorem uncommitted_data_survive:
  assumes "placed c" "wf_disk (local_disk c)" "mget (cache c) f = Some en" "Dirty en" "n \<noteq> f" "local_path n \<noteq> local_path f"
    and "\<forall>n. mget (cache c) n \<noteq> None \<and> n \<noteq> f \<longrightarrow> local_path n \<noteq> local_path f"
    and "c' = snd (client_Open svc ev n md cid c) \<or> c' = snd (client_Create svc ev n cid c)"
  shows "mget (cache c') f = Some en \<and>
    os_ReadFile (local_disk c') (LocalPath en) = os_ReadFile (local_disk c) (LocalPath en)"
proof -
  have "spares f c c'"
    using assms(8) spares_Open [OF assms(1-7)] spares_Create [OF assms(1-7)] by (metis surjective_pairing)
  moreover have "LocalPath en = local_path f" using assms(1,3) by (simp add: placed_def)
  ultimately show ?thesis using assms(3) by (simp add: spares_def)
qed

definition dirty_client :: "nat client" where
  "dirty_client = example_client\<lparr>cache := [(''output/a'', \<lparr>ce_Filename = ''output/a'', LocalPath = ''cache/output/a'',
       ce_Version = 1, Dirty = True, ce_Fd = 0, Closed = False, ce_Mode = FileMode_WRITE, Valid = False\<rparr>)],
     lru := [''output/a''],
     local_disk := new_file (make_dirs ''cache/output'' empty_disk) ''cache/output/a'' ''7''\<rparr>"

lemma local_path_examples: "local_path ''output/a'' = ''cache/output/a''" "local_path ''output/b'' = ''cache/output/b''"
  by code_simp+

theorem uncommitted_data_survive_witness:
  "mget (cache (snd (client_Open (constant_service (Inr (OpenResponse 1 1 [])) 1) example_client_env ''output/b''
     FileMode_WRITE ''worker_0'' dirty_client))) ''output/a'' \<noteq> None"
proof -
  have d: "placed dirty_client" "mget (cache dirty_client) ''output/a'' = Some (snd (hd (cache dirty_client)))"
    "Dirty (snd (hd (cache dirty_client)))"
    by (simp_all add: placed_def dirty_client_def local_path_examples)
  have w: "wf_disk (local_disk dirty_client)"
    by (simp add: dirty_client_def wf_new_file make_dirs_disk wf_empty_disk)
  have p: "local_path ''output/b'' \<noteq> local_path ''output/a''" by (simp add: local_path_examples)
  have o: "\<forall>n. mget (cache dirty_client) n \<noteq> None \<and> n \<noteq> ''output/a'' \<longrightarrow> local_path n \<noteq> local_path ''output/a''"
    by (simp add: dirty_client_def)
  show ?thesis
    using uncommitted_data_survive [OF d(1) w d(2,3) _ p o disjI1 [OF refl], of "constant_service (Inr (OpenResponse 1 1 [])) 1"
        example_client_env FileMode_WRITE "''worker_0''"] by simp
qed

section \<open>Request ids\<close>

lemma format_uint_no_dash: "CHR ''-'' \<notin> set (format_uint n)"
  using dec_string_digits [of "uint n"] by (auto simp: format_uint_def list_all_iff is_digit_def)

lemma after_dash:
  assumes "d \<notin> set b" "d \<notin> set b'" "a @ d # b = a' @ d # b'"
  shows "b = b'"
proof -
  have t: "takeWhile (\<lambda>x. x \<noteq> d) (rev (u @ d # v)) = rev v" if "d \<notin> set v" for u v
    using that unfolding rev_append by (simp, subst takeWhile_append2) auto
  show ?thesis using t [OF assms(1), of a] t [OF assms(2), of a'] assms(3) by simp
qed

text \<open>
  Request ids do not repeat: the ids a process draws while its counter does not come around are
  pairwise different, whatever the clock shows, so no two of its requests meet in the server's cache.
\<close>

theorem request_ids_distinct:
  assumes "n \<le> 2 ^ 64"
  shows "distinct (map (\<lambda>i. fst (generateRequestID ev (c\<lparr>requestCounter := of_nat i\<rparr>))) [0..<n])"
proof -
  have "i = j" if ij: "i < n" "j < n"
    "fst (generateRequestID ev (c\<lparr>requestCounter := of_nat i\<rparr>)) = fst (generateRequestID ev (c\<lparr>requestCounter := of_nat j\<rparr>))"
    for i j
  proof -
    have "format_uint (of_nat i + 1) = format_uint (of_nat j + 1)"
      using ij(3) after_dash [OF format_uint_no_dash format_uint_no_dash]
      by (auto simp: generateRequestID_def Let_def)
    then have "(of_nat i :: u64) = of_nat j" by (metis ParseUint_format_uint add_right_imp_eq option.inject)
    then have "unat (of_nat i :: u64) = unat (of_nat j :: u64)" by simp
    then show ?thesis using ij(1,2) assms by (simp add: unat_of_nat)
  qed
  then show ?thesis by (auto simp: distinct_map inj_on_def)
qed

theorem request_ids_distinct_witness:
  "fst (generateRequestID example_client_env example_client) \<noteq>
   fst (generateRequestID example_client_env (snd (generateRequestID example_client_env example_client)))"
proof -
  have "distinct (map (\<lambda>i. fst (generateRequestID example_client_env (example_client\<lparr>requestCounter := of_nat i\<rparr>))) [0..<2])"
    by (rule request_ids_distinct) simp
  then show ?thesis by (simp add: upt_rec generateRequestID_def Let_def example_client_def NewClient_def)
qed

section \<open>Retries, redirects and stale copies\<close>

text \<open>
  \<open>Create\<close> repeats logical errors: when the service refuses a \<open>Create\<close>, for whatever reason but a
  redirect, the client sends it three times before it reports the error; \<open>testAuth\<close>, whose loop has
  the same test for a transient error, sends it once.
\<close>

theorem create_repeats_logical_errors:
  assumes "\<forall>a q w. rpc_Create svc a q w = (Inl er, after w)" "\<forall>a q w. rpc_TestAuth svc a q w = (Inl er, after w)"
    and "extractLeaderAddr er = None" "\<not> transient er" "mlen (cache c) < maxCacheEntries"
  shows "fst (client_Create svc ev name cid c) = Err (Status er) \<and>
    world (snd (client_Create svc ev name cid c)) = after (after (after (world c))) \<and>
    fst (testAuth svc name c) = Err (Status er) \<and> world (snd (testAuth svc name c)) = after (world c)"
  using assms
  by (simp add: client_Create_def make_space_def generateRequestID_def Let_def maxTries_def numeral_3_eq_3 call_def
      testAuth_def)

theorem create_repeats_logical_errors_witness:
  "world (snd (client_Create ((constant_service (Inl (RpcError AlreadyExists ''file exists'')) 0)
     \<lparr>rpc_TestAuth := \<lambda>a n w. (Inl (RpcError AlreadyExists ''file exists''), w + 1)\<rparr>)
     example_client_env ''output/a'' ''worker_0'' example_client)) = 3"
proof -
  have e: "extractLeaderAddr (RpcError AlreadyExists ''file exists'') = None" by code_simp
  have t: "\<not> transient (RpcError AlreadyExists ''file exists'')" by (simp add: transient_def)
  have m: "mlen (cache example_client) < maxCacheEntries" by (simp add: example_client_def NewClient_def maxCacheEntries_def)
  show ?thesis
    using create_repeats_logical_errors [OF _ _ e t m, of "(constant_service (Inl (RpcError AlreadyExists ''file exists'')) 0)
     \<lparr>rpc_TestAuth := \<lambda>a n w. (Inl (RpcError AlreadyExists ''file exists''), w + 1)\<rparr>" "\<lambda>w. w + 1" example_client_env
        "''output/a''" "''worker_0''"]
    by (simp add: constant_service_def example_client_def NewClient_def)
qed

text \<open>
  A redirected \<open>Close\<close> reports a failure that did not happen: when the first server names the leader
  and the leader commits the repeated call, the client still returns the first error and keeps the
  file dirty, open and at its old version.
\<close>

theorem redirected_close_reports_failure:
  assumes "mget (cache c) name = Some en" "Dirty en" "os_ReadFile (local_disk c) (LocalPath en) = Some data"
    and "\<not> fail_before_commit ev" "rid = fst (generateRequestID ev c)"
    and "req = \<lparr>cl_RequestId = rid, cl_Fd = ce_Fd en, cl_Dirty = True, cl_Version = ce_Version en, cl_Data = data\<rparr>"
    and "rpc_Close svc (address c) cid req (world c) = (Inl er, w1)" "extractLeaderAddr er = Some leader"
    and "dial_error svc leader = None" "rpc_Close svc leader cid req w1 = (Inr resp, w2)"
    and "c' = snd (client_Close svc ev name cid c)"
  shows "fst (client_Close svc ev name cid c) = Err (Status er) \<and> world c' = w2 \<and> address c' = leader \<and>
    mget (cache c') name = Some en"
  using assms
  by (simp add: client_Close_def generateRequestID_def Let_def call_redirect_def call_def reconnectToLeader_def)

theorem redirected_close_reports_failure_witness:
  "fst (client_Close ((constant_service (Inr (CloseResponse ''closed'' 2)) 1)
     \<lparr>rpc_Close := \<lambda>a i q w. (if a = ''localhost:5001'' then Inl (RpcError FailedPrecondition ''not leader: localhost:5002'')
        else Inr (CloseResponse ''closed'' 2), w + 1)\<rparr>) example_client_env ''output/a'' ''worker_0'' dirty_client)
   = Err (Status (RpcError FailedPrecondition ''not leader: localhost:5002''))"
proof -
  let ?svc = "(constant_service (Inr (CloseResponse ''closed'' 2)) 1)
     \<lparr>rpc_Close := \<lambda>a i q w. (if a = ''localhost:5001'' then Inl (RpcError FailedPrecondition ''not leader: localhost:5002'')
        else Inr (CloseResponse ''closed'' 2), w + 1 :: nat)\<rparr>"
  let ?en = "snd (hd (cache dirty_client))"
  have en: "mget (cache dirty_client) ''output/a'' = Some ?en" "Dirty ?en" by (simp_all add: dirty_client_def)
  have f: "os_ReadFile (local_disk dirty_client) (LocalPath ?en) = Some ''7''"
    by (simp add: dirty_client_def new_file_def os_ReadFile_def)
  have l: "extractLeaderAddr (RpcError FailedPrecondition ''not leader: localhost:5002'') = Some ''localhost:5002''"
    by code_simp
  have a: "address dirty_client = ''localhost:5001''" by (simp add: dirty_client_def example_client_def NewClient_def)
  have s: "rpc_Close ?svc (address dirty_client) i q w = (Inl (RpcError FailedPrecondition ''not leader: localhost:5002''), w + 1)"
    "rpc_Close ?svc ''localhost:5002'' i q w = (Inr (CloseResponse ''closed'' 2), w + 1)" "dial_error ?svc b = None" for i q w b
    by (simp_all add: a) (simp add: constant_service_def)
  show ?thesis
    using redirected_close_reports_failure [OF en f _ refl refl s(1) l s(3,2) refl] by (simp add: example_client_env_def)
qed

lemma new_entry_Value:
  assumes "wf_disk (local_disk c)" "new_entry name resp cl md c = (Value en, c')"
  shows "mget (cache c') name = Some en \<and> wf_disk (local_disk c') \<and>
    os_ReadFile (local_disk c') (LocalPath en) = Some [] \<and>
    en = \<lparr>ce_Filename = name, LocalPath = local_path name, ce_Version = resp_version resp, Dirty = False,
      ce_Fd = resp_fd resp, Closed = cl, ce_Mode = md, Valid = False\<rparr>"
proof -
  let ?d = "make_dirs (Dir (local_path name)) (local_disk c)"
  obtain d where d: "os_WriteFile ?d (local_path name) [] = Some d"
    using assms(2) by (cases "os_WriteFile ?d (local_path name) []") (auto simp: new_entry_def Let_def)
  have "wf_disk ?d" by (rule make_dirs_disk(1) [OF assms(1)])
  then show ?thesis using assms(2) d read_WriteFile [OF _ d] wf_WriteFile [OF _ d]
    by (auto simp: new_entry_def Let_def touchLRU_def put_cache_def)
qed

lemma open_remote_Value:
  assumes "wf_disk (local_disk c)" "open_remote svc ev name md cid c = (Value en, c')"
  shows "mget (cache c') name = Some en \<and> os_ReadFile (local_disk c') (LocalPath en) = Some [] \<and>
    \<not> Dirty en \<and> \<not> Closed en \<and> ce_Mode en = md"
proof -
  obtain rid c1 where i: "generateRequestID ev c = (rid, c1)" by fastforce
  let ?f = "\<lambda>a. rpc_Open svc a \<lparr>fr_RequestId = rid, fr_Filename = name, fr_Mode = md, fr_ClientId = cid\<rparr>"
  obtain x c2 where x: "retry_call svc ?f maxTries None c1 = (x, c2)" by fastforce
  have "quiet_client c c2" using quiet_request_id [OF i] quiet_retry [OF x] quiet_client_trans by blast
  then have w: "wf_disk (local_disk c2)" using assms(1) by (simp add: quiet_client_def)
  obtain resp where "x = Value resp" using assms(2) i x by (cases x) (auto simp: open_remote_def)
  then have "new_entry name resp False md c2 = (Value en, c')" using assms(2) i x by (simp add: open_remote_def)
  from new_entry_Value [OF w this] show ?thesis by auto
qed

lemma open_cached_Value:
  assumes "open_cached svc ev name md cid en c = (Value en', c')"
  shows "mget (cache c') name = Some en' \<and> local_disk c' = local_disk c \<and> Valid en' \<and> LocalPath en' = LocalPath en"
proof -
  let ?c1 = "touchLRU name (put_cache name (en\<lparr>Valid := True, ce_Mode := md\<rparr>) c)"
  obtain rid c2 where i: "generateRequestID ev ?c1 = (rid, c2)" by fastforce
  let ?f = "\<lambda>a. rpc_Open svc a \<lparr>fr_RequestId = rid, fr_Filename = name, fr_Mode = md, fr_ClientId = cid\<rparr>"
  obtain x c3 where x: "call ?f c2 = (x, c3)" by fastforce
  have "local_disk c3 = local_disk c"
    using quiet_request_id [OF i] quiet_call [OF x] by (simp add: quiet_client_def touchLRU_def put_cache_def)
  then show ?thesis using assms i x
    by (cases x) (auto simp: open_cached_def Let_def put_cache_def split: if_splits)
qed

text \<open>
  A file opened twice reads as empty: the first \<open>Open\<close> makes an empty local copy, and the second,
  finding the version current, takes that copy for valid, so \<open>Read\<close> returns nothing without asking
  the service, whatever the file holds.
\<close>

theorem reopened_file_reads_empty:
  assumes "wf_disk (local_disk c)" "mget (cache c) name = None"
    and "client_Open svc ev name md cid c = (Value en, c1)"
    and "testAuth svc name c1 = (Value (ce_Version en), c2)"
    and "client_Open svc ev' name md cid c1 = (Value en', c3)"
  shows "fst (client_Read svc ev'' name cid c3) = Value []"
proof -
  obtain x c0 where s: "make_space c = (x, c0)" by fastforce
  have o: "open_remote svc ev name md cid c0 = (Value en, c1)"
    using assms(2,3) s by (cases x) (auto simp: client_Open_def)
  have "wf_disk (local_disk c0)"
    using s assms(1) by (auto simp: make_space_def evictFromCache_def wf_Remove split: if_splits option.splits)
  from open_remote_Value [OF this o] have c1: "mget (cache c1) name = Some en"
    "os_ReadFile (local_disk c1) (LocalPath en) = Some []" "\<not> Dirty en" "\<not> Closed en" "ce_Mode en = md" by simp_all
  have "quiet_client c1 c2" by (rule quiet_testAuth [OF assms(4)])
  moreover have "open_cached svc ev' name md cid en c2 = (Value en', c3)"
    using assms(4,5) c1 by (simp add: client_Open_def)
  from open_cached_Value [OF this] have "mget (cache c3) name = Some en'" "local_disk c3 = local_disk c2" "Valid en'"
    "LocalPath en' = LocalPath en" by simp_all
  ultimately show ?thesis using c1 by (simp add: client_Read_def client_ReadFile_def quiet_client_def)
qed

theorem reopened_file_reads_empty_witness:
  "\<exists>c. fst (client_Read (constant_service (Inr (OpenResponse 0 1 [])) 1) example_client_env ''output/a'' ''w'' c) = Value [] \<and>
     rpc_Read (constant_service (Inr (OpenResponse 0 1 [])) 1) (address c) ''w'' \<lparr>rd_Filename = ''output/a'', rd_Fd = 0\<rparr> (world c)
       = (Inr ([''7''], None), world c + 1)"
proof -
  let ?svc = "constant_service (Inr (OpenResponse 0 1 [])) 1"
  let ?open = "client_Open ?svc example_client_env ''output/a'' FileMode_READ ''w''"
  have w: "wf_disk (local_disk example_client)"
    by (simp add: example_client_def NewClient_def make_dirs_disk wf_empty_disk)
  have n: "mget (cache example_client) ''output/a'' = None" by (simp add: example_client_def NewClient_def)
  have "case ?open example_client of
      (Value en, c1) \<Rightarrow> ce_Version en = 1 \<and> (case ?open c1 of (Value en', c3) \<Rightarrow> True | _ \<Rightarrow> False) | _ \<Rightarrow> False"
    by code_simp
  then obtain en c1 en' c3 where c1: "?open example_client = (Value en, c1)" "ce_Version en = 1"
    and c3: "?open c1 = (Value en', c3)"
    by (auto split: prod.splits result.splits)
  have t: "testAuth ?svc ''output/a'' c = (Value 1, snd (testAuth ?svc ''output/a'' c))" for c
    by (simp add: testAuth_def maxTries_def numeral_3_eq_3 call_def constant_service_def)
  show ?thesis
    using reopened_file_reads_empty [OF w n c1(1) _ c3, of "snd (testAuth ?svc ''output/a'' c1)" example_client_env] t [of c1] c1(2)
    by (intro exI [of _ c3]) (simp add: constant_service_def)
qed

end
