(* ===== verification/Checkpoint.thy ===== *)
theory Checkpoint
  imports Client
begin

text \<open>
  The checkpoint layer: tensors and their content hash (\<open>ml_common/tensor.go\<close>), the metadata and the
  file names (\<open>ml_common/checkpoint.go\<close>, \<open>types.go\<close>), and the operations of \<open>server_handle.go\<close> on the
  client. SHA-256 and the JSON text of the metadata are parameters.
\<close>

section \<open>Tensors\<close>

type_synonym DType = string

definition Float32 :: DType where "Float32 = ''float32''"
definition Float64 :: DType where "Float64 = ''float64''"
definition Int32 :: DType where "Int32 = ''int32''"
definition Int64 :: DType where "Int64 = ''int64''"

record TensorBlob =
  Name :: string
  tensor_DType :: DType
  Shape :: "int list"
  Data :: bytes

text \<open>What \<open>HashTensor\<close> writes to the hash, and its digest in hexadecimal.\<close>

definition hashed_bytes :: "TensorBlob \<Rightarrow> bytes" where
  "hashed_bytes t = Name t @ tensor_DType t @ concat (map (\<lambda>d. format_int d @ '','') (Shape t)) @ Data t"

definition hex_digit :: "nat \<Rightarrow> char" where
  "hex_digit n = (if n < 10 then char_of (48 + n) else char_of (87 + n))"

definition hex_encode :: "bytes \<Rightarrow> string" where
  "hex_encode b = concat (map (\<lambda>c. [hex_digit (of_char c div 16), hex_digit (of_char c mod 16)]) b)"

definition HashTensor :: "(bytes \<Rightarrow> bytes) \<Rightarrow> TensorBlob \<Rightarrow> string" where
  "HashTensor sha256 t = hex_encode (sha256 (hashed_bytes t))"

text \<open>The product wraps as Go's \<open>int\<close> does.\<close>

definition BytesForShape :: "int list \<Rightarrow> DType \<Rightarrow> u64" where
  "BytesForShape shape dtype =
     (let total = fold (\<lambda>d t. t * word_of_int d) shape 1
      in if dtype = Float32 \<or> dtype = Int32 then total * 4
         else if dtype = Float64 \<or> dtype = Int64 then total * 8
         else total * 4)"

text \<open>\<open>k\<close> is \<open>int(seed*100)\<close>; a negative length makes \<open>make\<close> panic.\<close>

definition SimulateTensor :: "string \<Rightarrow> int list \<Rightarrow> int \<Rightarrow> TensorBlob option" where
  "SimulateTensor name shape k =
     (let n = sint (BytesForShape shape Float32)
      in if n < 0 then None
         else Some \<lparr>Name = name, tensor_DType = Float32, Shape = shape,
           Data = map (\<lambda>i. char_of (xor (nat (k mod 256)) (i mod 256))) [0..<nat n]\<rparr>)"

section \<open>Metadata and file names\<close>

record CheckpointMeta =
  WorkerID :: string
  Step :: int
  SavedAt :: time
  TensorMap :: "(string, string) gomap"
  ShapeMap :: "(string, int list) gomap"
  DTypeMap :: "(string, DType) gomap"
  NewTensors :: nat
  TotalTensors :: nat

definition MetaPath :: "string \<Rightarrow> int \<Rightarrow> string" where
  "MetaPath w step = ''output/checkpoints_'' @ w @ ''_step_'' @ format_int_06 step @ ''.meta''"

text \<open>\<open>hash[:2]\<close> panics on a shorter string.\<close>

definition TensorPath :: "string \<Rightarrow> string option" where
  "TensorPath hash = (if length hash < 2 then None
     else Some (''output/tensors_'' @ take 2 hash @ ''_'' @ drop 2 hash))"

definition LatestMetaPath :: "string \<Rightarrow> string" where
  "LatestMetaPath w = ''output/latest_'' @ w @ ''.ptr''"

record SaveTensorsRequest =
  st_WorkerID :: string
  st_Step :: int
  Tensors :: "TensorBlob list"

record SaveTensorsResponse =
  HashByName :: "(string, string) gomap"
  NewCount :: nat
  DedupeCount :: nat
  NewBytes :: int
  DedupedBytes :: int

section \<open>The handle\<close>

text \<open>\<open>if err != nil { return ... }\<close>, with what becomes of the error.\<close>

definition attempt :: "(go_error \<Rightarrow> go_error) \<Rightarrow> 'a result \<times> 's \<Rightarrow> ('a \<Rightarrow> 's \<Rightarrow> 'b result \<times> 's) \<Rightarrow>
    'b result \<times> 's" where
  "attempt h m k = (case m of
       (Value x, s) \<Rightarrow> k x s | (Err er, s) \<Rightarrow> (Err (h er), s) | (Crash, s) \<Rightarrow> (Crash, s))"

text \<open>\<open>fmt.Errorf("...: %w", err)\<close>.\<close>

definition wrapped :: "string \<Rightarrow> go_error \<Rightarrow> go_error" where
  "wrapped msg er = Plain (msg @ '': '' @ go_text er)"

text \<open>\<open>Open\<close> for writing, \<open>WriteFile\<close> and \<open>Close\<close>, with the three messages.\<close>

definition store_file :: "'w FileServiceClient \<Rightarrow> client_env \<Rightarrow> string \<Rightarrow> string \<Rightarrow> string \<Rightarrow> string \<Rightarrow>
    string \<Rightarrow> bytes \<Rightarrow> 'w client \<Rightarrow> unit result \<times> 'w client" where
  "store_file svc ev m_open m_write m_close path wid data c =
     attempt (wrapped m_open) (client_Open svc ev path FileMode_WRITE wid c) (\<lambda>en c1.
     attempt (wrapped m_write) (client_WriteFile path data c1) (\<lambda>u c2.
     attempt (wrapped m_close) (client_Close svc ev path wid c2) (\<lambda>u c3. (Value (), c3))))"

definition count_new :: "TensorBlob \<Rightarrow> SaveTensorsResponse \<Rightarrow> SaveTensorsResponse" where
  "count_new t r = r\<lparr>NewCount := NewCount r + 1, NewBytes := NewBytes r + int (length (Data t))\<rparr>"

definition count_deduped :: "TensorBlob \<Rightarrow> SaveTensorsResponse \<Rightarrow> SaveTensorsResponse" where
  "count_deduped t r = r\<lparr>DedupeCount := DedupeCount r + 1, DedupedBytes := DedupedBytes r + int (length (Data t))\<rparr>"

text \<open>One round of the loop of \<open>SaveTensors\<close>.\<close>

definition save_tensor :: "(bytes \<Rightarrow> bytes) \<Rightarrow> 'w FileServiceClient \<Rightarrow> client_env \<Rightarrow> string \<Rightarrow> TensorBlob \<Rightarrow>
    SaveTensorsResponse \<Rightarrow> 'w client \<Rightarrow> SaveTensorsResponse result \<times> 'w client" where
  "save_tensor sha svc ev wid t resp c =
     (let hash = HashTensor sha t;
          resp1 = resp\<lparr>HashByName := mput (Name t) hash (HashByName resp)\<rparr>
      in case TensorPath hash of
          None \<Rightarrow> (Crash, c)
        | Some path \<Rightarrow> (case testAuth svc path c of (r, c1) \<Rightarrow>
            if (case r of Value v \<Rightarrow> sint v > 0 | _ \<Rightarrow> False) then (Value (count_deduped t resp1), c1)
            else (case client_Create svc ev path wid c1 of
                (Err er, c2) \<Rightarrow>
                  if isAlreadyExists (Some er) then (Value (count_deduped t resp1), c2)
                  else (Err (wrapped (''Create tensor '' @ Name t) er), c2)
              | (Crash, c2) \<Rightarrow> (Crash, c2)
              | (Value en, c2) \<Rightarrow>
                  attempt id (store_file svc ev (''Open tensor '' @ Name t) (''Write tensor '' @ Name t)
                    (''Close tensor '' @ Name t) path wid (Data t) c2)
                    (\<lambda>u c3. (Value (count_new t resp1), c3)))))"

fun save_tensors :: "(bytes \<Rightarrow> bytes) \<Rightarrow> 'w FileServiceClient \<Rightarrow> client_env \<Rightarrow> string \<Rightarrow> TensorBlob list \<Rightarrow>
    SaveTensorsResponse \<Rightarrow> 'w client \<Rightarrow> SaveTensorsResponse result \<times> 'w client" where
  "save_tensors sha svc ev wid [] resp c = (Value resp, c)"
| "save_tensors sha svc ev wid (t # ts) resp c =
     attempt id (save_tensor sha svc ev wid t resp c) (\<lambda>resp1 c1. save_tensors sha svc ev wid ts resp1 c1)"

definition SaveTensors :: "(bytes \<Rightarrow> bytes) \<Rightarrow> 'w FileServiceClient \<Rightarrow> client_env \<Rightarrow> SaveTensorsRequest \<Rightarrow>
    'w client \<Rightarrow> SaveTensorsResponse result \<times> 'w client" where
  "SaveTensors sha svc ev req c = save_tensors sha svc ev (st_WorkerID req) (Tensors req)
     \<lparr>HashByName = [], NewCount = 0, DedupeCount = 0, NewBytes = 0, DedupedBytes = 0\<rparr> c"

text \<open>\<open>Create\<close>, where a file that exists already is no error.\<close>

definition create_or_exists :: "'w FileServiceClient \<Rightarrow> client_env \<Rightarrow> string \<Rightarrow> string \<Rightarrow> string \<Rightarrow>
    'w client \<Rightarrow> unit result \<times> 'w client" where
  "create_or_exists svc ev msg path wid c = (case client_Create svc ev path wid c of
       (Err er, c1) \<Rightarrow> if isAlreadyExists (Some er) then (Value (), c1) else (Err (wrapped msg er), c1)
     | (Crash, c1) \<Rightarrow> (Crash, c1)
     | (Value en, c1) \<Rightarrow> (Value (), c1))"

definition SaveCheckpointMeta :: "(CheckpointMeta \<Rightarrow> bytes) \<Rightarrow> 'w FileServiceClient \<Rightarrow> client_env \<Rightarrow>
    CheckpointMeta \<Rightarrow> 'w client \<Rightarrow> unit result \<times> 'w client" where
  "SaveCheckpointMeta marshal svc ev meta c =
     (let path = MetaPath (WorkerID meta) (Step meta); wid = WorkerID meta; latest = LatestMetaPath wid
      in attempt id (create_or_exists svc ev (''Create meta '' @ path) path wid c) (\<lambda>u c1.
         attempt id (store_file svc ev ''Open meta'' ''Write meta'' ''Close meta'' path wid (marshal meta) c1) (\<lambda>u c2.
         attempt id (create_or_exists svc ev ''Create latest ptr'' latest wid c2) (\<lambda>u c3.
         store_file svc ev ''Open latest ptr'' ''Write latest ptr'' ''Close latest ptr'' latest wid
           (format_int (Step meta)) c3))))"

text \<open>\<open>Open\<close> for reading, \<open>Read\<close>, and a \<open>Close\<close> whose error is ignored.\<close>

definition fetch_file :: "'w FileServiceClient \<Rightarrow> client_env \<Rightarrow> string \<Rightarrow> string \<Rightarrow> string \<Rightarrow> string \<Rightarrow>
    'w client \<Rightarrow> bytes result \<times> 'w client" where
  "fetch_file svc ev m_open m_read path wid c =
     attempt (wrapped m_open) (client_Open svc ev path FileMode_READ wid c) (\<lambda>en c1.
       case client_Read svc ev path wid c1 of
         (Crash, c2) \<Rightarrow> (Crash, c2)
       | (r, c2) \<Rightarrow> (case client_Close svc ev path wid c2 of
           (Crash, c3) \<Rightarrow> (Crash, c3)
         | (_, c3) \<Rightarrow> attempt (wrapped m_read) (r, c3) (\<lambda>data c4. (Value data, c4))))"

text \<open>When the pointer does not scan as a number the step stays as it was, \<open>-1\<close>.\<close>

definition resolved_step :: "int \<Rightarrow> bytes \<Rightarrow> int" where
  "resolved_step step data = (case Sscanf_d data of Some k \<Rightarrow> k | None \<Rightarrow> step)"

definition LoadCheckpointMeta :: "(bytes \<Rightarrow> CheckpointMeta option) \<Rightarrow> 'w FileServiceClient \<Rightarrow> client_env \<Rightarrow>
    string \<Rightarrow> int \<Rightarrow> 'w client \<Rightarrow> CheckpointMeta result \<times> 'w client" where
  "LoadCheckpointMeta unmarshal svc ev wid step c =
     attempt id
       (if step = -1
        then attempt id (fetch_file svc ev (''no checkpoint for worker '' @ wid) ''read latest pointer''
               (LatestMetaPath wid) wid c) (\<lambda>data c1. (Value (resolved_step step data), c1))
        else (Value step, c))
       (\<lambda>k c1. attempt id
         (fetch_file svc ev (''open meta for step '' @ format_int k) (''read meta for step '' @ format_int k)
            (MetaPath wid k) wid c1)
         (\<lambda>data c2. (case unmarshal data of
              None \<Rightarrow> (Err (Plain ''json: cannot unmarshal''), c2)
            | Some m \<Rightarrow> (Value m, c2))))"

text \<open>
  The loop of \<open>LoadTensors\<close>, in the order of the \<open>range\<close>. The message of an error of \<open>Open\<close> slices
  the hash, which panics when it is shorter than eight bytes.
\<close>

fun load_tensors :: "'w FileServiceClient \<Rightarrow> client_env \<Rightarrow> (string \<times> string) list \<Rightarrow> TensorBlob list \<Rightarrow>
    'w client \<Rightarrow> TensorBlob list result \<times> 'w client" where
  "load_tensors svc ev [] acc c = (Value acc, c)"
| "load_tensors svc ev ((name, hash) # hs) acc c = (case TensorPath hash of
       None \<Rightarrow> (Crash, c)
     | Some path \<Rightarrow> (case client_Open svc ev path FileMode_READ ''recovery'' c of
         (Crash, c1) \<Rightarrow> (Crash, c1)
       | (Err er, c1) \<Rightarrow> if length hash < 8 then (Crash, c1)
           else (Err (wrapped (''open tensor '' @ name @ '' (hash '' @ take 8 hash @ '')'') er), c1)
       | (Value en, c1) \<Rightarrow> (case client_Read svc ev path ''recovery'' c1 of
           (Crash, c2) \<Rightarrow> (Crash, c2)
         | (r, c2) \<Rightarrow> (case client_Close svc ev path ''recovery'' c2 of
             (Crash, c3) \<Rightarrow> (Crash, c3)
           | (_, c3) \<Rightarrow> attempt (wrapped (''read tensor '' @ name)) (r, c3) (\<lambda>data c4.
               load_tensors svc ev hs
                 (acc @ [\<lparr>Name = name, tensor_DType = [], Shape = [], Data = data\<rparr>]) c4)))))"

definition LoadTensors :: "'w FileServiceClient \<Rightarrow> client_env \<Rightarrow> (string, string) gomap \<Rightarrow> 'w client \<Rightarrow>
    TensorBlob list result \<times> 'w client" where
  "LoadTensors svc ev hashByName c = load_tensors svc ev hashByName [] c"

end
