(* ===== verification/Coordinator.thy ===== *)
theory Coordinator
  imports Checkpoint
begin

text \<open>
  The training coordinator (\<open>ml_coordinator/coordinator.go\<close>): the table of workers with their
  heartbeats, the detection of dead workers and stragglers, the periodic snapshots and the status
  page. A method takes the time as an argument; a loop that runs for ever is given by one turn.
\<close>

section \<open>State\<close>

definition HeartbeatTimeout :: time where "HeartbeatTimeout = 15 * second"
definition StragglerThreshold :: int where "StragglerThreshold = 200"

record WorkerStatus =
  ws_WorkerID :: string
  CurrentStep :: int
  LastHeartbeat :: time
  ws_Alive :: bool
  DeadSince :: "time option"
  ResumeStep :: int

record 'w coordinator =
  workers :: "(string, WorkerStatus) gomap"
  serverHandle :: "'w client"
  snapCount :: int

definition NewCoordinator :: "'w FileServiceClient \<Rightarrow> u64 \<Rightarrow> disk \<Rightarrow> string list \<Rightarrow> 'w \<Rightarrow> 'w coordinator result \<times> 'w" where
  "NewCoordinator svc n d addrs w =
     attempt (wrapped ''connect to DFS'') (DialClient svc n d addrs w)
       (\<lambda>c w1. (Value \<lparr>workers = [], serverHandle = c, snapCount = 0\<rparr>, w1))"

definition fresh_worker :: "time \<Rightarrow> string \<Rightarrow> int \<Rightarrow> WorkerStatus" where
  "fresh_worker t w step = \<lparr>ws_WorkerID = w, CurrentStep = step, LastHeartbeat = t, ws_Alive = True,
     DeadSince = None, ResumeStep = 0\<rparr>"

section \<open>Registration and heartbeats\<close>

definition RegisterWorker :: "time \<Rightarrow> string \<Rightarrow> 'w coordinator \<Rightarrow> int \<times> 'w coordinator" where
  "RegisterWorker t w c =
     (let fresh = (0, c\<lparr>workers := mput w (fresh_worker t w 0) (workers c)\<rparr>)
      in case mget (workers c) w of
          None \<Rightarrow> fresh
        | Some st \<Rightarrow>
            if \<not> ws_Alive st
            then (ResumeStep st, c\<lparr>workers := mput w
                   (st\<lparr>ws_Alive := True, LastHeartbeat := t, DeadSince := None\<rparr>) (workers c)\<rparr>)
            else fresh)"

definition WorkerHeartbeat :: "time \<Rightarrow> string \<Rightarrow> int \<Rightarrow> 'w coordinator \<Rightarrow> 'w coordinator" where
  "WorkerHeartbeat t w step c = c\<lparr>workers := mput w (case mget (workers c) w of
       None \<Rightarrow> fresh_worker t w step
     | Some st \<Rightarrow> st\<lparr>LastHeartbeat := t, CurrentStep := step, ws_Alive := True\<rparr>) (workers c)\<rparr>"

section \<open>Dead workers\<close>

definition timed_out :: "time \<Rightarrow> WorkerStatus \<Rightarrow> bool" where
  "timed_out t st \<longleftrightarrow> ws_Alive st \<and> t - LastHeartbeat st > HeartbeatTimeout"

definition mark_dead :: "time \<Rightarrow> (string, WorkerStatus) gomap \<Rightarrow> (string, WorkerStatus) gomap" where
  "mark_dead t ws = map (\<lambda>(w, st).
     (w, if timed_out t st then st\<lparr>ws_Alive := False, DeadSince := Some t\<rparr> else st)) ws"

definition set_resume :: "string \<Rightarrow> int \<Rightarrow> 'w coordinator \<Rightarrow> 'w coordinator" where
  "set_resume w step c = (case mget (workers c) w of None \<Rightarrow> c
     | Some st \<Rightarrow> c\<lparr>workers := mput w (st\<lparr>ResumeStep := step\<rparr>) (workers c)\<rparr>)"

fun recover_dead :: "(bytes \<Rightarrow> CheckpointMeta option) \<Rightarrow> 'w FileServiceClient \<Rightarrow> client_env \<Rightarrow> string list \<Rightarrow>
    'w coordinator \<Rightarrow> unit result \<times> 'w coordinator" where
  "recover_dead unm svc ev [] c = (Value (), c)"
| "recover_dead unm svc ev (w # ws) c =
     (case LoadCheckpointMeta unm svc ev w (-1) (serverHandle c) of
        (Err er, h) \<Rightarrow> recover_dead unm svc ev ws (c\<lparr>serverHandle := h\<rparr>)
      | (Crash, h) \<Rightarrow> (Crash, c\<lparr>serverHandle := h\<rparr>)
      | (Value m, h) \<Rightarrow> recover_dead unm svc ev ws (set_resume w (Step m) (c\<lparr>serverHandle := h\<rparr>)))"

definition checkDeadWorkers :: "(bytes \<Rightarrow> CheckpointMeta option) \<Rightarrow> 'w FileServiceClient \<Rightarrow> client_env \<Rightarrow> time \<Rightarrow>
    'w coordinator \<Rightarrow> unit result \<times> 'w coordinator" where
  "checkDeadWorkers unm svc ev t c =
     (let dead = map fst (filter (\<lambda>(w, st). timed_out t st) (workers c))
      in recover_dead unm svc ev dead (c\<lparr>workers := mark_dead t (workers c)\<rparr>))"

section \<open>Stragglers\<close>

definition max_step :: "(string, WorkerStatus) gomap \<Rightarrow> int" where
  "max_step ws = fold (\<lambda>(w, st) m. if ws_Alive st \<and> CurrentStep st > m then CurrentStep st else m) ws 0"

text \<open>The workers \<open>checkStragglers\<close> reports, with their lag.\<close>

definition checkStragglers :: "'w coordinator \<Rightarrow> (string \<times> int) list" where
  "checkStragglers c = (let m = max_step (workers c)
     in map (\<lambda>(w, st). (w, m - CurrentStep st))
          (filter (\<lambda>(w, st). ws_Alive st \<and> m - CurrentStep st > StragglerThreshold) (workers c)))"

text \<open>A turn of \<open>MonitorWorkers\<close>.\<close>

definition MonitorWorkers_turn :: "(bytes \<Rightarrow> CheckpointMeta option) \<Rightarrow> 'w FileServiceClient \<Rightarrow> client_env \<Rightarrow>
    time \<Rightarrow> 'w coordinator \<Rightarrow> (string \<times> int) list result \<times> 'w coordinator" where
  "MonitorWorkers_turn unm svc ev t c =
     attempt id (checkDeadWorkers unm svc ev t c) (\<lambda>u c1. (Value (checkStragglers c1), c1))"

section \<open>Snapshots and status\<close>

text \<open>A turn of \<open>TriggerSnapshot\<close>: the result of the call is only logged.\<close>

definition TriggerSnapshot_turn :: "(string \<Rightarrow> 'w \<Rightarrow> (rpc_error + bool) \<times> 'w) \<Rightarrow> 'w coordinator \<Rightarrow> 'w coordinator" where
  "TriggerSnapshot_turn initiate c =
     (let n = snapCount c + 1; h = serverHandle c
      in c\<lparr>snapCount := n,
           serverHandle := h\<lparr>world := snd (initiate (''training-snapshot-'' @ format_int n) (world h))\<rparr>\<rparr>)"

record StatusResponse =
  sr_Workers :: "WorkerStatus list"
  MaxStep :: int
  MinAliveStep :: int
  DeadWorkers :: "string list"
  sr_Timestamp :: time

definition status_add :: "WorkerStatus \<Rightarrow> StatusResponse \<Rightarrow> StatusResponse" where
  "status_add st r =
     (let r1 = r\<lparr>sr_Workers := sr_Workers r @ [st]\<rparr>
      in if \<not> ws_Alive st then r1\<lparr>DeadWorkers := DeadWorkers r1 @ [ws_WorkerID st]\<rparr>
         else let r2 = (if CurrentStep st > MaxStep r1 then r1\<lparr>MaxStep := CurrentStep st\<rparr> else r1)
              in if CurrentStep st < MinAliveStep r2 then r2\<lparr>MinAliveStep := CurrentStep st\<rparr> else r2)"

definition ServeHTTP :: "time \<Rightarrow> 'w coordinator \<Rightarrow> StatusResponse" where
  "ServeHTTP t c =
     (let r = fold (\<lambda>(w, st). status_add st) (workers c)
            \<lparr>sr_Workers = [], MaxStep = 0, MinAliveStep = 2 ^ 31 - 1, DeadWorkers = [], sr_Timestamp = t\<rparr>
      in if MinAliveStep r = 2 ^ 31 - 1 then r\<lparr>MinAliveStep := 0\<rparr> else r)"

text \<open>The requests \<open>/register\<close> and \<open>/heartbeat\<close>; \<open>None\<close> is the answer \<open>400\<close>.\<close>

definition register_request :: "time \<Rightarrow> string \<Rightarrow> 'w coordinator \<Rightarrow> int option \<times> 'w coordinator" where
  "register_request t w c = (if w = [] then (None, c)
     else case RegisterWorker t w c of (k, c1) \<Rightarrow> (Some k, c1))"

definition heartbeat_request :: "time \<Rightarrow> string \<Rightarrow> string \<Rightarrow> 'w coordinator \<Rightarrow> unit option \<times> 'w coordinator" where
  "heartbeat_request t w step c = (if w = [] then (None, c)
     else (Some (), WorkerHeartbeat t w (case Sscanf_d step of Some k \<Rightarrow> k | None \<Rightarrow> 0) c))"

section \<open>Addresses\<close>

text \<open>
  \<open>splitAddresses\<close>, which the worker has too, on the bytes of the flag: its \<open>range\<close> goes by runes,
  and would replace a byte that is not valid UTF-8.
\<close>

fun split_addresses :: "string \<Rightarrow> string list \<Rightarrow> string \<Rightarrow> string list" where
  "split_addresses [] result current = (if current \<noteq> [] then result @ [current] else result)"
| "split_addresses (x # xs) result current =
     (if x = CHR '','' then split_addresses xs (if current \<noteq> [] then result @ [current] else result) []
      else split_addresses xs result (current @ [x]))"

definition splitAddresses :: "string \<Rightarrow> string list" where
  "splitAddresses s = split_addresses s [] []"

end
