(* ===== verification/Worker.thy ===== *)
theory Worker
  imports Coordinator Complex_Main
begin

text \<open>
  The simulated training worker (\<open>ml_worker/worker.go\<close>): its model, the checkpoint and the restart
  from one, and the training loop. Random numbers and floating-point arithmetic are parameters: the
  bits of a drawn value, and what an optimizer step makes of the bits of a weight.
\<close>

section \<open>The model\<close>

definition CheckpointInterval :: int where "CheckpointInterval = 100"
definition TotalSteps :: int where "TotalSteps = 1000"

type_synonym SimpleModel = "(string, TensorBlob) gomap"

text \<open>\<open>binary.LittleEndian\<close> on 32 bits.\<close>

definition PutUint32 :: "32 word \<Rightarrow> bytes" where
  "PutUint32 x = map (\<lambda>i. char_of (nat (uint x div 256 ^ i mod 256))) [0, 1, 2, 3]"

definition Uint32 :: "bytes \<Rightarrow> 32 word" where
  "Uint32 b = (\<Sum>i \<leftarrow> [0, 1, 2, 3]. of_char (b ! i) * 256 ^ i)"

definition randomTensor :: "(nat \<Rightarrow> 32 word) \<Rightarrow> string \<Rightarrow> nat list \<Rightarrow> TensorBlob" where
  "randomTensor rnd name shape =
     \<lparr>Name = name, tensor_DType = Float32, Shape = map int shape,
      Data = concat (map (\<lambda>i. PutUint32 (rnd i)) [0..<prod_list shape])\<rparr>"

definition model_shapes :: "(string \<times> nat list) list" where
  "model_shapes = [(''layer0.weight'', [128, 256]), (''layer0.bias'', [256]),
     (''layer1.weight'', [256, 128]), (''layer1.bias'', [128]),
     (''layer2.weight'', [128, 10]), (''layer2.bias'', [10]), (''embedding.weight'', [1000, 64])]"

definition NewSimpleModel :: "(string \<Rightarrow> nat \<Rightarrow> 32 word) \<Rightarrow> SimpleModel" where
  "NewSimpleModel rnd = map (\<lambda>(n, sh). (n, randomTensor (rnd n) n sh)) model_shapes"

text \<open>The probabilities of \<open>Step\<close>, over the rationals: \<open>1 - min(1, step / k)\<close>.\<close>

definition fading :: "int \<Rightarrow> int \<Rightarrow> rat" where
  "fading step k = 1 - min 1 (of_int step / of_int k)"

definition updateProb :: "int \<Rightarrow> (string \<times> rat) list" where
  "updateProb step = [(''embedding.weight'', fading step 200),
     (''layer0.weight'', fading step 400), (''layer0.bias'', fading step 400),
     (''layer1.weight'', fading step 600), (''layer1.bias'', fading step 600),
     (''layer2.weight'', 1), (''layer2.bias'', 1)]"

fun update_words :: "(nat \<Rightarrow> 32 word \<Rightarrow> 32 word) \<Rightarrow> nat \<Rightarrow> bytes \<Rightarrow> bytes" where
  "update_words adj i (b0 # b1 # b2 # b3 # bs) =
     PutUint32 (adj i (Uint32 [b0, b1, b2, b3])) @ update_words adj (Suc i) bs"
| "update_words adj i bs = bs"

text \<open>
  \<open>draw\<close> is the random number drawn for a tensor, \<open>adj\<close> the new bits of its \<open>i\<close>th weight. A
  tensor that is not in the model is a nil pointer: reading its data panics (\<open>None\<close>).
\<close>

definition step_tensor :: "(string \<Rightarrow> rat) \<Rightarrow> (string \<Rightarrow> nat \<Rightarrow> 32 word \<Rightarrow> 32 word) \<Rightarrow> string \<Rightarrow> rat \<Rightarrow>
    SimpleModel \<Rightarrow> SimpleModel option" where
  "step_tensor draw adj n prob m = (if draw n > prob then Some m
     else (case mget m n of None \<Rightarrow> None
       | Some t \<Rightarrow> Some (mput n (t\<lparr>Data := update_words (adj n) 0 (Data t)\<rparr>) m)))"

fun step_tensors :: "(string \<Rightarrow> rat) \<Rightarrow> (string \<Rightarrow> nat \<Rightarrow> 32 word \<Rightarrow> 32 word) \<Rightarrow> (string \<times> rat) list \<Rightarrow>
    SimpleModel \<Rightarrow> SimpleModel option" where
  "step_tensors draw adj [] m = Some m"
| "step_tensors draw adj ((n, prob) # ps) m = (case step_tensor draw adj n prob m of
       None \<Rightarrow> None | Some m1 \<Rightarrow> step_tensors draw adj ps m1)"

definition model_Step :: "(string \<Rightarrow> rat) \<Rightarrow> (string \<Rightarrow> nat \<Rightarrow> 32 word \<Rightarrow> 32 word) \<Rightarrow> int \<Rightarrow>
    SimpleModel \<Rightarrow> SimpleModel option" where
  "model_Step draw adj step m = step_tensors draw adj (updateProb step) m"

section \<open>Checkpoints\<close>

definition shape_map :: "TensorBlob list \<Rightarrow> (string, int list) gomap" where
  "shape_map ts = fold (\<lambda>t. mput (Name t) (Shape t)) ts []"

definition dtype_map :: "TensorBlob list \<Rightarrow> (string, DType) gomap" where
  "dtype_map ts = fold (\<lambda>t. mput (Name t) (tensor_DType t)) ts []"

definition SaveCheckpoint :: "(bytes \<Rightarrow> bytes) \<Rightarrow> (CheckpointMeta \<Rightarrow> bytes) \<Rightarrow> 'w FileServiceClient \<Rightarrow>
    client_env \<Rightarrow> time \<Rightarrow> string \<Rightarrow> int \<Rightarrow> SimpleModel \<Rightarrow> 'w client \<Rightarrow> CheckpointMeta result \<times> 'w client" where
  "SaveCheckpoint sha marshal svc ev t wid step m c =
     (let ts = map snd m
      in attempt (wrapped ''SaveTensors failed'')
        (SaveTensors sha svc ev \<lparr>st_WorkerID = wid, st_Step = step, Tensors = ts\<rparr> c) (\<lambda>resp c1.
        let meta = \<lparr>WorkerID = wid, Step = step, SavedAt = t, TensorMap = HashByName resp,
              ShapeMap = shape_map ts, DTypeMap = dtype_map ts, NewTensors = NewCount resp,
              TotalTensors = length ts\<rparr>
        in attempt (wrapped ''SaveCheckpointMeta failed'') (SaveCheckpointMeta marshal svc ev meta c1)
             (\<lambda>u c2. (Value meta, c2))))"

text \<open>The bytes and the shape of a loaded tensor replace those of the model's tensor of that name.\<close>

definition restore_tensor :: "CheckpointMeta \<Rightarrow> TensorBlob \<Rightarrow> SimpleModel \<Rightarrow> SimpleModel" where
  "restore_tensor meta t m = (case mget m (Name t) of None \<Rightarrow> m
     | Some old \<Rightarrow> mput (Name t) (old\<lparr>Data := Data t,
         Shape := (case mget (ShapeMap meta) (Name t) of Some sh \<Rightarrow> sh | None \<Rightarrow> [])\<rparr>) m)"

definition RestoreCheckpoint :: "(bytes \<Rightarrow> CheckpointMeta option) \<Rightarrow> 'w FileServiceClient \<Rightarrow> client_env \<Rightarrow>
    string \<Rightarrow> SimpleModel \<Rightarrow> 'w client \<Rightarrow> (int \<times> SimpleModel) result \<times> 'w client" where
  "RestoreCheckpoint unm svc ev wid m c =
     attempt id (LoadCheckpointMeta unm svc ev wid (-1) c) (\<lambda>meta c1.
     attempt (wrapped ''LoadTensors failed'') (LoadTensors svc ev (TensorMap meta) c1) (\<lambda>ts c2.
       (Value (Step meta, fold (restore_tensor meta) ts m), c2)))"

section \<open>The training loop\<close>

text \<open>
  \<open>opt\<close> is the optimizer step (\<open>model_Step\<close> with the draws of that step); \<open>save\<close> the checkpoint. A
  checkpoint that fails is logged, and the training goes on.
\<close>

function train :: "(int \<Rightarrow> 'm \<Rightarrow> 'm option) \<Rightarrow> (int \<Rightarrow> 'm \<Rightarrow> 'c \<Rightarrow> 'x result \<times> 'c) \<Rightarrow> int \<Rightarrow> int \<Rightarrow> 'm \<Rightarrow> 'c \<Rightarrow>
    'm result \<times> 'c" where
  "train opt save crashAt step m c =
     (if step > TotalSteps then (Value m, c)
      else case opt step m of
          None \<Rightarrow> (Crash, c)
        | Some m1 \<Rightarrow>
            if crashAt > 0 \<and> step = crashAt then (Crash, c)
            else if step mod CheckpointInterval = 0
              then (case save step m1 c of
                  (Crash, c1) \<Rightarrow> (Crash, c1)
                | (r, c1) \<Rightarrow> train opt save crashAt (step + 1) m1 c1)
              else train opt save crashAt (step + 1) m1 c)"
  by pat_completeness auto
termination
  by (relation "measure (\<lambda>(opt, save, crashAt, step, m, c). nat (TotalSteps + 1 - step))") auto

declare train.simps [simp del]

definition worker_main :: "(bytes \<Rightarrow> bytes) \<Rightarrow> (CheckpointMeta \<Rightarrow> bytes) \<Rightarrow> (bytes \<Rightarrow> CheckpointMeta option) \<Rightarrow>
    'w FileServiceClient \<Rightarrow> client_env \<Rightarrow> (int \<Rightarrow> time) \<Rightarrow> (int \<Rightarrow> SimpleModel \<Rightarrow> SimpleModel option) \<Rightarrow> string \<Rightarrow> int \<Rightarrow>
    SimpleModel \<Rightarrow> 'w client \<Rightarrow> SimpleModel result \<times> 'w client" where
  "worker_main sha marshal unm svc ev clk opt wid crashAt m0 c0 =
     (case RestoreCheckpoint unm svc ev wid m0 c0 of
        (Crash, c) \<Rightarrow> (Crash, c)
      | (Err er, c) \<Rightarrow> train opt (\<lambda>step. SaveCheckpoint sha marshal svc ev (clk step) wid step) crashAt 1 m0 c
      | (Value (k, m), c) \<Rightarrow>
          train opt (\<lambda>step. SaveCheckpoint sha marshal svc ev (clk step) wid step) crashAt (k + 1) m c)"

end
