(* ===== verification/Snapshot.thy ===== *)
theory Snapshot
  imports ServiceFaults
begin

text \<open>
  The global snapshot of \<open>server_snapshots.go\<close>: what a server records of its clients and files, the
  markers and their acknowledgements, the training state read from the disk, and the question an
  operator asks a snapshot. \<open>InitiateSnapshot\<close> is split where it releases the server's mutex; the
  snapshot file is kept as the value its JSON text stands for.
\<close>

section \<open>Recording\<close>

definition table_version :: "server \<Rightarrow> string \<Rightarrow> i32" where
  "table_version s name = (case mget (table s) name of Some fe \<Rightarrow> fe_version fe | None \<Rightarrow> 0)"

definition open_clients :: "server \<Rightarrow> SnapshotClientInfo list" where
  "open_clients s = concat (map (\<lambda>(fd, m). map (\<lambda>(c, cs).
     \<lparr>snap_ClientID = c, snap_Filename = filename m, snap_FD = fd, snap_Mode = mode cs,
      snap_Version = table_version s (filename m)\<rparr>) (clients m)) (files s))"

text \<open>A backup records no prime sets.\<close>

definition backup_files :: "server \<Rightarrow> SnapshotFileInfo list" where
  "backup_files s = map (\<lambda>(name, fe). \<lparr>info_Filename = name, info_Version = fe_version fe,
     PrimeSet = [], CommitIdx = commitIndex s\<rparr>) (table s)"

definition primary_files :: "env \<Rightarrow> server \<Rightarrow> SnapshotFileInfo list" where
  "primary_files e s = map (\<lambda>(name, fe). \<lparr>info_Filename = name, info_Version = fe_version fe,
     PrimeSet = (case mget (filesPrimes s) name of Some S \<Rightarrow> range_order e S | None \<Rightarrow> []),
     CommitIdx = commitIndex s\<rparr>) (table s)"

definition snapshot_name :: "server \<Rightarrow> string \<Rightarrow> string" where
  "snapshot_name s i = ''snapshot_'' @ server_id s @ ''_'' @ i @ ''.json''"

text \<open>The answer of the two calls is the flag \<open>Success\<close>; \<open>wr\<close> tells whether the file can be written.\<close>

definition SendMarker :: "env \<Rightarrow> bool \<Rightarrow> string \<Rightarrow> server \<Rightarrow> bool outcome \<times> server" where
  "SendMarker e wr i s =
     (let snap = \<lparr>SnapshotID = i, TakenAt = now e, ServerID = server_id s, CommitIndex = commitIndex s,
            OpenClients = open_clients s, Files = backup_files s, WorkerSteps = [], TensorCount = 0\<rparr>
      in if wr then (Ok True, s\<lparr>snapshot_files := mput (snapshot_name s i) snap (snapshot_files s)\<rparr>)
         else (fail Internal ''write snapshot failed'', s))"

section \<open>The training state on the disk\<close>

definition training_entry :: "disk \<Rightarrow> string \<Rightarrow> string \<Rightarrow> (string, int) gomap \<times> nat \<Rightarrow>
    (string, int) gomap \<times> nat" where
  "training_entry d dir name acc = (case acc of (steps, n) \<Rightarrow>
     if HasPrefix name ''latest_'' \<and> HasSuffix name ''.ptr''
     then let w = TrimSuffix (TrimPrefix name ''latest_'') ''.ptr''
          in (case os_ReadFile d (Join dir name) of None \<Rightarrow> (steps, n)
             | Some data \<Rightarrow> (case Sscanf_d data of None \<Rightarrow> (steps, n)
                 | Some step \<Rightarrow> (mput w step steps, n)))
     else if HasPrefix name ''tensors_'' then (steps, n + 1)
     else (steps, n))"

definition training_state :: "server \<Rightarrow> (string, int) gomap \<times> nat" where
  "training_state s = (let dir = full_path s ''output''
     in case os_ReadDir (disk s) dir of None \<Rightarrow> ([], 0)
        | Some ns \<Rightarrow> fold (training_entry (disk s) dir) ns ([], 0))"

section \<open>The coordination\<close>

definition pending_peers :: "server \<Rightarrow> (string, bool) gomap" where
  "pending_peers s = map (\<lambda>(k, i). (k, False)) (filter (\<lambda>(k, i). k \<noteq> server_id s \<and> Alive i) (servers s))"

definition marker_peers :: "server \<Rightarrow> ServerInfo list" where
  "marker_peers s = map snd (filter (\<lambda>(k, i). k \<noteq> server_id s \<and> Alive i) (servers s))"

text \<open>The part under the mutex, then the part that reads the training state and writes the file.\<close>

definition snapshot_begin :: "env \<Rightarrow> string \<Rightarrow> server \<Rightarrow> server" where
  "snapshot_begin e i s =
     s\<lparr>snapshot := Some \<lparr>snap_id = i,
        localSnap = \<lparr>SnapshotID = i, TakenAt = now e, ServerID = server_id s,
          CommitIndex = commitIndex s, OpenClients = open_clients s, Files = primary_files e s,
          WorkerSteps = [], TensorCount = 0\<rparr>,
        pendingAck = pending_peers s, done_signal = False\<rparr>\<rparr>"

definition snapshot_persist :: "bool \<Rightarrow> SnapshotState \<Rightarrow> server \<Rightarrow> server option" where
  "snapshot_persist wr st s =
     (case training_state s of (steps, n) \<Rightarrow>
        let snap = (localSnap st)\<lparr>WorkerSteps := steps, TensorCount := n\<rparr>
        in if wr then Some (s\<lparr>snapshot_files :=
             mput (Join dot (snapshot_name s (snap_id st))) snap (snapshot_files s)\<rparr>)
           else None)"

text \<open>
  \<open>ReceiveMarkerAck\<close>: the acknowledgement goes to whatever snapshot is in progress; the channel takes
  one signal and further ones are dropped.
\<close>

definition ReceiveMarkerAck :: "string \<Rightarrow> server \<Rightarrow> server" where
  "ReceiveMarkerAck p s = (case snapshot s of None \<Rightarrow> s
     | Some st \<Rightarrow>
         let acks = mput p True (pendingAck st)
         in s\<lparr>snapshot := Some (st\<lparr>pendingAck := acks,
              done_signal := done_signal st \<or> list_all snd acks\<rparr>)\<rparr>)"

definition snapshot_end :: "server \<Rightarrow> server" where
  "snapshot_end s = s\<lparr>snapshot := None\<rparr>"

text \<open>
  The whole call. Every marker goroutine reports its peer, whether the call succeeded or not;
  \<open>acks\<close> are the peers that have reported when the wait ends. The result does not depend on how it
  ended.
\<close>

definition InitiateSnapshot :: "env \<Rightarrow> bool \<Rightarrow> string list \<Rightarrow> string \<Rightarrow> server \<Rightarrow> bool outcome \<times> server" where
  "InitiateSnapshot e wr acks i s =
     (if role s \<noteq> Primary then (fail FailedPrecondition ''only the primary can initiate snapshots'', s)
      else let s1 = snapshot_begin e i s
           in case snapshot_persist wr (the (snapshot s1)) s1 of
                None \<Rightarrow> (fail Internal ''write snapshot failed'', s1)
              | Some s2 \<Rightarrow> (Ok True, snapshot_end (fold ReceiveMarkerAck acks s2)))"

section \<open>Reading a snapshot\<close>

definition LoadSnapshot :: "string \<Rightarrow> server \<Rightarrow> GlobalSnapshot option" where
  "LoadSnapshot path s = mget (snapshot_files s) path"

fun check_clients :: "string \<Rightarrow> SnapshotClientInfo list \<Rightarrow> bool \<times> SnapshotClientInfo list \<Rightarrow>
    bool \<times> SnapshotClientInfo list" where
  "check_clients c [] acc = acc"
| "check_clients c (oc # ocs) (dirty, details) =
     (if snap_ClientID oc = c
      then check_clients c ocs (dirty \<or> snap_Mode oc = FileMode_WRITE, details @ [oc])
      else check_clients c ocs (dirty, details))"

definition CheckClientInSnapshot :: "GlobalSnapshot \<Rightarrow> string \<Rightarrow> bool \<times> SnapshotClientInfo list" where
  "CheckClientInSnapshot snap c = check_clients c (OpenClients snap) (False, [])"

section \<open>What is recorded\<close>

lemma check_clients_eq:
  "check_clients c ocs (b, ds) =
     (b \<or> (\<exists>oc \<in> set ocs. snap_ClientID oc = c \<and> snap_Mode oc = FileMode_WRITE),
      ds @ filter (\<lambda>oc. snap_ClientID oc = c) ocs)"
  by (induction c ocs "(b, ds)" arbitrary: b ds rule: check_clients.induct) auto

lemma CheckClient_eq:
  "CheckClientInSnapshot snap c =
     (\<exists>oc \<in> set (OpenClients snap). snap_ClientID oc = c \<and> snap_Mode oc = FileMode_WRITE,
      filter (\<lambda>oc. snap_ClientID oc = c) (OpenClients snap))"
  by (simp add: CheckClientInSnapshot_def check_clients_eq)

lemma writer_recorded: "(\<exists>oc \<in> set (open_clients s). snap_ClientID oc = c \<and> snap_Mode oc = FileMode_WRITE) \<longleftrightarrow>
    (\<exists>fd m cs. (fd, m) \<in> set (files s) \<and> (c, cs) \<in> set (clients m) \<and> mode cs = FileMode_WRITE)"
  by (fastforce simp: open_clients_def)

lemma client_recorded: "(\<exists>oc \<in> set (open_clients s). snap_ClientID oc = c \<and> fd = snap_FD oc) \<longleftrightarrow>
    (\<exists>m cs. (fd, m) \<in> set (files s) \<and> (c, cs) \<in> set (clients m))"
  by (fastforce simp: open_clients_def)

lemma ReceiveMarkerAck_files [simp]:
  "snapshot_files (fold ReceiveMarkerAck acks s) = snapshot_files s"
  by (induction acks arbitrary: s) (simp_all add: ReceiveMarkerAck_def Let_def split: option.splits)

lemma ReceiveMarkerAcks_only_snapshot: "\<exists>x. fold ReceiveMarkerAck acks s = s\<lparr>snapshot := x\<rparr>"
proof (induction acks arbitrary: s)
  case Nil
  have "s = s\<lparr>snapshot := snapshot s\<rparr>" by simp
  then show ?case by (metis fold_simps(1))
next
  case (Cons p acks)
  have "\<exists>y. ReceiveMarkerAck p s = s\<lparr>snapshot := y\<rparr>"
  proof (cases "snapshot s")
    case None
    then have "ReceiveMarkerAck p s = s\<lparr>snapshot := snapshot s\<rparr>" by (simp add: ReceiveMarkerAck_def)
    then show ?thesis by blast
  qed (auto simp: ReceiveMarkerAck_def Let_def)
  then obtain y where "ReceiveMarkerAck p s = s\<lparr>snapshot := y\<rparr>" by blast
  then show ?case using Cons [of "s\<lparr>snapshot := y\<rparr>"] by auto
qed


section \<open>Properties\<close>

lemma training_state_snapshot [simp]: "training_state (s\<lparr>snapshot := x\<rparr>) = training_state s"
  by (simp add: training_state_def full_path_def Let_def split: option.split)

lemma InitiateSnapshot_Ok:
  assumes "role s = Primary"
  obtains snap where
    "InitiateSnapshot e True acks i s = (Ok True, s\<lparr>snapshot := None,
       snapshot_files := mput (Join dot (snapshot_name s i)) snap (snapshot_files s)\<rparr>)"
    "CommitIndex snap = commitIndex s" "OpenClients snap = open_clients s" "Files snap = primary_files e s"
    "WorkerSteps snap = fst (training_state s)" "TensorCount snap = snd (training_state s)"
proof -
  let ?s1 = "snapshot_begin e i s"
  let ?st = "the (snapshot ?s1)"
  let ?snap = "(localSnap ?st)\<lparr>WorkerSteps := fst (training_state s), TensorCount := snd (training_state s)\<rparr>"
  let ?s2 = "?s1\<lparr>snapshot_files := mput (Join dot (snapshot_name s i)) ?snap (snapshot_files s)\<rparr>"
  have p: "snapshot_persist True ?st ?s1 = Some ?s2"
    by (simp add: snapshot_persist_def snapshot_begin_def case_prod_beta snapshot_name_def)
  obtain x where x: "fold ReceiveMarkerAck acks ?s2 = ?s2\<lparr>snapshot := x\<rparr>"
    using ReceiveMarkerAcks_only_snapshot by blast
  have "InitiateSnapshot e True acks i s = (Ok True, s\<lparr>snapshot := None,
       snapshot_files := mput (Join dot (snapshot_name s i)) ?snap (snapshot_files s)\<rparr>)"
    using assms p x by (simp add: InitiateSnapshot_def Let_def snapshot_end_def) (simp add: snapshot_begin_def)
  moreover have "CommitIndex ?snap = commitIndex s" "OpenClients ?snap = open_clients s"
    "Files ?snap = primary_files e s" by (simp_all add: snapshot_begin_def)
  ultimately show ?thesis using that by simp
qed

text \<open>
  C23. A snapshot tells who was writing: the file that \<open>InitiateSnapshot\<close> leaves answers
  \<open>CheckClientInSnapshot\<close> with true exactly for the clients that had a descriptor open for writing,
  it lists every descriptor of a client, it holds the version of every file of the table and the
  prime set of those that have one, and nothing else of the server changes.
\<close>

theorem snapshot_tells_writers:
  assumes "role s = Primary" "fair_order e" "InitiateSnapshot e True acks i s = (r, s')"
  shows "\<exists>snap. r = Ok True \<and> LoadSnapshot (Join dot (snapshot_name s i)) s' = Some snap \<and>
    (\<forall>c. fst (CheckClientInSnapshot snap c) \<longleftrightarrow>
       (\<exists>fd m cs. (fd, m) \<in> set (files s) \<and> (c, cs) \<in> set (clients m) \<and> mode cs = FileMode_WRITE)) \<and>
    (\<forall>c fd. fd \<in> snap_FD ` set (snd (CheckClientInSnapshot snap c)) \<longleftrightarrow>
       (\<exists>m cs. (fd, m) \<in> set (files s) \<and> (c, cs) \<in> set (clients m))) \<and>
    map (\<lambda>f. (info_Filename f, info_Version f)) (Files snap) = map (\<lambda>(n, fe). (n, fe_version fe)) (table s) \<and>
    (\<forall>f S. f \<in> set (Files snap) \<and> mget (filesPrimes s) (info_Filename f) = Some S \<longrightarrow>
       mset (PrimeSet f) = mset S) \<and>
    CommitIndex snap = commitIndex s \<and>
    s' = s\<lparr>snapshot := None, snapshot_files := snapshot_files s'\<rparr>"
proof -
  obtain snap where snap:
    "InitiateSnapshot e True acks i s = (Ok True, s\<lparr>snapshot := None,
       snapshot_files := mput (Join dot (snapshot_name s i)) snap (snapshot_files s)\<rparr>)"
    "CommitIndex snap = commitIndex s" "OpenClients snap = open_clients s" "Files snap = primary_files e s"
    by (rule InitiateSnapshot_Ok [OF assms(1)])
  have w: "fst (CheckClientInSnapshot snap c) \<longleftrightarrow>
       (\<exists>fd m cs. (fd, m) \<in> set (files s) \<and> (c, cs) \<in> set (clients m) \<and> mode cs = FileMode_WRITE)" for c
    by (simp add: CheckClient_eq snap(3) writer_recorded)
  have d: "fd \<in> snap_FD ` set (snd (CheckClientInSnapshot snap c)) \<longleftrightarrow>
       (\<exists>m cs. (fd, m) \<in> set (files s) \<and> (c, cs) \<in> set (clients m))" for c fd
    using client_recorded [of s c fd] by (auto simp: CheckClient_eq snap(3) image_iff)
  have v: "map (\<lambda>f. (info_Filename f, info_Version f)) (Files snap) = map (\<lambda>(n, fe). (n, fe_version fe)) (table s)"
    by (simp add: snap(4) primary_files_def case_prod_beta)
  have p: "mset (PrimeSet f) = mset S"
    if "f \<in> set (Files snap) \<and> mget (filesPrimes s) (info_Filename f) = Some S" for f S
    using that assms(2) by (auto simp: snap(4) primary_files_def fair_order_def)
  show ?thesis using snap(1,2) assms(3) w d v p by (intro exI [of _ snap]) (auto simp: LoadSnapshot_def)
qed

theorem snapshot_tells_writers_witness:
  "\<exists>snap s'. snd (InitiateSnapshot example_env True [''2'', ''3''] ''t1'' example_primary) = s' \<and>
     LoadSnapshot (Join dot ''snapshot_1_t1.json'') s' = Some snap \<and>
     fst (CheckClientInSnapshot snap ''worker_0'') \<and> \<not> fst (CheckClientInSnapshot snap ''worker_1'')"
proof -
  have p: "role example_primary = Primary" by (simp add: example_primary_def)
  let ?r = "InitiateSnapshot example_env True [''2'', ''3''] ''t1'' example_primary"
  obtain snap where s: "LoadSnapshot (Join dot (snapshot_name example_primary ''t1'')) (snd ?r) = Some snap"
    "\<forall>c. fst (CheckClientInSnapshot snap c) \<longleftrightarrow> (\<exists>fd m cs. (fd, m) \<in> set (files example_primary) \<and>
       (c, cs) \<in> set (clients m) \<and> mode cs = FileMode_WRITE)"
    using snapshot_tells_writers [OF p fair_example surjective_pairing [of ?r]] by (elim exE conjE) simp
  have "snapshot_name example_primary ''t1'' = ''snapshot_1_t1.json''" by (simp add: snapshot_name_def)
  moreover have "fst (CheckClientInSnapshot snap ''worker_0'')" "\<not> fst (CheckClientInSnapshot snap ''worker_1'')"
    by (simp_all add: s(2)) (auto simp: example_primary_def)
  ultimately show ?thesis using s(1) by auto
qed

text \<open>The snapshot in progress after some acknowledgements.\<close>

lemma snapshot_ReceiveMarkerAck:
  "snapshot s = Some st \<Longrightarrow> snapshot (ReceiveMarkerAck p s) = Some (st\<lparr>
     pendingAck := mput p True (pendingAck st),
     done_signal := done_signal st \<or> list_all snd (mput p True (pendingAck st))\<rparr>)"
  by (simp add: ReceiveMarkerAck_def Let_def)

lemma list_all_mput: "list_all snd m \<Longrightarrow> list_all snd (mput p True m)"
  by (induction m) auto

lemma snapshot_acks:
  assumes "snapshot s = Some st"
  shows "snapshot (fold ReceiveMarkerAck acks s) = Some (st\<lparr>
     pendingAck := fold (\<lambda>p. mput p True) acks (pendingAck st),
     done_signal := done_signal st \<or>
       (acks \<noteq> [] \<and> list_all snd (fold (\<lambda>p. mput p True) acks (pendingAck st)))\<rparr>)"
  using assms
proof (induction acks arbitrary: s st)
  case (Cons p acks)
  have mono: "list_all snd m \<Longrightarrow> list_all snd (fold (\<lambda>p. mput p True) acks m)" for m :: "(string, bool) gomap"
    by (induction acks arbitrary: m) (simp_all add: list_all_mput)
  let ?m = "mput p True (pendingAck st)"
  have eq: "list_all snd ?m \<or> list_all snd (fold (\<lambda>p. mput p True) acks ?m) \<longleftrightarrow>
      list_all snd (fold (\<lambda>p. mput p True) acks ?m)" using mono [of ?m] by blast
  show ?case
    using Cons.IH [OF snapshot_ReceiveMarkerAck [OF Cons.prems], of p] by (cases "acks = []") (simp_all add: eq disj_assoc)
qed simp

lemma mget_acks: "mget (fold (\<lambda>p. mput p True) acks m) k = (if k \<in> set acks then Some True else mget m k)"
  by (induction acks arbitrary: m) auto

lemma mwf_acks: "mwf m \<Longrightarrow> mwf (fold (\<lambda>p. mput p True) acks m)"
  by (induction acks arbitrary: m) auto

lemma list_all_mwf: "mwf m \<Longrightarrow> list_all snd m \<longleftrightarrow> (\<forall>k. mget m k \<noteq> Some False)"
  by (induction m) (auto, metis option.distinct(1))

lemma mget_pending:
  "mwf m \<Longrightarrow> map_of (map (\<lambda>(k, i). (k, False)) (filter (\<lambda>(k, i). k \<noteq> me \<and> Alive i) m)) k =
     (case mget m k of Some i \<Rightarrow> if k \<noteq> me \<and> Alive i then Some False else None | None \<Rightarrow> None)"
proof (induction m)
  case (Cons x m)
  obtain j i where x: "x = (j, i)" by fastforce
  then have "mget m j = None" "mwf m" using Cons.prems by simp_all
  then show ?case using Cons.IH x by (cases "k = j") auto
qed simp

lemma mwf_pending: "mwf (servers s) \<Longrightarrow> mwf (pending_peers s)"
  by (simp add: mwf_def pending_peers_def case_prod_beta comp_def distinct_map_filter)

text \<open>
  C24. The wait of a snapshot ends by acknowledgement exactly when every peer that was alive at the
  start has reported; reports of other peers, and repeated ones, do not count.
\<close>

theorem snapshot_waits_for_every_peer:
  assumes "mwf (servers s)" "acks \<noteq> []"
  shows "\<exists>st. snapshot (fold ReceiveMarkerAck acks (snapshot_begin e i s)) = Some st \<and> snap_id st = i \<and>
    (done_signal st \<longleftrightarrow>
      (\<forall>p info. mget (servers s) p = Some info \<and> Alive info \<and> p \<noteq> server_id s \<longrightarrow> p \<in> set acks))"
proof -
  let ?m = "fold (\<lambda>p. mput p True) acks (pending_peers s)"
  have "list_all snd ?m \<longleftrightarrow> (\<forall>k. mget ?m k \<noteq> Some False)"
    by (intro list_all_mwf mwf_acks mwf_pending assms(1))
  also have "\<dots> \<longleftrightarrow> (\<forall>k. k \<notin> set acks \<longrightarrow> mget (pending_peers s) k \<noteq> Some False)"
    by (simp add: mget_acks)
  also have "\<dots> \<longleftrightarrow> (\<forall>p info. mget (servers s) p = Some info \<and> Alive info \<and> p \<noteq> server_id s \<longrightarrow> p \<in> set acks)"
    by (auto simp: pending_peers_def mget_pending [OF assms(1)] split: option.splits)
  finally show ?thesis
    using assms(2) snapshot_acks [of "snapshot_begin e i s" _ acks] by (simp add: snapshot_begin_def)
qed

theorem snapshot_waits_for_every_peer_witness:
  "(\<exists>st. snapshot (fold ReceiveMarkerAck [''3'', ''2''] (snapshot_begin example_env ''t1'' example_primary)) = Some st
     \<and> done_signal st) \<and>
   (\<exists>st. snapshot (fold ReceiveMarkerAck [''3'', ''3''] (snapshot_begin example_env ''t1'' example_primary)) = Some st
     \<and> \<not> done_signal st)"
proof -
  have w: "mwf (servers example_primary)" by (simp add: mwf_def example_servers_def)
  have m: "p = ''1'' \<or> p = ''2'' \<or> p = ''3''" if "mget (servers example_primary) p = Some info" for p info
    using that by (simp add: example_servers_def split: if_splits)
  let ?all = "\<lambda>acks. \<forall>p info. mget (servers example_primary) p = Some info \<and> Alive info \<and>
      p \<noteq> server_id example_primary \<longrightarrow> p \<in> set acks"
  obtain st where st: "snapshot (fold ReceiveMarkerAck [''3'', ''2''] (snapshot_begin example_env ''t1'' example_primary)) = Some st"
    "done_signal st \<longleftrightarrow> ?all [''3'', ''2'']"
    using snapshot_waits_for_every_peer [OF w, of "[''3'', ''2'']" example_env "''t1''", OF list.distinct(2)] by (elim exE conjE) blast
  obtain st' where st': "snapshot (fold ReceiveMarkerAck [''3'', ''3''] (snapshot_begin example_env ''t1'' example_primary)) = Some st'"
    "done_signal st' \<longleftrightarrow> ?all [''3'', ''3'']"
    using snapshot_waits_for_every_peer [OF w, of "[''3'', ''3'']" example_env "''t1''", OF list.distinct(2)] by (elim exE conjE) blast
  have "?all [''3'', ''2'']" using m by fastforce
  moreover have "mget (servers example_primary) ''2'' \<noteq> None \<and> Alive (the (mget (servers example_primary) ''2''))"
    by (simp add: example_servers_def)
  then have "\<not> ?all [''3'', ''3'']" by (auto intro!: exI [of _ "''2''"])
  ultimately show ?thesis using st st' by blast
qed

text \<open>What the commit of a file needs does not depend on the snapshot in progress.\<close>

lemma snapshot_begin_keeps:
  "steady (snapshot_begin e i s) \<longleftrightarrow> steady s" "close_majority e' (snapshot_begin e i s) \<longleftrightarrow> close_majority e' s"
  "can_commit e' req (snapshot_begin e i s) fn \<longleftrightarrow> can_commit e' req s fn"
  using server_ok_cong [of "snapshot_begin e i s" s]
  by (simp_all add: snapshot_begin_def steady_def server_inv_def locks_free_def fds_ok_def handles_ok_def
      close_majority_def reaches_majority_def peer_answers_def peers_def can_commit_def leader_check_def
      cached_def current_version_def cong: option.case_cong)

text \<open>
  The snapshot is not a consistent cut: the primary records itself and then goes on serving, so a
  \<open>Close\<close> may commit before the marker reaches a backup; the backup then records a commit index that
  the primary's own part of the same snapshot does not have, an effect without its cause.
\<close>

theorem snapshot_cut_inconsistent:
  assumes "s = snapshot_begin e0 i s0" "steady s" "can_commit e req s fn" "healthy e" "close_majority e s"
    and "commitIndex s \<le> int (length (log s))" "int (length (log s)) + 1 < 2 ^ 31"
    and "le = commit_entry e req fn s"
    and "b' = snd (AppendEntries eb (append_request (server_id s) le (Index le)) b)"
    and "b'' = snd (SendMarker em True i b')"
  shows "\<exists>v st snap. fst (Close e req s) = Ok (CloseResponse ''closed'' v) \<and>
    snapshot s = Some st \<and> LoadSnapshot (snapshot_name b' i) b'' = Some snap \<and>
    SnapshotID snap = SnapshotID (localSnap st) \<and> CommitIndex (localSnap st) < CommitIndex snap"
proof -
  let ?n = "int (length (log s))"
  have le: "Index le = ?n + 1" by (simp add: assms(8) commit_entry_def)
  have pb: "of_pb (to_pb le) = le" using le assms(7) by (intro of_to_pb) simp_all
  have "commitIndex b' \<ge> ?n + 1"
    unfolding assms(9) using AppendEntries_one [OF pb _ _ refl, of "Index le" eb "server_id s" b] le assms(7)
    by simp
  moreover obtain st where "snapshot s = Some st" "SnapshotID (localSnap st) = i" "CommitIndex (localSnap st) = commitIndex s"
    using assms(1) by (simp add: snapshot_begin_def)
  ultimately show ?thesis
    using Close_committed(1) [OF assms(2-5) refl refl] assms(6,10)
    by (simp add: SendMarker_def Let_def LoadSnapshot_def)
qed

theorem snapshot_cut_inconsistent_witness:
  "\<exists>b path snap. LoadSnapshot path b = Some snap \<and> SnapshotID snap = ''t1'' \<and> CommitIndex snap > 0 \<and>
    (\<forall>st. snapshot (snapshot_begin example_env ''t1'' example_primary) = Some st \<longrightarrow> CommitIndex (localSnap st) = 0)"
proof -
  let ?s = "snapshot_begin example_env ''t1'' example_primary"
  have s: "steady ?s" "can_commit example_env (example_close ''r1'' ''7'') ?s ''output/a''" "close_majority example_env ?s"
    using steady_primary can_commit_example majority_example by (simp_all add: snapshot_begin_keeps)
  let ?le = "commit_entry example_env (example_close ''r1'' ''7'') ''output/a'' ?s"
  have l: "commitIndex ?s \<le> int (length (log ?s))" "int (length (log ?s)) + 1 < 2 ^ 31" "0 \<le> commitIndex ?s"
    by (simp_all add: snapshot_begin_def)
  have st: "snapshot ?s = Some st \<Longrightarrow> CommitIndex (localSnap st) = 0 \<and> SnapshotID (localSnap st) = ''t1''" for st
    by (auto simp: snapshot_begin_def)
  show ?thesis
    using snapshot_cut_inconsistent [OF refl s(1,2) healthy_example s(3) l(1,2) refl refl refl, of example_env "example_backup ''2''" example_env]
      st by (elim exE conjE) force
qed

end
