(* ===== verification/Cluster.thy ===== *)
theory Cluster
  imports WriteProps ClientProps Worker Snapshot "HOL-Library.Code_Target_Nat"
begin

text \<open>
  The client on the servers: the model of the servers as the service behind the client's connection,
  and what a client, a worker or the coordinator finds in the files that a \<open>Close\<close> has committed.
\<close>

section \<open>The servers as the service\<close>

type_synonym cluster = "(string, server) gomap"

text \<open>
  The answer a client gets: a server whose process ends, or whose handler never returns, gives none.
\<close>

definition answer :: "'a outcome \<Rightarrow> rpc_error + 'a" where
  "answer r = (case r of Ok x \<Rightarrow> Inr x | Fail er \<Rightarrow> Inl er
     | Deadlock \<Rightarrow> Inl (RpcError DeadlineExceeded ''context deadline exceeded'')
     | Blocked \<Rightarrow> Inl (RpcError DeadlineExceeded ''context deadline exceeded'')
     | _ \<Rightarrow> Inl (RpcError Unavailable ''connection refused''))"

definition stopped :: "'a outcome \<Rightarrow> bool" where
  "stopped r \<longleftrightarrow> r = Panic \<or> r = Exit \<or> r = Deadlock"

definition serve_at :: "(server \<Rightarrow> 'a outcome \<times> server) \<Rightarrow> string \<Rightarrow> cluster \<Rightarrow> (rpc_error + 'a) \<times> cluster" where
  "serve_at h a w = (case mget w a of
       None \<Rightarrow> (Inl (RpcError Unavailable ''connection refused''), w)
     | Some s \<Rightarrow> (case h s of (r, s') \<Rightarrow> (answer r, if stopped r then mdel a w else mput a s' w)))"

definition with_client :: "string \<Rightarrow> env \<Rightarrow> env" where
  "with_client cid e = e\<lparr>metadata := Some [(''clientid'', [cid])]\<rparr>"

definition cluster_service :: "env \<Rightarrow> cluster FileServiceClient" where
  "cluster_service e = \<lparr>
     rpc_Create = (\<lambda>a q. serve_at (Create e q) a), rpc_Open = (\<lambda>a q. serve_at (Open e q) a),
     rpc_Close = (\<lambda>a i q. serve_at (Close (with_client i e) q) a),
     rpc_Write = (\<lambda>a i q. serve_at (Write (with_client i e) q) a),
     rpc_Delete = (\<lambda>a q. serve_at (Delete e q) a),
     rpc_Read = (\<lambda>a i q w. (case serve_at (Read (with_client i e) q) a w of
        (Inl er, w') \<Rightarrow> (Inl er, w') | (Inr xs, w') \<Rightarrow> (Inr (xs, None), w'))),
     rpc_TestAuth = (\<lambda>a n. serve_at (\<lambda>s. (TestAuth n s, s)) a),
     rpc_GetLeader = (\<lambda>a w. (case serve_at (\<lambda>s. (GetLeader s, s)) a w of
        (Inl er, w') \<Rightarrow> (Inl er, w') | (Inr (i, l), w') \<Rightarrow> (Inr l, w'))),
     dial_error = (\<lambda>a. None)\<rparr>"

section \<open>\<open>Open\<close> and \<open>Read\<close> on a server\<close>

lemma open_fd_disk: "disk (snd (open_fd e rid cid md n h v msg s)) = disk s"
    "rootDir (snd (open_fd e rid cid md n h v msg s)) = rootDir s"
  by (simp_all add: open_fd_def Let_def remember_def)

lemma getFileEntry_more [simp]: "disk (snd (getFileEntry n s)) = disk s" "rootDir (snd (getFileEntry n s)) = rootDir s"
  "requests (snd (getFileEntry n s)) = requests s"
  by (simp_all add: getFileEntry_def Let_def set_entry_def)

lemma set_entry_more [simp]: "disk (set_entry n fe s) = disk s" "rootDir (set_entry n fe s) = rootDir s"
  "requests (set_entry n fe s) = requests s"
  by (simp_all add: set_entry_def)

lemma open_input_disk: "disk (snd (open_input e req n fe s)) = disk s" "rootDir (snd (open_input e req n fe s)) = rootDir s"
  by (simp_all add: open_input_def case_prod_beta open_fd_disk split: option.splits sum.splits)

lemma open_output_disk: "disk (snd (open_output e req n fe s)) = disk s" "rootDir (snd (open_output e req n fe s)) = rootDir s"
  by (simp_all add: open_output_def open_fd_disk split: sum.splits)

lemma Open_disk: "disk (snd (Open e req s)) = disk s" "rootDir (snd (Open e req s)) = rootDir s"
  by (simp_all add: Open_def Let_def case_prod_beta open_input_disk open_output_disk split: option.splits response.splits)

lemma Open_output:
  assumes "cached e s (fr_RequestId req) = None" "sanitizePath (fr_Filename req) = Some p" "leader_check s = None"
    and "\<not> HasPrefix (normPath p) ''input/''"
  shows "Open e req s = open_output e req (normPath p) (fst (getFileEntry (normPath p) s)) (snd (getFileEntry (normPath p) s))"
  using assms by (simp add: Open_def Let_def case_prod_beta)

text \<open>An \<open>Open\<close> that is not answered from the cache and fails leaves the request uncached.\<close>

lemma Open_failed:
  assumes "cached e s (fr_RequestId req) = None" "sanitizePath (fr_Filename req) = Some p"
    and "\<not> HasPrefix (normPath p) ''input/''" "Open e req s = (r, s')" "\<forall>x. r \<noteq> Ok x"
  shows "requests s' = requests s"
proof (cases "leader_check s")
  case None
  have "open_output e req (normPath p) (fst (getFileEntry (normPath p) s)) (snd (getFileEntry (normPath p) s)) = (r, s')"
    using Open_output [OF assms(1,2) None assms(3)] assms(4) by simp
  then show ?thesis using assms(5)
    by (auto simp: open_output_def open_fd_def Let_def split: sum.splits if_splits)
qed (use assms(4) in \<open>simp add: Open_def\<close>)

text \<open>After a successful one the client's next \<open>Read\<close> returns what the file holds.\<close>

lemma Open_then_Read:
  assumes "cached e s (fr_RequestId req) = None" "sanitizePath (fr_Filename req) = Some p"
    and "\<not> HasPrefix (normPath p) ''input/''" "Open e req s = (Ok r, s')"
    and "Read e' \<lparr>rd_Filename = fr_Filename req, rd_Fd = fd\<rparr> s' = (Ok cs, s'')"
    and "getClientIDFromContext e' = fr_ClientId req"
  shows "os_ReadFile (disk s) (full_path s (normPath p)) = Some (concat cs)"
proof -
  let ?n = "normPath p" and ?s1 = "snd (getFileEntry (normPath p) s)"
  have l: "leader_check s = None" using assms(4) by (auto simp: Open_def split: option.splits)
  have o: "open_output e req ?n (fst (getFileEntry ?n s)) ?s1 = (Ok r, s')"
    using Open_output [OF assms(1,2) l assms(3)] assms(4) by simp
  then obtain h where h: "os_OpenFile (disk s) (full_path s ?n) (fr_Mode req = FileMode_WRITE) = Inr h"
    by (auto simp: open_output_def full_path_def split: sum.splits)
  then have "open_fd e (fr_RequestId req) (fr_ClientId req) (fr_Mode req) ?n h (fe_version (fst (getFileEntry ?n s)))
      ''opened output file'' ?s1 = (Ok r, s')"
    using o by (auto simp: open_output_def full_path_def split: if_splits)
  then have s': "mget (openMap s') (fr_ClientId req, ?n) = Some (nextFD ?s1)"
    "\<exists>m. mget (files s') (nextFD ?s1) = Some m \<and> meta_file m = Some h" "disk s' = disk s"
    by (auto simp: open_fd_def Let_def remember_def)
  then have "\<exists>data. os_ReadHandle (disk s) h = Some data \<and> cs = chunks ChunkSize data"
    using assms(5,6) assms(2) by (auto simp: Read_def Let_def split: option.splits if_splits)
  moreover have "os_ReadHandle (disk s) h = Some data \<Longrightarrow> os_ReadFile (disk s) (full_path s ?n) = Some data" for data
    using h by (auto simp: os_OpenFile_def os_ReadHandle_def os_ReadFile_def split: option.splits if_splits)
  ultimately show ?thesis using chunks_ok [of ChunkSize] by (auto simp: ChunkSize_def)
qed

section \<open>A fresh client\<close>

text \<open>What a retry loop returns was answered by one of its calls.\<close>

lemma retry_call_Value:
  assumes "\<And>addr w x w'. I w \<Longrightarrow> f addr w = (Inl x, w') \<Longrightarrow> I w'"
    and "I (world c)" "retry_call svc f n er c = (Value r, c')"
  shows "\<exists>addr w. I w \<and> f addr w = (Inr r, world c') \<and> address c' = addr"
  using assms(2,3)
proof (induction n arbitrary: er c)
  case (Suc n)
  obtain x w1 where x: "f (address c) (world c) = (x, w1)" by fastforce
  then have k: "call f c = (x, c\<lparr>world := w1\<rparr>)" by (simp add: call_def)
  show ?case
  proof (cases x)
    case (Inr y)
    then show ?thesis using Suc.prems x k by auto
  next
    case (Inl e)
    then have I1: "I w1" using assms(1) Suc.prems(1) x by blast
    show ?thesis
    proof (cases "extractLeaderAddr e")
      case None
      then show ?thesis using Suc.IH [of "c\<lparr>world := w1\<rparr>"] Suc.prems(2) k Inl I1 by simp
    next
      case (Some a)
      show ?thesis
      proof (cases "dial_error svc a")
        case None
        then show ?thesis using Suc.IH [of "c\<lparr>world := w1, address := a\<rparr>"] Suc.prems(2) k Inl I1 Some
          by (simp add: reconnectToLeader_def)
      qed (use Suc.prems(2) k Inl Some in \<open>simp add: reconnectToLeader_def\<close>)
    qed
  qed
qed (simp split: option.splits)

lemma new_entry_world: "world (snd (new_entry name resp cl md c)) = world c" "address (snd (new_entry name resp cl md c)) = address c"
  by (simp_all add: new_entry_def Let_def touchLRU_def put_cache_def split: option.splits)

lemma make_space_world: "make_space c = (r, c') \<Longrightarrow> world c' = world c \<and> requestCounter c' = requestCounter c"
  by (auto simp: make_space_def evictFromCache_def split: if_splits option.splits)

lemma recv_chunks_all: "recv_chunks k n xs acc = (False, x) \<Longrightarrow> x = acc @ concat xs"
  by (induction k n xs acc rule: recv_chunks.induct) (auto split: if_splits)

lemma WriteFile_again: "os_WriteFile d p x = Some d' \<Longrightarrow> wf_disk d \<Longrightarrow> \<exists>d''. os_WriteFile d' p y = Some d''"
  by (auto simp: os_WriteFile_def creatable_def put_inode_def new_file_def is_dir_def is_file_def
      split: if_splits option.splits)

lemma read_Rename: "os_Rename d p q = Some d' \<Longrightarrow> os_ReadFile d' q = os_ReadFile d p"
  by (auto simp: os_Rename_def os_ReadFile_def split: option.splits if_splits)

lemma read_remote_Value:
  assumes "wf_disk (local_disk c)" "read_remote svc ev name cid en c = (Value x, c')"
  shows "\<exists>xs w. rpc_Read svc (address c) cid \<lparr>rd_Filename = name, rd_Fd = ce_Fd en\<rparr> (world c) = (Inr (xs, None), w) \<and>
    x = concat xs"
proof -
  let ?tmp = "LocalPath en @ ''.tmp''"
  obtain d where d: "os_WriteFile (local_disk c) ?tmp [] = Some d"
    using assms(2) by (cases "os_WriteFile (local_disk c) ?tmp []") (auto simp: read_remote_def Let_def)
  obtain y w where y: "rpc_Read svc (address c) cid \<lparr>rd_Filename = name, rd_Fd = ce_Fd en\<rparr> (world c) = (y, w)" by fastforce
  obtain xs end_error where ys: "y = Inr (xs, end_error)"
    using assms(2) d y by (cases y) (auto simp: read_remote_def Let_def call_def)
  obtain crashed data where r: "recv_chunks (failAfterVal ev) 0 xs [] = (crashed, data)" by fastforce
  have e: "end_error = None" "\<not> crashed"
    using assms(2) d y ys r by (auto simp: read_remote_def Let_def call_def split: if_splits option.splits)
  have w: "wf_disk d" by (rule wf_WriteFile [OF assms(1) d])
  obtain d1 where d1: "os_WriteFile d ?tmp data = Some d1" using WriteFile_again [OF d assms(1)] by blast
  then have "\<exists>d2. os_Rename d1 ?tmp (LocalPath en) = Some d2 \<and> os_ReadFile d2 (LocalPath en) = Some x"
    using assms(2) d y ys r e by (auto simp: read_remote_def Let_def call_def split: option.splits)
  then have "os_ReadFile d1 ?tmp = Some x" using read_Rename by metis
  then have "x = data" using read_WriteFile [OF w d1, of ?tmp] by simp
  then show ?thesis using recv_chunks_all [of "failAfterVal ev" 0 xs "[]" data] r e y ys by simp
qed

text \<open>The server of a one-server cluster while a request with the given id has not been answered.\<close>

definition unanswered :: "env \<Rightarrow> string \<Rightarrow> string \<Rightarrow> server \<Rightarrow> cluster \<Rightarrow> bool" where
  "unanswered e rid a s w \<longleftrightarrow> w = [] \<or> (\<exists>t. w = [(a, t)] \<and> cached e t rid = None \<and> disk t = disk s \<and> rootDir t = rootDir s)"

lemma unanswered_step:
  assumes "sanitizePath (fr_Filename req) = Some p" "\<not> HasPrefix (normPath p) ''input/''"
    and "unanswered e (fr_RequestId req) a s w" "serve_at (Open e req) addr w = (Inl er, w')"
  shows "unanswered e (fr_RequestId req) a s w'"
proof (cases "mget w addr")
  case (Some t)
  then have w: "w = [(a, t)]" "addr = a" "cached e t (fr_RequestId req) = None" "disk t = disk s" "rootDir t = rootDir s"
    using assms(3) by (auto simp: unanswered_def split: if_splits)
  obtain r t' where o: "Open e req t = (r, t')" by fastforce
  then have "\<forall>x. r \<noteq> Ok x" using assms(4) w by (auto simp: serve_at_def answer_def)
  then have "requests t' = requests t" by (rule Open_failed [OF w(3) assms(1,2) o])
  then have "cached e t' (fr_RequestId req) = None" "disk t' = disk s" "rootDir t' = rootDir s"
    using w Open_disk [of e req t] o by (simp_all add: cached_def)
  then show ?thesis using assms(4) w o by (auto simp: serve_at_def unanswered_def split: if_splits)
qed (use assms(3,4) in \<open>simp add: serve_at_def\<close>)

text \<open>
  The general fact behind the properties below: what a client without a cached copy reads is what the
  server's file held when it opened it.
\<close>

lemma fresh_read:
  assumes "world c = [(a, s)]" "mget (cache c) path = None" "wf_disk (local_disk c)"
    and "sanitizePath path = Some p" "\<not> HasPrefix (normPath p) ''input/''"
    and "cached e s (fst (generateRequestID ev c)) = None"
    and "client_Open (cluster_service e) ev path md cid c = (Value en, c1)"
    and "client_Read (cluster_service e) ev' path cid c1 = (Value x, c2)"
  shows "os_ReadFile (disk s) (full_path s (normPath p)) = Some x"
proof -
  let ?svc = "cluster_service e"
  obtain r0 c0 where sp: "make_space c = (r0, c0)" by fastforce
  have o: "open_remote ?svc ev path md cid c0 = (Value en, c1)"
    using assms(2,7) sp by (cases r0) (auto simp: client_Open_def)
  have c0: "world c0 = [(a, s)]" "requestCounter c0 = requestCounter c" "wf_disk (local_disk c0)"
    using sp make_space_world [OF sp] assms(1,3)
    by (auto simp: make_space_def evictFromCache_def wf_Remove split: if_splits option.splits)
  obtain rid ci where i: "generateRequestID ev c0 = (rid, ci)" by fastforce
  have rid: "rid = fst (generateRequestID ev c)" "world ci = [(a, s)]"
    using i c0 by (auto simp: generateRequestID_def Let_def)
  let ?req = "\<lparr>fr_RequestId = rid, fr_Filename = path, fr_Mode = md, fr_ClientId = cid\<rparr>"
  let ?f = "\<lambda>b. rpc_Open ?svc b ?req"
  have f: "?f b = serve_at (Open e ?req) b" for b by (simp add: cluster_service_def)
  obtain y c3 where y: "retry_call ?svc ?f maxTries None ci = (y, c3)" by fastforce
  obtain resp where resp: "y = Value resp" using o i y by (cases y) (auto simp: open_remote_def)
  then have ne: "new_entry path resp False md c3 = (Value en, c1)" using o i y by (simp add: open_remote_def)
  have "unanswered e rid a s (world ci)" using rid assms(6) by (simp add: unanswered_def)
  moreover have "unanswered e rid a s w \<Longrightarrow> ?f b w = (Inl er, w') \<Longrightarrow> unanswered e rid a s w'" for b w er w'
    using unanswered_step [of ?req p e a s w b er w'] assms(4,5) by (simp add: f)
  ultimately obtain w where w: "unanswered e rid a s w" "?f (address c3) w = (Inr resp, world c3)"
    using retry_call_Value [of "unanswered e rid a s" ?f ci ?svc maxTries None resp c3] y resp by blast
  then obtain t where t: "w = [(a, t)]" "address c3 = a" "cached e t rid = None" "disk t = disk s" "rootDir t = rootDir s"
    by (auto simp: f unanswered_def serve_at_def split: option.splits if_splits)
  obtain r t' where op: "Open e ?req t = (r, t')" by fastforce
  then have r: "r = Ok resp" "world c3 = [(a, t')]"
    using w(2) t by (auto simp: f serve_at_def answer_def stopped_def split: outcome.splits)
  have q: "quiet_client c0 c3" using quiet_request_id [OF i] quiet_retry [OF y] quiet_client_trans by blast
  have w3: "wf_disk (local_disk c3)" using q c0(3) by (simp add: quiet_client_def)
  have c1: "mget (cache c1) path = Some en" "wf_disk (local_disk c1)" "\<not> Valid en" "world c1 = [(a, t')]" "address c1 = a"
    using new_entry_Value [OF w3 ne] new_entry_world [of path resp False md c3] ne r t(2) by auto
  then have "read_remote ?svc ev' path cid en c1 = (Value x, c2)" using assms(8) by (simp add: client_Read_def)
  from read_remote_Value [OF c1(2) this] obtain xs w' where rd:
    "rpc_Read ?svc a cid \<lparr>rd_Filename = path, rd_Fd = ce_Fd en\<rparr> [(a, t')] = (Inr (xs, None), w')" "x = concat xs"
    using c1 by auto
  obtain z t'' where z: "Read (with_client cid e) \<lparr>rd_Filename = path, rd_Fd = ce_Fd en\<rparr> t' = (z, t'')" by fastforce
  then have "z = Ok xs" using rd(1)
    by (auto simp: cluster_service_def serve_at_def answer_def split: outcome.splits)
  then have "os_ReadFile (disk t) (full_path t (normPath p)) = Some (concat xs)"
    using Open_then_Read [of e t ?req p resp t' "with_client cid e" "ce_Fd en" xs t''] t assms(4,5) op r z
    by (simp add: getClientIDFromContext_def with_client_def)
  then show ?thesis using t rd(2) by (simp add: full_path_def)
qed

section \<open>What a checkpoint finds\<close>


lemma path_of_file:
  assumes "flat_name fn" "safePath_unchecked fn = fn"
  obtains p where "sanitizePath fn = Some p" "normPath p = fn" "\<not> HasPrefix fn ''input/''"
proof -
  obtain n where n: "fn = ''output/'' @ n" using assms(1) by (rule flat_nameE)
  have e: "normPath [] = []" by code_simp
  obtain p where "sanitizePath fn = Some p"
    using assms(2) n e by (cases "sanitizePath fn") (auto simp: safePath_unchecked_def)
  then show ?thesis using that n assms(2) by (simp add: safePath_unchecked_def)
qed

text \<open>What the file holds after a commit of \<open>Close\<close>, whatever was left to apply.\<close>

lemma committed_content:
  assumes "steady s" "can_commit e req s fn" "healthy e" "close_majority e s" "s' = snd (Close e req s)"
  shows "os_ReadFile (disk s') (full_path s' fn) =
    Some (format_lines (range_order e (merged_primes (cl_Data req) fn s)))"
proof -
  have fl: "flat_name fn" using assms(2) by (simp add: can_commit_def)
  have "stored s' = (replay (to_apply (commit_entry e req fn s) s) (stored s))(fn @ ''.meta'' \<mapsto>
      version_text (current_version fn s + 1))"
    by (rule Close_committed(4) [OF assms(1-4) refl assms(5)])
  then have "stored s' fn = Some (format_lines (range_order e (merged_primes (cl_Data req) fn s)))"
    by (simp add: replay_def to_apply_def store_step_def commit_entry_def)
  then show ?thesis using fl by (simp add: stored_def)
qed




text \<open>
  C34. Tensors come back as numbers: after a \<open>Close\<close> has committed the file of a tensor, all that
  \<open>LoadTensors\<close> can return to a client without a copy of its own is the text of the deduplicated
  numbers of the data and of the set the server had for that name; a tensor whose bytes contain no
  numbers, under a name the server has no set for, comes back empty.
\<close>

theorem tensor_bytes_lost:
  assumes "steady s" "can_commit e req s fn" "healthy e" "close_majority e s" "TensorPath hash = Some fn"
    and "world c = [(a, snd (Close e req s))]" "mget (cache c) fn = None" "wf_disk (local_disk c)"
    and "cached e' (snd (Close e req s)) (fst (generateRequestID ev c)) = None"
    and "LoadTensors (cluster_service e') ev [(name, hash)] c = (Value ts, c')"
  shows "map Data ts = [format_lines (range_order e (merged_primes (cl_Data req) fn s))] \<and>
    (mget (filesPrimes s) fn = None \<and> parseNumbers (cl_Data req) = [] \<and> fair_order e \<longrightarrow>
      map Data ts = [[]])"
proof -
  let ?svc = "cluster_service e'" and ?s = "snd (Close e req s)"
  obtain z c1 where o: "client_Open ?svc ev fn FileMode_READ ''recovery'' c = (z, c1)" by fastforce
  then obtain en where en: "z = Value en" using assms(5,10)
    by (cases z) (auto simp: LoadTensors_def split: if_splits)
  obtain r c2 where r: "client_Read ?svc ev fn ''recovery'' c1 = (r, c2)" by fastforce
  obtain q c3 where q: "client_Close ?svc ev fn ''recovery'' c2 = (q, c3)" by fastforce
  obtain x where x: "r = Value x" "map Data ts = [x]" using assms(5,10) o en r q
    by (cases r; cases q) (auto simp: LoadTensors_def attempt_def)
  have "flat_name fn" "safePath_unchecked fn = fn" using assms(2) by (simp_all add: can_commit_def)
  then obtain p where p: "sanitizePath fn = Some p" "normPath p = fn" "\<not> HasPrefix fn ''input/''"
    by (rule path_of_file)
  have "os_ReadFile (disk ?s) (full_path ?s fn) = Some x"
    using fresh_read [OF assms(6-8) p(1) _ assms(9)] o en r x(1) p by simp
  then have "x = format_lines (range_order e (merged_primes (cl_Data req) fn s))"
    using committed_content [OF assms(1-4) refl] by simp
  moreover have "range_order e [] = []" if "fair_order e"
    using that unfolding fair_order_def by (metis mset.simps(1) mset_zero_iff)
  ultimately show ?thesis using x(2) by (auto simp: merged_primes_def)
qed

section \<open>The pointer to the latest checkpoint\<close>

lemma Sscanf_digits:
  assumes "0 \<le> n" "n < 2 ^ 63"
  shows "Sscanf_d (dec_string n @ CHR 0x0A # s) = Some n"
proof -
  let ?t = "dec_string n @ CHR 0x0A # s"
  obtain d ds where d: "dec_string n = d # ds" by (cases "dec_string n") auto
  have dig: "list_all is_digit (dec_string n)" by (rule dec_string_digits [OF assms(1)])
  then have hd: "is_digit d" using d by simp
  then have "space_width space_runes ?t = 0"
    using space_width_plain [OF is_digit_plain [OF hd]] d by simp
  then have sc: "scan_spaces ?t = Some ?t" by (subst scan_spaces.simps) simp
  have sg: "d \<noteq> CHR ''-''" "d \<noteq> CHR ''+''" using hd by (auto simp: is_digit_def)
  have "\<not> is_digit (CHR 0x0A)" by (simp add: is_digit_def)
  then have tw: "takeWhile is_digit ?t = dec_string n"
    using dig by (subst takeWhile_append2) (auto simp: list_all_iff)
  have "Sscanf_d ?t = int64_range (dec_val 0 (dec_string n))"
    using sc sg tw d by (simp add: Sscanf_d_def Let_def)
  then show ?thesis using assms by (simp add: dec_val_string int64_range_def)
qed

text \<open>The order of a \<open>range\<close> that visits one number first.\<close>

definition first_in_range :: "u64 \<Rightarrow> prime_set \<Rightarrow> prime_set" where
  "first_in_range x S = (if x \<in> set S then x # remove1 x S else S)"

lemma fair_first_in_range: "fair_order (e\<lparr>range_order := first_in_range x\<rparr>)"
  by (simp add: fair_order_def first_in_range_def)

lemma range_order_irrelevant:
  "can_commit (e\<lparr>range_order := g\<rparr>) req s fn = can_commit e req s fn" "healthy (e\<lparr>range_order := g\<rparr>) = healthy e"
  "close_majority (e\<lparr>range_order := g\<rparr>) s = close_majority e s"
proof -
  have c: "cached (e\<lparr>range_order := g\<rparr>) s i = cached e s i" for i by (simp add: cached_def split: option.split)
  have i: "getClientIDFromContext (e\<lparr>range_order := g\<rparr>) = getClientIDFromContext e"
    by (simp add: getClientIDFromContext_def split: option.split)
  show "can_commit (e\<lparr>range_order := g\<rparr>) req s fn = can_commit e req s fn" unfolding can_commit_def c i ..
qed (simp_all add: healthy_def close_majority_def reaches_majority_def peer_answers_def)

text \<open>
  C37. The latest checkpoint may be an old one: the pointer file of a worker is a set of numbers too, so
  a commit adds the new step to the steps it had, in the order of a \<open>range\<close>. For every earlier step
  there is such an order in which \<open>LoadCheckpointMeta\<close> resolves the pointer to that step.
\<close>

theorem latest_pointer_may_go_back:
  assumes "steady s" "can_commit e req s (LatestMetaPath wid)" "healthy e" "close_majority e s"
    and "mget (filesPrimes s) (LatestMetaPath wid) = Some old" "k \<in> set old" "uint k < 2 ^ 63"
  shows "\<exists>e'. fair_order e' \<and> e' = e\<lparr>range_order := range_order e'\<rparr> \<and>
    (\<exists>v x. fst (Close e' req s) = Ok (CloseResponse ''closed'' v) \<and>
      os_ReadFile (disk (snd (Close e' req s))) (full_path (snd (Close e' req s)) (LatestMetaPath wid)) = Some x \<and>
      resolved_step (- 1) x = uint k)"
proof -
  let ?e = "e\<lparr>range_order := first_in_range k\<rparr>" and ?fn = "LatestMetaPath wid"
  let ?P = "merged_primes (cl_Data req) ?fn s"
  have h: "can_commit ?e req s ?fn" "healthy ?e" "close_majority ?e s"
    using assms(2-4) by (simp_all add: range_order_irrelevant)
  have "k \<in> set ?P" using assms(5,6) Filter_set [of "parseNumbers (cl_Data req)" old] by (simp add: merged_primes_def)
  then have "format_lines (range_order ?e ?P) = dec_string (uint k) @ CHR 0x0A # format_lines (remove1 k ?P)"
    by (simp add: first_in_range_def format_lines_def format_uint_def)
  then have r: "resolved_step (- 1) (format_lines (range_order ?e ?P)) = uint k"
    using Sscanf_digits [of "uint k"] assms(7) by (simp add: resolved_step_def)
  have "fst (Close ?e req s) = Ok (CloseResponse ''closed'' (current_version ?fn s + 1))"
    by (rule Close_committed(1) [OF assms(1) h refl refl])
  moreover have "os_ReadFile (disk (snd (Close ?e req s))) (full_path (snd (Close ?e req s)) ?fn) =
      Some (format_lines (range_order ?e ?P))"
    by (rule committed_content [OF assms(1) h refl])
  ultimately show ?thesis using r fair_first_in_range by (intro exI [of _ ?e]) simp
qed

section \<open>Examples\<close>

text \<open>The example primary with another file open, and a client that has just been started.\<close>

definition primary_with :: "string \<Rightarrow> server" where
  "primary_with fn = example_primary\<lparr>
     files := [(0, \<lparr>meta_file = Some (HFile 0), filename = fn, meta_version = 0,
       clients = [(''worker_0'', \<lparr>lastSeen = 0, mode = FileMode_WRITE\<rparr>)]\<rparr>)],
     openMap := [((''worker_0'', fn), 0)], table := [(fn, NewFileEntry)]\<rparr>"

definition fresh_client :: "cluster \<Rightarrow> cluster client" where
  "fresh_client w = NewClient 0 ''localhost:5001'' empty_disk w"

lemma steady_with: "steady (primary_with fn)"
proof -
  have "locks_free (primary_with fn)" by (simp add: locks_free_def primary_with_def lock_free_def NewFileEntry_def)
  moreover have "unat fd < unat (1 :: i32) \<longleftrightarrow> fd = 0" for fd :: i32
    by (simp add: unat_eq_0)
  then have "fds_ok (primary_with fn)"
    by (simp add: fds_ok_def primary_with_def MaxOpenFiles_def) (simp add: example_primary_def)
  moreover have "handles_ok (primary_with fn)"
    using steady_primary by (simp add: steady_def server_inv_def handles_ok_def primary_with_def)
      (simp add: example_primary_def new_file_def example_disk_def empty_disk_def)
  moreover have "server_ok (primary_with fn)"
    using server_ok_cong [of "primary_with fn" example_primary] by (simp add: primary_with_def)
  ultimately show ?thesis by (simp add: steady_def server_inv_def) (simp add: primary_with_def)
qed

lemma can_commit_with:
  assumes "flat_name fn" "safePath_unchecked fn = fn"
  shows "can_commit example_env (example_close rid data) (primary_with fn) fn"
  using assms
  by (simp add: can_commit_def leader_check_def cached_def example_close_def primary_with_def)
    (simp add: current_version_def NewFileEntry_def example_servers_def)

lemma majority_with: "close_majority example_env (primary_with fn)"
  using majority_example by (simp add: close_majority_def reaches_majority_def peer_answers_def peers_def primary_with_def)

lemma requests_Close:
  assumes "server_inv s" "can_commit e req s fn" "healthy e" "close_majority e s" "k \<noteq> cl_RequestId req"
  shows "mget (requests (snd (Close e req s))) k = mget (requests s) k"
proof -
  have "locks_free s" using assms(1) by (simp add: server_inv_iff)
  from Close_locked [OF assms(2) this] show ?thesis
    using close_dirty_outcome [OF assms(2,3)] assms(4) requests_close_finish [OF assms(5)]
    by (simp add: case_prod_beta requests_committed)
qed

lemma fresh_id: "fst (generateRequestID example_client_env (fresh_client w)) = ''0-1''"
proof -
  have "format_int 0 @ ''-'' @ format_uint 1 = ''0-1''" by code_simp
  then show ?thesis by (simp add: generateRequestID_def Let_def example_client_env_def fresh_client_def NewClient_def)
qed

lemma fresh_simps [simp]: "world (fresh_client w) = w" "cache (fresh_client w) = []"
  "wf_disk (local_disk (fresh_client w))"
  by (simp_all add: fresh_client_def NewClient_def make_dirs_disk wf_empty_disk)

lemma fresh_uncached:
  assumes "flat_name fn" "safePath_unchecked fn = fn"
  shows "cached example_env (snd (Close example_env (example_close ''r1'' data) (primary_with fn)))
    (fst (generateRequestID example_client_env (fresh_client w))) = None"
proof -
  have i: "server_inv (primary_with fn)" using steady_with by (simp add: steady_def)
  have n: "''0-1'' \<noteq> cl_RequestId (example_close ''r1'' data)" by (simp add: example_close_def)
  show ?thesis
    using requests_Close [OF i can_commit_with [OF assms] healthy_example majority_with n]
    unfolding fresh_id by (simp add: cached_def primary_with_def)
qed




text \<open>A client just started that restores a tensor from the primary after the commit of its file.\<close>

definition restored_tensor :: "TensorBlob list result \<times> cluster client" where
  "restored_tensor = LoadTensors (cluster_service example_env) example_client_env [(''layer'', ''abcdefgh'')]
     (fresh_client [(''localhost:5001'', snd (Close example_env (example_close ''r1'' ''7 x'')
       (primary_with ''output/tensors_ab_cdefgh'')))])"

lemma restored_tensor_Value: "\<exists>ts. fst restored_tensor = Value ts"
proof -
  have "case fst restored_tensor of Value ts \<Rightarrow> True | _ \<Rightarrow> False" by code_simp
  then show ?thesis by (cases "fst restored_tensor") auto
qed

theorem tensor_bytes_lost_witness:
  "\<exists>ts. fst restored_tensor = Value ts \<and> map Data ts =
     [format_lines (range_order example_env (merged_primes ''7 x'' ''output/tensors_ab_cdefgh''
       (primary_with ''output/tensors_ab_cdefgh'')))]"
proof -
  let ?fn = "''output/tensors_ab_cdefgh''"
  have f: "flat_name ?fn" "safePath_unchecked ?fn = ?fn" by code_simp+
  have p: "TensorPath ''abcdefgh'' = Some ?fn" by code_simp
  obtain ts where ts: "fst restored_tensor = Value ts" using restored_tensor_Value by blast
  then have l: "LoadTensors (cluster_service example_env) example_client_env [(''layer'', ''abcdefgh'')]
     (fresh_client [(''localhost:5001'', snd (Close example_env (example_close ''r1'' ''7 x'') (primary_with ?fn)))]) =
     (Value ts, snd restored_tensor)"
    unfolding restored_tensor_def by (metis prod.collapse)
  have "map Data ts = [format_lines (range_order example_env (merged_primes (cl_Data (example_close ''r1'' ''7 x''))
      ?fn (primary_with ?fn)))]"
    using tensor_bytes_lost [OF steady_with can_commit_with [OF f] healthy_example majority_with p
        _ _ _ fresh_uncached [OF f] l] by simp
  then show ?thesis using ts by (simp add: example_close_def)
qed

text \<open>None of this depends on the numbers the server has for its files.\<close>

lemma primes_irrelevant:
  "steady (s\<lparr>filesPrimes := F\<rparr>) = steady s" "can_commit e req (s\<lparr>filesPrimes := F\<rparr>) fn = can_commit e req s fn"
  "close_majority e (s\<lparr>filesPrimes := F\<rparr>) = close_majority e s"
proof -
  have c: "cached e (s\<lparr>filesPrimes := F\<rparr>) i = cached e s i" for i by (simp add: cached_def split: option.split)
  show "steady (s\<lparr>filesPrimes := F\<rparr>) = steady s"
    by (simp add: steady_def server_inv_def locks_free_def fds_ok_def handles_ok_def server_ok_def)
  show "can_commit e req (s\<lparr>filesPrimes := F\<rparr>) fn = can_commit e req s fn"
    by (simp add: can_commit_def c leader_check_def current_version_def)
qed (simp add: close_majority_def reaches_majority_def peer_answers_def peers_def)

theorem latest_pointer_may_go_back_witness:
  "\<exists>e' x. fair_order e' \<and> resolved_step (- 1) x = 100 \<and>
     os_ReadFile (disk (snd (Close e' (example_close ''r1'' ''200'')
       ((primary_with (LatestMetaPath ''w''))\<lparr>filesPrimes := [(LatestMetaPath ''w'', [100])]\<rparr>))))
     (full_path (snd (Close e' (example_close ''r1'' ''200'')
       ((primary_with (LatestMetaPath ''w''))\<lparr>filesPrimes := [(LatestMetaPath ''w'', [100])]\<rparr>)))
     (LatestMetaPath ''w'')) = Some x"
proof -
  let ?fn = "LatestMetaPath ''w''" and ?F = "[(LatestMetaPath ''w'', [100 :: u64])]"
  have f: "flat_name ?fn" "safePath_unchecked ?fn = ?fn" by code_simp+
  have "steady ((primary_with ?fn)\<lparr>filesPrimes := ?F\<rparr>)"
    "can_commit example_env (example_close ''r1'' ''200'') ((primary_with ?fn)\<lparr>filesPrimes := ?F\<rparr>) ?fn"
    "close_majority example_env ((primary_with ?fn)\<lparr>filesPrimes := ?F\<rparr>)"
    using steady_with can_commit_with [OF f] majority_with by (simp_all add: primes_irrelevant)
  moreover have "mget (filesPrimes ((primary_with ?fn)\<lparr>filesPrimes := ?F\<rparr>)) ?fn = Some [100]"
    "(100 :: u64) \<in> set [100]" "uint (100 :: u64) < 2 ^ 63" by simp_all
  ultimately obtain e' v x where h: "fair_order e'"
    "os_ReadFile (disk (snd (Close e' (example_close ''r1'' ''200'') ((primary_with ?fn)\<lparr>filesPrimes := ?F\<rparr>))))
      (full_path (snd (Close e' (example_close ''r1'' ''200'') ((primary_with ?fn)\<lparr>filesPrimes := ?F\<rparr>))) ?fn) = Some x"
    "resolved_step (- 1) x = uint (100 :: u64)"
    using latest_pointer_may_go_back [OF _ _ healthy_example, of "(primary_with ?fn)\<lparr>filesPrimes := ?F\<rparr>"
        "example_close ''r1'' ''200''" "''w''" "[100]" 100] by blast
  then have "resolved_step (- 1) x = 100" by simp
  then show ?thesis using h by blast
qed

end
