(* ===== verification/EndToEnd.thy ===== *)
theory EndToEnd
  imports Cluster
begin

text \<open>
  A save and a restore from end to end: a client opens a file on the primary, writes its local copy and
  closes it, the commit is replicated, and another client opens the file and reads it.
\<close>

section \<open>When a client and a server are ready\<close>

definition client_at :: "cluster client \<Rightarrow> string \<Rightarrow> server \<Rightarrow> bool" where
  "client_at c a s \<longleftrightarrow> address c = a \<and> world c = [(a, s)]"

text \<open>The client has no copy of the file, room in its cache, and can write the copy and its \<open>.tmp\<close> file.\<close>

definition client_ready :: "client_env \<Rightarrow> 'w client \<Rightarrow> string \<Rightarrow> bool" where
  "client_ready ev c fn \<longleftrightarrow> mget (cache c) fn = None \<and> mlen (cache c) < maxCacheEntries \<and>
     wf_disk (local_disk c) \<and> \<not> fail_before_commit ev \<and> failAfterVal ev \<le> 0 \<and>
     (let d = make_dirs (Dir (local_path fn)) (local_disk c)
      in creatable d (local_path fn) \<and> creatable d (local_path fn @ ''.tmp''))"

text \<open>The server is a primary on which the file exists, with a free descriptor and a majority.\<close>

definition server_ready :: "env \<Rightarrow> server \<Rightarrow> string \<Rightarrow> bool" where
  "server_ready e s fn \<longleftrightarrow> steady s \<and> leader_check s = None \<and> servers s \<noteq> [] \<and>
     flat_name fn \<and> safePath_unchecked fn = fn \<and> is_file (disk s) (full_path s fn) \<and>
     \<not> too_many_files s \<and> healthy e \<and> close_majority e s"

definition open_request :: "client_env \<Rightarrow> 'w client \<Rightarrow> string \<Rightarrow> FileMode \<Rightarrow> string \<Rightarrow> FileRequest" where
  "open_request ev c fn md cid = \<lparr>fr_RequestId = fst (generateRequestID ev c), fr_Filename = fn, fr_Mode = md, fr_ClientId = cid\<rparr>"

section \<open>Opening\<close>

lemma OpenFile_file: "is_file d p \<Longrightarrow> \<exists>i. os_OpenFile d p b = Inr (HFile i) \<and> mget (names d) p = Some i"
  by (auto simp: is_file_def os_OpenFile_def)

lemma getFileEntry_version: "fe_version (fst (getFileEntry n s)) = current_version n s"
    "current_version n (snd (getFileEntry n s)) = current_version n s"
  by (simp_all add: getFileEntry_def Let_def current_version_def set_entry_def split: option.split)

lemma getFileEntry_rest [simp]:
  "files (snd (getFileEntry n s)) = files s" "nextFD (snd (getFileEntry n s)) = nextFD s"
  "openMap (snd (getFileEntry n s)) = openMap s" "server.log (snd (getFileEntry n s)) = server.log s"
  "lastApplied (snd (getFileEntry n s)) = lastApplied s" "filesPrimes (snd (getFileEntry n s)) = filesPrimes s"
  "servers (snd (getFileEntry n s)) = servers s" "server_id (snd (getFileEntry n s)) = server_id s"
  by (simp_all add: getFileEntry_def Let_def set_entry_def)

text \<open>What an \<open>Open\<close> of an output file leaves behind.\<close>

lemma Open_ready:
  assumes "server_ready e s fn" "cached e s (fr_RequestId req) = None" "fr_Filename req = fn"
  obtains i s' where "Open e req s = (Ok (OpenResponse (nextFD s) (current_version fn s) ''opened output file''), s')"
    and "mget (files s') (nextFD s) = Some \<lparr>meta_file = Some (HFile i), filename = fn,
        meta_version = current_version fn s, clients = [(fr_ClientId req, \<lparr>lastSeen = now e, mode = fr_Mode req\<rparr>)]\<rparr>"
    and "mget (openMap s') (fr_ClientId req, fn) = Some (nextFD s)"
    and "os_ReadHandle (disk s) (HFile i) = os_ReadFile (disk s) (full_path s fn)"
    and "disk s' = disk s" "rootDir s' = rootDir s" "server.log s' = server.log s" "lastApplied s' = lastApplied s"
    and "filesPrimes s' = filesPrimes s" "servers s' = servers s" "server_id s' = server_id s"
    and "leader_check s' = None" "current_version fn s' = current_version fn s" "steady s'"
    and "\<And>k. k \<noteq> fr_RequestId req \<Longrightarrow> mget (requests s') k = mget (requests s) k"
    and "mlen (files s') = mlen (files s) + 1"
proof -
  have r: "flat_name fn" "safePath_unchecked fn = fn" "leader_check s = None" "\<not> too_many_files s" "steady s"
    using assms(1) by (simp_all add: server_ready_def)
  obtain p where p: "sanitizePath fn = Some p" "normPath p = fn" "\<not> HasPrefix fn ''input/''"
    using path_of_file [OF r(1,2)] by blast
  let ?s1 = "snd (getFileEntry fn s)"
  obtain i where i: "os_OpenFile (disk s) (full_path s fn) b = Inr (HFile i)"
    "mget (names (disk s)) (full_path s fn) = Some i" for b
    using assms(1) OpenFile_file unfolding server_ready_def by (metis option.inject)
  let ?o = "open_fd e (fr_RequestId req) (fr_ClientId req) (fr_Mode req) fn (HFile i) (current_version fn s)
    ''opened output file'' ?s1"
  have f: "full_path ?s1 fn = full_path s fn" "too_many_files ?s1 = too_many_files s"
    by (simp_all add: full_path_def too_many_files_def)
  have o: "Open e req s = ?o"
    using Open_output [OF assms(2), of p] p r i assms(3)
    by (simp add: open_output_def f getFileEntry_version)
  let ?s' = "snd ?o"
  have inv: "server_inv ?s'" using server_inv_call [OF call_Open, of s e req] r(5) o by (simp add: steady_def)
  have lc: "leader_check ?s' = None"
    using leader_check_call [OF call_Open, of s e req] r(3,5) o by (simp add: steady_def server_ok_def storage_ok_def)
  have st: "steady ?s'"
    using r(5) inv server_ok_cong [of ?s' s] by (simp add: steady_def open_fd_def Let_def remember_def)
  have "mget (files s) (nextFD s) = None" using r(5) unfolding steady_def server_inv_def fds_ok_def by (metis less_irrefl)
  then show thesis
    by (intro that [of ?s' i])
      (use o lc st i(2) in \<open>simp_all add: mlen_mput_new open_fd_def Let_def remember_def os_ReadHandle_def os_ReadFile_def
        current_version_def getFileEntry_version(2) [unfolded current_version_def]\<close>)
qed

lemma retry_first:
  assumes "f (address c) (world c) = (Inr r, w)"
  shows "retry_call svc f maxTries None c = (Value r, c\<lparr>world := w\<rparr>)"
  using assms by (simp add: maxTries_def numeral_3_eq_3 call_def)

definition opened_entry :: "string \<Rightarrow> FileMode \<Rightarrow> i32 \<Rightarrow> i32 \<Rightarrow> CacheEntry" where
  "opened_entry fn md fd v = \<lparr>ce_Filename = fn, LocalPath = local_path fn, ce_Version = v, Dirty = False,
     ce_Fd = fd, Closed = False, ce_Mode = md, Valid = False\<rparr>"

text \<open>\<open>Open\<close> by a client without a copy: an empty copy, and the descriptor of the server.\<close>

lemma client_Open_ready:
  assumes "client_at c a s" "client_ready ev c fn"
    and "Open e (open_request ev c fn md cid) s = (Ok (OpenResponse fd v msg), s')"
  obtains c' where "client_Open (cluster_service e) ev fn md cid c = (Value (opened_entry fn md fd v), c')"
    and "client_at c' a s'" "mget (cache c') fn = Some (opened_entry fn md fd v)" "wf_disk (local_disk c')"
    and "os_ReadFile (local_disk c') (local_path fn) = Some []"
    and "creatable (local_disk c') (local_path fn)" "creatable (local_disk c') (local_path fn @ ''.tmp'')"
    and "requestCounter c' = requestCounter c + 1"
proof -
  let ?svc = "cluster_service e" and ?q = "open_request ev c fn md cid"
  have rd: "mget (cache c) fn = None" "mlen (cache c) < maxCacheEntries" "wf_disk (local_disk c)"
    using assms(2) by (simp_all add: client_ready_def)
  define d where "d = make_dirs (Dir (local_path fn)) (local_disk c)"
  have cr: "creatable d (local_path fn)" "creatable d (local_path fn @ ''.tmp'')"
    using assms(2) by (simp_all add: client_ready_def Let_def d_def)
  have wd: "wf_disk d" unfolding d_def by (rule make_dirs_disk(1) [OF rd(3)])
  obtain d' where d': "os_WriteFile d (local_path fn) [] = Some d'" using WriteFile_enabled [OF cr(1)] by blast
  obtain rid c1 where g: "generateRequestID ev c = (rid, c1)" by fastforce
  then have q: "?q = \<lparr>fr_RequestId = rid, fr_Filename = fn, fr_Mode = md, fr_ClientId = cid\<rparr>" by (simp add: open_request_def)
  have c1: "address c1 = a" "world c1 = [(a, s)]" "local_disk c1 = local_disk c" "cache c1 = cache c"
    "requestCounter c1 = requestCounter c + 1"
    using assms(1) g by (auto simp: generateRequestID_def Let_def client_at_def)
  have f: "rpc_Open ?svc (address c1) ?q (world c1) = (Inr (OpenResponse fd v msg), [(a, s')])"
    using assms(3) c1 by (simp add: cluster_service_def serve_at_def answer_def stopped_def)
  let ?c2 = "c1\<lparr>world := [(a, s')]\<rparr>"
  let ?en = "opened_entry fn md fd v"
  let ?c' = "touchLRU fn (put_cache fn ?en (?c2\<lparr>local_disk := d'\<rparr>))"
  have "retry_call ?svc (\<lambda>b. rpc_Open ?svc b ?q) maxTries None c1 = (Value (OpenResponse fd v msg), ?c2)"
    by (rule retry_first) (rule f)
  moreover have "new_entry fn (OpenResponse fd v msg) False md ?c2 = (Value ?en, ?c')"
    using d' c1(3) by (simp add: new_entry_def Let_def d_def opened_entry_def)
  ultimately have "client_Open ?svc ev fn md cid c = (Value ?en, ?c')"
    using rd g unfolding q by (simp add: client_Open_def make_space_def open_remote_def)
  moreover have "creatable d' (local_path fn)" "creatable d' (local_path fn @ ''.tmp'')"
    using cr d' by (auto simp: os_WriteFile_def creatable_def put_inode_def new_file_def is_dir_def is_file_def
        split: if_splits option.splits)
  ultimately show thesis
    using c1 wf_WriteFile [OF wd d'] read_WriteFile [OF wd d']
    by (intro that [of ?c']) (simp_all add: client_at_def touchLRU_def put_cache_def)
qed

section \<open>Saving\<close>

lemma next_id_fresh:
  "requestCounter c' = requestCounter c + 1 \<Longrightarrow> fst (generateRequestID ev c') \<noteq> fst (generateRequestID ev c)"
proof
  assume "requestCounter c' = requestCounter c + 1" "fst (generateRequestID ev c') = fst (generateRequestID ev c)"
  then have "format_uint (requestCounter c + 1 + 1) = format_uint (requestCounter c + 1)"
    using after_dash [OF format_uint_no_dash format_uint_no_dash]
    by (simp add: generateRequestID_def Let_def)
  then have "requestCounter c + 1 + 1 = requestCounter c + 1" by (metis ParseUint_format_uint option.inject)
  then show False by simp
qed

lemma client_Close_dirty:
  assumes "client_at c a s" "mget (cache c) fn = Some en" "Dirty en" "os_ReadFile (local_disk c) (LocalPath en) = Some data"
    and "\<not> fail_before_commit ev"
    and "Close (with_client cid e) \<lparr>cl_RequestId = fst (generateRequestID ev c), cl_Fd = ce_Fd en, cl_Dirty = True,
      cl_Version = ce_Version en, cl_Data = data\<rparr> s = (Ok r, s')"
  shows "\<exists>c'. client_Close (cluster_service e) ev fn cid c = (Value (), c') \<and> client_at c' a s'"
proof -
  obtain rid c1 where g: "generateRequestID ev c = (rid, c1)" by fastforce
  have c1: "address c1 = a" "world c1 = [(a, s)]" "local_disk c1 = local_disk c"
    using assms(1) g by (auto simp: generateRequestID_def Let_def client_at_def)
  let ?svc = "cluster_service e"
  let ?q = "\<lparr>cl_RequestId = rid, cl_Fd = ce_Fd en, cl_Dirty = True,
    cl_Version = ce_Version en, cl_Data = data\<rparr>"
  let ?c2 = "c1\<lparr>world := [(a, s')]\<rparr>"
  have "rpc_Close ?svc a cid ?q [(a, s)] = (Inr r, [(a, s')])"
    using assms(6) g by (simp add: cluster_service_def serve_at_def answer_def stopped_def)
  then have "call_redirect ?svc (\<lambda>b. rpc_Close ?svc b cid ?q) c1 = (Inr r, ?c2)"
    using c1 by (simp add: call_redirect_def call_def)
  then have "client_Close ?svc ev fn cid c = (Value (), touchLRU fn (put_cache fn
      (en\<lparr>ce_Version := resp_version r, Dirty := False, Closed := True, ce_Fd := 0\<rparr>) ?c2))"
    using assms(2-5) g c1(3) by (simp add: client_Close_def)
  then show ?thesis using c1(1) by (simp add: client_at_def touchLRU_def put_cache_def)
qed

lemma files_saveVersion: "files (saveVersion fn v s) = files s"
  by (simp add: saveVersion_def try_disk_def split: option.split)

lemma mlen_close_finish: "mlen (files (snd (close_finish e req fn s))) = mlen (files s)"
proof -
  let ?s1 = "if cl_Dirty req then saveVersion fn (entry_version fn s + 1)
    (map_entry fn (\<lambda>fe. fe\<lparr>fe_version := fe_version fe + 1\<rparr>) s) else s"
  have f: "files ?s1 = files s" by (simp add: files_saveVersion)
  show ?thesis
    by (cases "AfterCommit \<in> set (crashes e)"; cases "mget (files s) (cl_Fd req)")
      (simp_all add: close_finish_def Let_def remember_def f mlen_mput_old)
qed

lemma mlen_files_Close:
  assumes "can_commit e req s fn" "healthy e" "close_majority e s" "locks_free s"
  shows "mlen (files (snd (Close e req s))) = mlen (files s)"
proof -
  show ?thesis
    using Close_locked [OF assms(1,4)] close_dirty_outcome [OF assms(1,2)] assms(3)
    by (simp add: case_prod_beta mlen_close_finish)
qed

text \<open>
  A save: a client without a copy of the file opens it for writing, writes its copy and closes it; the
  server has then committed the numbers of the data on top of those the file had, at the next version,
  and is ready for the next client.
\<close>

lemma store_ready:
  assumes "client_at c a s" "client_ready ev c fn" "server_ready e s fn"
    and "cached e s (fst (generateRequestID ev c)) = None"
    and "cached e s (fst (generateRequestID ev (snd (generateRequestID ev c)))) = None"
  obtains c' s' where "store_file (cluster_service e) ev m1 m2 m3 fn wid data c = (Value (), c')"
    and "client_at c' a s'" "rootDir s' = rootDir s" "current_version fn s' = current_version fn s + 1"
    and "os_ReadFile (disk s') (full_path s' fn) = Some (format_lines (range_order e (merged_primes data fn s)))"
    and "filesPrimes s' = mput fn (merged_primes data fn s) (filesPrimes s)"
    and "mlen (files s) + 1 < MaxOpenFiles \<Longrightarrow> server_ready e s' fn"
proof -
  let ?e = "with_client wid e"
  have rdy: "steady s" "leader_check s = None" "servers s \<noteq> []" "flat_name fn" "safePath_unchecked fn = fn"
    "healthy e" "close_majority e s" using assms(3) by (simp_all add: server_ready_def)
  define q where "q = open_request ev c fn FileMode_WRITE wid"
  have q: "fr_RequestId q = fst (generateRequestID ev c)" "fr_Filename q = fn" "fr_Mode q = FileMode_WRITE"
    "fr_ClientId q = wid" by (simp_all add: q_def open_request_def)
  obtain i s1 where o: "Open e q s = (Ok (OpenResponse (nextFD s) (current_version fn s) ''opened output file''), s1)"
    "mget (files s1) (nextFD s) = Some \<lparr>meta_file = Some (HFile i), filename = fn,
        meta_version = current_version fn s, clients = [(wid, \<lparr>lastSeen = now e, mode = FileMode_WRITE\<rparr>)]\<rparr>"
    "disk s1 = disk s" "rootDir s1 = rootDir s" "filesPrimes s1 = filesPrimes s" "servers s1 = servers s"
    "server_id s1 = server_id s" "leader_check s1 = None" "current_version fn s1 = current_version fn s" "steady s1"
    "\<And>k. k \<noteq> fst (generateRequestID ev c) \<Longrightarrow> mget (requests s1) k = mget (requests s) k"
    "mlen (files s1) = mlen (files s) + 1"
    using Open_ready [OF assms(3), of q] assms(4) q by metis
  obtain c1 where c1: "client_Open (cluster_service e) ev fn FileMode_WRITE wid c =
      (Value (opened_entry fn FileMode_WRITE (nextFD s) (current_version fn s)), c1)" "client_at c1 a s1"
    "mget (cache c1) fn = Some (opened_entry fn FileMode_WRITE (nextFD s) (current_version fn s))"
    "wf_disk (local_disk c1)" "creatable (local_disk c1) (local_path fn)" "requestCounter c1 = requestCounter c + 1"
    using client_Open_ready [OF assms(1,2) o(1) [unfolded q_def]] by metis
  define en where "en = (opened_entry fn FileMode_WRITE (nextFD s) (current_version fn s))\<lparr>Dirty := True, Valid := False\<rparr>"
  obtain d where d: "os_WriteFile (local_disk c1) (local_path fn) data = Some d" using WriteFile_enabled [OF c1(5)] by blast
  define c2 where "c2 = dirtied fn (opened_entry fn FileMode_WRITE (nextFD s) (current_version fn s)) d c1"
  have w: "client_WriteFile fn data c1 = (Value (), c2)"
    using c1(3) d by (simp add: client_WriteFile_def opened_entry_def c2_def)
  have c2: "client_at c2 a s1" "mget (cache c2) fn = Some en" "os_ReadFile (local_disk c2) (local_path fn) = Some data"
    "requestCounter c2 = requestCounter c + 1"
    using c1 read_WriteFile [OF c1(4) d]
    by (simp_all add: c2_def en_def dirtied_def touchLRU_def put_cache_def client_at_def)
  let ?rq = "\<lparr>cl_RequestId = fst (generateRequestID ev c2), cl_Fd = ce_Fd en, cl_Dirty = True,
    cl_Version = ce_Version en, cl_Data = data\<rparr>"
  have en: "Dirty en" "LocalPath en = local_path fn" "ce_Fd en = nextFD s" "ce_Version en = current_version fn s"
    by (simp_all add: en_def opened_entry_def)
  have id: "fst (generateRequestID ev c2) = fst (generateRequestID ev (snd (generateRequestID ev c)))"
    using c2(4) by (simp add: generateRequestID_def Let_def)
  then have "mget (requests s1) (cl_RequestId ?rq) = mget (requests s) (fst (generateRequestID ev (snd (generateRequestID ev c))))"
    using o(11) next_id_fresh [OF c2(4), of ev] by simp
  then have "cached ?e s1 (cl_RequestId ?rq) = cached e s (fst (generateRequestID ev (snd (generateRequestID ev c))))"
    by (simp add: cached_def with_client_def split: option.split)
  then have "cached ?e s1 (cl_RequestId ?rq) = None" using assms(5) by simp
  then have can: "can_commit ?e ?rq s1 fn"
    using o rdy en by (simp add: can_commit_def getClientIDFromContext_def with_client_def)
  have h: "healthy ?e" using rdy(6) by (simp add: healthy_def with_client_def)
  have maj: "close_majority ?e s1"
    using rdy(7) o(6,7) by (simp add: close_majority_def reaches_majority_def peer_answers_def peers_def with_client_def)
  define s2 where "s2 = snd (Close ?e ?rq s1)"
  note cc = Close_committed [OF o(10) can h maj refl s2_def]
  have cl: "Close ?e ?rq s1 = (Ok (CloseResponse ''closed'' (current_version fn s1 + 1)), s2)"
    using cc(1) by (metis prod.collapse s2_def)
  obtain c3 where c3: "client_Close (cluster_service e) ev fn wid c2 = (Value (), c3)" "client_at c3 a s2"
    using client_Close_dirty [OF c2(1,2) en(1) _ _ cl] c2(3) assms(2) en(2) by (auto simp: client_ready_def)
  have st: "store_file (cluster_service e) ev m1 m2 m3 fn wid data c = (Value (), c3)"
    using c1(1) w c3(1) by (simp add: store_file_def attempt_def)
  have mp: "merged_primes data fn s1 = merged_primes data fn s" using o(5) by (simp add: merged_primes_def)
  have ro: "range_order ?e = range_order e" by (simp add: with_client_def)
  have rd: "os_ReadFile (disk s2) (full_path s2 fn) = Some (format_lines (range_order e (merged_primes data fn s)))"
    using committed_content [OF o(10) can h maj s2_def] mp ro by simp
  have inv2: "steady s2" unfolding s2_def by (rule steady_Close [OF o(10) can h])
  have wf1: "wf_disk (disk s1)" using o(10) by (simp add: steady_def server_ok_def storage_ok_def)
  have lc2: "leader_check s2 = None" using leader_check_call [OF call_Close wf1, of ?e ?rq] o(8) by (simp add: s2_def)
  have sv2: "servers s2 = servers s1 \<and> server_id s2 = server_id s1"
    using same_server_call [OF call_Close same_server_refl [OF wf1], of ?e ?rq] by (simp add: s2_def same_server_def same_id_def)
  have wf2: "wf_disk (disk s2)" using inv2 by (simp add: steady_def server_ok_def storage_ok_def)
  have ready: "server_ready e s2 fn" if "mlen (files s) + 1 < MaxOpenFiles"
  proof -
    have "locks_free s1" using o(10) by (simp add: steady_def server_inv_iff)
    then have "\<not> too_many_files s2"
      using that mlen_files_Close [OF can h maj] o(12) by (simp add: too_many_files_def s2_def)
    moreover have "is_file (disk s2) (full_path s2 fn)" using rd is_file_read [OF wf2] by simp
    moreover have "close_majority e s2"
      using rdy(7) sv2 o(6,7) by (simp add: close_majority_def reaches_majority_def peer_answers_def peers_def)
    ultimately show ?thesis using inv2 lc2 sv2 o(6) rdy by (simp add: server_ready_def)
  qed
  show thesis
    by (rule that [OF st c3(2) _ _ rd]) (use cc(5-7) o(4,5,9) mp ready in simp_all)
qed

section \<open>Restoring\<close>

text \<open>A \<open>Read\<close> by the client that has just opened the file.\<close>

lemma Read_opened:
  assumes "leader_check s = None" "sanitizePath fn = Some p" "normPath p = fn"
    and "mget (openMap s) (cid, fn) = Some fd"
    and "mget (files s) fd = Some \<lparr>meta_file = Some (HFile i), filename = fn, meta_version = v,
      clients = [(cid, \<lparr>lastSeen = now e, mode = FileMode_READ\<rparr>)]\<rparr>"
    and "os_ReadHandle (disk s) (HFile i) = Some x"
  shows "fst (Read (with_client cid e) \<lparr>rd_Filename = fn, rd_Fd = k\<rparr> s) = Ok (chunks ChunkSize x)"
  using assms
  by (simp add: Read_def Let_def getClientIDFromContext_def with_client_def LeaseTimeout_def minute_def second_def)

lemma recv_all: "failAfter \<le> 0 \<Longrightarrow> recv_chunks failAfter n xs acc = (False, acc @ concat xs)"
  by (induction failAfter n xs acc rule: recv_chunks.induct) auto

lemma WriteFile_named: "os_WriteFile d p x = Some d' \<Longrightarrow> mget (names d') p \<noteq> None"
  by (auto simp: os_WriteFile_def put_inode_def new_file_def split: if_splits option.splits)

lemma creatable_WriteFile: "os_WriteFile d p x = Some d' \<Longrightarrow> creatable d q \<Longrightarrow> creatable d' q"
  by (auto simp: os_WriteFile_def creatable_def put_inode_def new_file_def is_dir_def is_file_def
      split: if_splits option.splits)

text \<open>The stream replaces the local copy by way of the \<open>.tmp\<close> file.\<close>

lemma read_remote_ready:
  assumes "wf_disk (local_disk c)" "creatable (local_disk c) (LocalPath en @ ''.tmp'')"
    and "creatable (local_disk c) (LocalPath en)" "failAfterVal ev \<le> 0"
    and "rpc_Read svc (address c) cid \<lparr>rd_Filename = fn, rd_Fd = ce_Fd en\<rparr> (world c) = (Inr (xs, None), w)"
  shows "\<exists>c'. read_remote svc ev fn cid en c = (Value (concat xs), c')"
proof -
  let ?p = "LocalPath en" and ?tmp = "LocalPath en @ ''.tmp''"
  obtain d where d: "os_WriteFile (local_disk c) ?tmp [] = Some d" using WriteFile_enabled [OF assms(2)] by blast
  obtain d1 where d1: "os_WriteFile d ?tmp (concat xs) = Some d1" using WriteFile_again [OF d assms(1)] by blast
  have w: "wf_disk d" by (rule wf_WriteFile [OF assms(1) d])
  have cr: "creatable d1 ?p" by (intro creatable_WriteFile [OF d1] creatable_WriteFile [OF d] assms(3))
  then obtain d2 where d2: "os_Rename d1 ?tmp ?p = Some d2"
    using WriteFile_named [OF d1] by (auto simp: os_Rename_def)
  have r: "os_ReadFile d2 ?p = Some (concat xs)"
    using read_Rename [OF d2] read_WriteFile [OF w d1, of ?tmp] by simp
  have "call (\<lambda>b. rpc_Read svc b cid \<lparr>rd_Filename = fn, rd_Fd = ce_Fd en\<rparr>) (c\<lparr>local_disk := d\<rparr>) =
      (Inr (xs, None), c\<lparr>local_disk := d, world := w\<rparr>)"
    using assms(5) by (simp add: call_def)
  then show ?thesis
    using d d1 d2 r recv_all [OF assms(4), of 0 xs "[]"] by (simp add: read_remote_def Let_def)
qed

lemma Close_no_crash: "\<not> fail_before_commit ev \<Longrightarrow> fst (client_Close svc ev fn cid c) \<noteq> Crash"
proof -
  assume f: "\<not> fail_before_commit ev"
  show ?thesis
  proof (cases "mget (cache c) fn")
    case (Some en)
    obtain rid c1 where g: "generateRequestID ev c = (rid, c1)" by fastforce
    show ?thesis
    proof (cases "if Dirty en then os_ReadFile (local_disk c1) (LocalPath en) else Some []")
      case (Some data)
      let ?q = "\<lparr>cl_RequestId = rid, cl_Fd = ce_Fd en, cl_Dirty = Dirty en, cl_Version = ce_Version en, cl_Data = data\<rparr>"
      obtain r c2 where "call_redirect svc (\<lambda>a. rpc_Close svc a cid ?q) c1 = (r, c2)" by fastforce
      then show ?thesis using \<open>mget (cache c) fn = Some en\<close> g Some f
        by (cases r) (simp_all add: client_Close_def)
    qed (use \<open>mget (cache c) fn = Some en\<close> g f in \<open>simp add: client_Close_def\<close>)
  qed (simp add: client_Close_def)
qed

lemma fetch_ready:
  assumes "client_at c a s" "client_ready ev c fn" "server_ready e s fn"
    and "cached e s (fst (generateRequestID ev c)) = None"
    and "os_ReadFile (disk s) (full_path s fn) = Some x"
  shows "fst (fetch_file (cluster_service e) ev m1 m2 fn wid c) = Value x"
proof -
  let ?svc = "cluster_service e"
  have rdy: "flat_name fn" "safePath_unchecked fn = fn" using assms(3) by (simp_all add: server_ready_def)
  obtain p where p: "sanitizePath fn = Some p" "normPath p = fn" using path_of_file [OF rdy] by blast
  define q where "q = open_request ev c fn FileMode_READ wid"
  have q: "fr_RequestId q = fst (generateRequestID ev c)" "fr_Filename q = fn" "fr_Mode q = FileMode_READ"
    "fr_ClientId q = wid" by (simp_all add: q_def open_request_def)
  obtain i s1 where o: "Open e q s = (Ok (OpenResponse (nextFD s) (current_version fn s) ''opened output file''), s1)"
    "mget (files s1) (nextFD s) = Some \<lparr>meta_file = Some (HFile i), filename = fn,
        meta_version = current_version fn s, clients = [(wid, \<lparr>lastSeen = now e, mode = FileMode_READ\<rparr>)]\<rparr>"
    "mget (openMap s1) (wid, fn) = Some (nextFD s)"
    "os_ReadHandle (disk s) (HFile i) = os_ReadFile (disk s) (full_path s fn)" "disk s1 = disk s" "leader_check s1 = None"
    using Open_ready [OF assms(3), of q] assms(4) q by metis
  let ?en = "opened_entry fn FileMode_READ (nextFD s) (current_version fn s)"
  obtain c1 where c1: "client_Open ?svc ev fn FileMode_READ wid c = (Value ?en, c1)" "client_at c1 a s1"
    "mget (cache c1) fn = Some ?en" "wf_disk (local_disk c1)" "creatable (local_disk c1) (local_path fn)"
    "creatable (local_disk c1) (local_path fn @ ''.tmp'')"
    using client_Open_ready [OF assms(1,2) o(1) [unfolded q_def]] by metis
  obtain s2 where s2: "Read (with_client wid e) \<lparr>rd_Filename = fn, rd_Fd = nextFD s\<rparr> s1 = (Ok (chunks ChunkSize x), s2)"
    using Read_opened [OF o(6) p o(3,2), of x "nextFD s"] o(4,5) assms(5) by (metis prod.collapse)
  have en: "LocalPath ?en = local_path fn" "ce_Fd ?en = nextFD s" "\<not> Valid ?en" by (simp_all add: opened_entry_def)
  have "rpc_Read ?svc (address c1) wid \<lparr>rd_Filename = fn, rd_Fd = ce_Fd ?en\<rparr> (world c1) =
      (Inr (chunks ChunkSize x, None), [(a, s2)])"
    using c1(2) s2 en(2) by (simp add: cluster_service_def serve_at_def answer_def stopped_def client_at_def)
  moreover have "failAfterVal ev \<le> 0" "\<not> fail_before_commit ev" using assms(2) by (simp_all add: client_ready_def)
  moreover have "concat (chunks ChunkSize x) = x" using chunks_ok [of ChunkSize x] by (simp add: ChunkSize_def)
  ultimately obtain c2 where c2: "client_Read ?svc ev fn wid c1 = (Value x, c2)"
    using read_remote_ready [OF c1(4), of ?en ev ?svc wid fn "chunks ChunkSize x"] c1(3,5,6) en
    by (auto simp: client_Read_def)
  obtain r c3 where cl: "client_Close ?svc ev fn wid c2 = (r, c3)" by fastforce
  then have "r \<noteq> Crash" using Close_no_crash [of ev ?svc fn wid c2] assms(2) by (simp add: client_ready_def)
  then show ?thesis using c1(1) c2 cl by (cases r) (simp_all add: fetch_file_def attempt_def)
qed

text \<open>
  C3. What one worker saves another restores: when a client without a copy saves data to a file that
  exists on the primary, and then a client without a copy fetches it, through the same primary, both
  succeed, and what comes back is a text of the set of the numbers of the data and of those in the set
  the primary has in memory for the file's name (after a failover that set need not hold what the file
  held), at the next version. When there is no such set, and the data are distinct numbers that are
  already one to a line in the order of the \<open>range\<close>, it is the data that was saved. The primary is
  two descriptors below its limit, a majority answers, no crash or write fault is injected at either
  end, the clients can write their cache directories and have room in them, and their request ids are
  not in the cache of the primary.
\<close>

theorem save_then_restore:
  assumes "client_at c a s" "client_ready ev c fn" "server_ready e s fn" "fair_order e" "mlen (files s) + 1 < MaxOpenFiles"
    and "cached e s (fst (generateRequestID ev c)) = None"
    and "cached e s (fst (generateRequestID ev (snd (generateRequestID ev c)))) = None"
  shows "\<exists>c' s'. store_file (cluster_service e) ev m1 m2 m3 fn wid data c = (Value (), c') \<and> client_at c' a s' \<and>
    current_version fn s' = current_version fn s + 1 \<and>
    (\<forall>ev2 c2. client_at c2 a s' \<and> client_ready ev2 c2 fn \<and> cached e s' (fst (generateRequestID ev2 c2)) = None \<longrightarrow>
      (\<exists>x. fst (fetch_file (cluster_service e) ev2 m4 m5 fn wid2 c2) = Value x \<and>
        set (parseNumbers x) = set (parseNumbers data) \<union>
          (case mget (filesPrimes s) fn of Some S \<Rightarrow> set S | None \<Rightarrow> {}) \<and>
        (\<forall>ns. data = format_lines ns \<and> distinct ns \<and> mget (filesPrimes s) fn = None \<and> range_order e ns = ns \<longrightarrow>
          x = data)))"
proof -
  let ?P = "merged_primes data fn s" and ?x = "format_lines (range_order e (merged_primes data fn s))"
  obtain c' s' where st: "store_file (cluster_service e) ev m1 m2 m3 fn wid data c = (Value (), c')"
    "client_at c' a s'" "current_version fn s' = current_version fn s + 1"
    "os_ReadFile (disk s') (full_path s' fn) = Some ?x" "server_ready e s' fn"
    using store_ready [OF assms(1-3,6,7)] assms(5) by metis
  have "set (range_order e ?P) = set ?P" using assms(4) unfolding fair_order_def by (metis set_mset_mset)
  then have "set (parseNumbers ?x) = set (parseNumbers data) \<union>
      (case mget (filesPrimes s) fn of Some S \<Rightarrow> set S | None \<Rightarrow> {})"
    by (auto simp: parse_format_lines merged_primes_def Filter_set split: option.splits)
  moreover have "?x = data" if "data = format_lines ns" "distinct ns" "mget (filesPrimes s) fn = None" "range_order e ns = ns" for ns
  proof -
    have "?P = ns" using that(1-3) FilterUniquePrimes_eq [of ns "[]"]
      distinct_remdups_id [of "rev ns"]
      by (simp add: merged_primes_def parse_format_lines first_new_def)
    then show ?thesis using that(1,4) by simp
  qed
  ultimately show ?thesis using st fetch_ready [OF _ _ st(5) _ st(4)] by blast
qed

text \<open>The example primary and a client just started are ready.\<close>

lemma example_server_ready: "server_ready example_env (primary_with ''output/a'') ''output/a''"
proof -
  have f: "flat_name ''output/a''" "safePath_unchecked ''output/a'' = ''output/a''" by code_simp+
  have "is_file (disk (primary_with ''output/a'')) (full_path (primary_with ''output/a'') ''output/a'')"
    "leader_check (primary_with ''output/a'') = None" "servers (primary_with ''output/a'') \<noteq> []"
    "\<not> too_many_files (primary_with ''output/a'')" by code_simp+
  then show ?thesis using f steady_with healthy_example majority_with by (simp add: server_ready_def)
qed

lemma example_client_ready: "client_ready example_client_env (fresh_client w) ''output/a''"
proof -
  let ?c = "fresh_client w"
  have l: "local_disk ?c = make_dirs (Clean ClientCacheDir) empty_disk" by (simp add: fresh_client_def NewClient_def)
  have "let d = make_dirs (Dir (local_path ''output/a'')) (make_dirs (Clean ClientCacheDir) empty_disk)
      in creatable d (local_path ''output/a'') \<and> creatable d (local_path ''output/a'' @ ''.tmp'')" by code_simp
  moreover have "failAfterVal example_client_env \<le> 0" "\<not> fail_before_commit example_client_env" by code_simp+
  ultimately show ?thesis by (simp add: client_ready_def l maxCacheEntries_def make_dirs_disk)
qed

definition example_saved :: "unit result \<times> cluster client" where
  "example_saved = store_file (cluster_service example_env) example_client_env ''o'' ''w'' ''c'' ''output/a'' ''worker_0''
     ''7 x'' (fresh_client [(''localhost:5001'', primary_with ''output/a'')])"

text \<open>The client that restores starts a minute later.\<close>

definition later_env :: client_env where
  "later_env = example_client_env\<lparr>clock := (\<lambda>n. 60)\<rparr>"

lemma later_id: "cached example_env (snd (hd (world (snd example_saved)))) (fst (generateRequestID later_env (fresh_client []))) = None"
  by code_simp

theorem save_then_restore_witness:
  "fst example_saved = Value () \<and>
   (\<exists>x. fst (fetch_file (cluster_service example_env) later_env ''o'' ''r'' ''output/a'' ''worker_1''
      (fresh_client (world (snd example_saved)))) = Value x \<and> set (parseNumbers x) = {7})"
proof -
  let ?s = "primary_with ''output/a''" and ?a = "''localhost:5001''"
  let ?c = "fresh_client [(?a, ?s)]"
  have at: "client_at (fresh_client [(?a, t)]) ?a t" for t by (simp add: client_at_def fresh_client_def NewClient_def)
  have v: "mlen (files ?s) + 1 < MaxOpenFiles" "requests ?s = []" "filesPrimes ?s = []" "parseNumbers ''7 x'' = [7]" by code_simp+
  then have u: "cached example_env ?s k = None" for k by (simp add: cached_def)
  have r: "client_ready later_env c fn = client_ready example_client_env c fn" for c :: "cluster client" and fn
    by (simp add: client_ready_def failAfterVal_def later_env_def)
  obtain c' s' where st: "example_saved = (Value (), c')" "client_at c' ?a s'"
    "\<forall>ev2 c2. client_at c2 ?a s' \<and> client_ready ev2 c2 ''output/a'' \<and> cached example_env s' (fst (generateRequestID ev2 c2)) = None \<longrightarrow>
      (\<exists>x. fst (fetch_file (cluster_service example_env) ev2 ''o'' ''r'' ''output/a'' ''worker_1'' c2) = Value x \<and>
        set (parseNumbers x) = set (parseNumbers ''7 x'') \<union> (case mget (filesPrimes ?s) ''output/a'' of Some S \<Rightarrow> set S | None \<Rightarrow> {}))"
    using save_then_restore [OF at example_client_ready example_server_ready fair_example v(1) u u,
        of "''o''" "''w''" "''c''" "''worker_0''" "''7 x''" "''o''" "''r''" "''worker_1''"]
    unfolding example_saved_def by blast
  have w: "world (snd example_saved) = [(?a, s')]" using st(2) unfolding st(1) by (simp add: client_at_def)
  have "fst (generateRequestID later_env (fresh_client [(?a, s')])) = fst (generateRequestID later_env (fresh_client []))"
    by (simp add: generateRequestID_def Let_def fresh_client_def NewClient_def)
  then have "cached example_env s' (fst (generateRequestID later_env (fresh_client [(?a, s')]))) = None"
    using later_id w by simp
  then obtain x where "fst (fetch_file (cluster_service example_env) later_env ''o'' ''r'' ''output/a'' ''worker_1''
      (fresh_client [(?a, s')])) = Value x" "set (parseNumbers x) = {7}"
    using st(3) [rule_format, of "fresh_client [(?a, s')]" later_env] at r example_client_ready v(3,4) by auto
  then show ?thesis unfolding w unfolding st(1) by auto
qed

section \<open>A save that was cut short\<close>

definition file_exists_error :: rpc_error where
  "file_exists_error = RpcError AlreadyExists ''file exists''"

lemma file_exists_error_facts: "extractLeaderAddr file_exists_error = None"
  "isAlreadyExists (Some (Status file_exists_error))"
  by code_simp+

text \<open>A server that is in order, with the files and the request cache of another.\<close>

definition same_files :: "server \<Rightarrow> server \<Rightarrow> bool" where
  "same_files s t \<longleftrightarrow> server_inv t \<and> server_ok t \<and> leader_check t = None \<and> names (disk t) = names (disk s) \<and>
     inodes (disk t) = inodes (disk s) \<and> rootDir t = rootDir s \<and> requests t = requests s"

lemma Create_exists:
  assumes "same_files s t" "is_file (disk s) (full_path s fn)" "flat_name fn" "safePath_unchecked fn = fn"
    and "cached e s (cr_RequestId req) = None" "cr_Filename req = fn"
  shows "fst (Create e req t) = Fail file_exists_error \<and> same_files s (snd (Create e req t))"
proof -
  have t: "server_inv t" "server_ok t" "leader_check t = None" "names (disk t) = names (disk s)"
    "inodes (disk t) = inodes (disk s)" "rootDir t = rootDir s" "requests t = requests s"
    using assms(1) by (simp_all add: same_files_def)
  obtain p where p: "sanitizePath fn = Some p" "normPath p = fn" using path_of_file [OF assms(3,4)] by blast
  obtain n where n: "fn = ''output/'' @ n" "proper n" using assms(3) by (rule flat_nameE)
  have r: "storage_ok (rootDir t) (disk t)" "proper (rootDir t)" using t(2) by (simp_all add: server_ok_def storage_ok_def)
  have fp: "full_path t fn = rootDir t @ ''/output/'' @ n" "full_path s fn = full_path t fn"
    using Join_output [OF r(2) n(2)] n(1) t(6) by (simp_all add: full_path_def)
  obtain d where d: "os_MkdirAll (disk t) (rootDir t @ ''/output'') = Some d" "storage_ok (rootDir t) d"
    using MkdirAll_output [OF r(1)] by blast
  have nd: "names d = names (disk t)" "inodes d = inodes (disk t)" using d(1) by (auto simp: os_MkdirAll_def split: if_splits)
  have ex: "os_CreateExcl d (full_path t fn) = Inl ErrExist"
    using assms(2) fp t(4) nd by (simp add: os_CreateExcl_def is_file_def)
  have lf: "locks_free t" using t(1) by (simp add: server_inv_iff)
  have lk: "disk (locked fn t) = disk t" "rootDir (locked fn t) = rootDir t" "requests (locked fn t) = requests t"
    by simp_all
  have "create_locked e req fn (locked fn t) = (Fail file_exists_error, (locked fn t)\<lparr>disk := d\<rparr>)"
    using d(1) Dir_file [OF r(2) n(2)] ex fp lk by (simp add: create_locked_def Let_def full_path_def file_exists_error_def)
  moreover have "cached e t (cr_RequestId req) = None" using assms(5) t(7) by (simp add: cached_def)
  moreover have "HasPrefix fn ''output/''" using assms(3) by (simp add: flat_name_def)
  ultimately have c: "Create e req t = (Fail file_exists_error, map_entry fn ReleaseWrite ((locked fn t)\<lparr>disk := d\<rparr>))"
    using p t(3) assms(6) by (simp add: Create_def with_write_free [OF lf])
  let ?t = "snd (Create e req t)"
  have m: "disk ?t = d" "rootDir ?t = rootDir t" "requests ?t = requests t"
    using c lk by (simp_all add: map_entry_def set_entry_def split: option.split)
  have "server_inv ?t" "leader_check ?t = None"
    using server_inv_call [OF call_Create t(1)] leader_check_call [OF call_Create, of t e req] t(3) r(1)
    by (simp_all add: storage_ok_def)
  then show ?thesis using c m d(2) nd t by (simp add: same_files_def server_ok_def)
qed

lemma Create_retries:
  assumes "\<And>t. I t \<Longrightarrow> fst (Create e req t) = Fail er \<and> I (snd (Create e req t))" "extractLeaderAddr er = None"
    and "client_at c a t" "I t"
  shows "\<exists>c' t'. retry_call (cluster_service e) (\<lambda>b. rpc_Create (cluster_service e) b req) (Suc n) last_error c =
    (Err (Status er), c') \<and> client_at c' a t' \<and> I t'"
  using assms(3,4)
proof (induction n arbitrary: c t last_error)
  case 0
  obtain t' where t': "Create e req t = (Fail er, t')" "I t'" using assms(1) [OF 0(2)] by (metis prod.collapse)
  then have "call (\<lambda>b. rpc_Create (cluster_service e) b req) c = (Inl er, c\<lparr>world := [(a, t')]\<rparr>)"
    using 0(1) by (simp add: call_def cluster_service_def serve_at_def answer_def stopped_def client_at_def)
  then show ?case using t'(2) 0(1) assms(2) by (simp add: client_at_def)
next
  case (Suc n)
  obtain t' where t': "Create e req t = (Fail er, t')" "I t'" using assms(1) [OF Suc(3)] by (metis prod.collapse)
  then have k: "call (\<lambda>b. rpc_Create (cluster_service e) b req) c = (Inl er, c\<lparr>world := [(a, t')]\<rparr>)"
    using Suc(2) by (simp add: call_def cluster_service_def serve_at_def answer_def stopped_def client_at_def)
  have "client_at (c\<lparr>world := [(a, t')]\<rparr>) a t'" using Suc(2) by (simp add: client_at_def)
  from Suc.IH [OF this t'(2), of "Some (Status er)"] show ?case using k assms(2) by (auto simp del: retry_call.simps(2) simp: retry_call.simps(2) [of _ _ "Suc n"])
qed

text \<open>What \<open>testAuth\<close> makes of a file whose version is not positive.\<close>

lemma testAuth_unfinished:
  assumes "client_at c a s" "leader_check s = None" "sanitizePath fn = Some p" "normPath p = fn"
    and "\<forall>fe. mget (table s) fn = Some fe \<longrightarrow> sint (fe_version fe) \<le> 0"
  shows "\<exists>r c'. testAuth (cluster_service e) fn c = (r, c') \<and> (case r of Value v \<Rightarrow> sint v \<le> 0 | Err x \<Rightarrow> True | Crash \<Rightarrow> False) \<and>
    client_at c' a s \<and> cache c' = cache c \<and> requestCounter c' = requestCounter c"
proof -
  have w: "c\<lparr>world := [(a, s)]\<rparr> = c" using assms(1) by (cases c) (simp add: client_at_def)
  have k: "call (\<lambda>b. rpc_TestAuth (cluster_service e) b fn) c = (answer (TestAuth fn s), c)"
    using assms(1) w by (auto simp: call_def cluster_service_def serve_at_def client_at_def stopped_def TestAuth_def
        assms(2-4) split: option.splits)
  show ?thesis
  proof (cases "mget (table s) fn")
    case None
    then have "answer (TestAuth fn s) = Inl (RpcError NotFound ''file not found'')"
      using assms(2-4) by (simp add: TestAuth_def answer_def)
    then show ?thesis using k assms(1) by (simp add: testAuth_def maxTries_def numeral_3_eq_3 transient_def)
  next
    case (Some fe)
    then have "answer (TestAuth fn s) = Inr (fe_version fe)"
      using assms(2-4) by (simp add: TestAuth_def answer_def)
    then show ?thesis using k assms(1,5) Some by (simp add: testAuth_def maxTries_def numeral_3_eq_3)
  qed
qed

text \<open>
  C36. A tensor that was never stored is taken for stored: when a worker dies between the \<open>Create\<close> and
  the \<open>Close\<close> of a tensor's file, the file exists at version 0; the next \<open>SaveTensors\<close> finds
  no stored version, its \<open>Create\<close> is refused because the file exists, and the tensor is counted as
  deduplicated without a byte of it being written, so the checkpoint refers to a file that does not hold it.
\<close>

theorem unfinished_tensor_taken_for_stored:
  assumes "client_at c a s" "server_inv s" "server_ok s" "leader_check s = None" "mlen (cache c) < maxCacheEntries"
    and "TensorPath (HashTensor sha t) = Some fn" "flat_name fn" "safePath_unchecked fn = fn"
    and "is_file (disk s) (full_path s fn)" "\<forall>fe. mget (table s) fn = Some fe \<longrightarrow> sint (fe_version fe) \<le> 0"
    and "cached e s (fst (generateRequestID ev c)) = None"
  shows "\<exists>c' s'. save_tensor sha (cluster_service e) ev wid t resp c =
      (Value (count_deduped t (resp\<lparr>HashByName := mput (Name t) (HashTensor sha t) (HashByName resp)\<rparr>)), c') \<and>
    client_at c' a s' \<and> os_ReadFile (disk s') (full_path s' fn) = os_ReadFile (disk s) (full_path s fn)"
proof -
  let ?svc = "cluster_service e"
  obtain p where p: "sanitizePath fn = Some p" "normPath p = fn" using path_of_file [OF assms(7,8)] by blast
  obtain r c1 where ta: "testAuth ?svc fn c = (r, c1)" "case r of Value v \<Rightarrow> sint v \<le> 0 | Err x \<Rightarrow> True | Crash \<Rightarrow> False"
    "client_at c1 a s" "cache c1 = cache c" "requestCounter c1 = requestCounter c"
    using testAuth_unfinished [OF assms(1,4) p assms(10)] by blast
  then have unknown: "\<not> (case r of Value v \<Rightarrow> sint v > 0 | _ \<Rightarrow> False)" by (cases r) simp_all
  obtain rid c2 where g: "generateRequestID ev c1 = (rid, c2)" by fastforce
  have c2: "client_at c2 a s" "rid = fst (generateRequestID ev c)"
    using g ta(3,5) by (auto simp: generateRequestID_def Let_def client_at_def)
  let ?q = "\<lparr>cr_RequestId = rid, cr_Filename = fn, cr_ClientId = wid, cr_Mode = 0\<rparr>"
  have "same_files s s" using assms(2-4) by (simp add: same_files_def)
  moreover have "fst (Create e ?q u) = Fail file_exists_error \<and> same_files s (snd (Create e ?q u))" if "same_files s u" for u
    by (rule Create_exists [OF that assms(9,7,8)]) (use assms(11) c2(2) in simp_all)
  ultimately obtain c3 s3 where c3: "retry_call ?svc (\<lambda>b. rpc_Create ?svc b ?q) (Suc 2) None c2 =
      (Err (Status file_exists_error), c3)" "client_at c3 a s3" "same_files s s3"
    using Create_retries [of "same_files s" e ?q file_exists_error c2 a s 2 None] file_exists_error_facts(1) c2(1) by blast
  have "client_Create ?svc ev fn wid c1 = (Err (Status file_exists_error), c3)"
    using assms(5) ta(4) g c3(1) by (simp add: client_Create_def make_space_def maxTries_def)
  then have "save_tensor sha ?svc ev wid t resp c =
      (Value (count_deduped t (resp\<lparr>HashByName := mput (Name t) (HashTensor sha t) (HashByName resp)\<rparr>)), c3)"
    using assms(6) ta(1) unknown file_exists_error_facts(2) by (simp add: save_tensor_def Let_def)
  then show ?thesis using c3(2,3) by (auto simp: same_files_def os_ReadFile_def full_path_def split: option.splits)
qed

text \<open>A tensor whose file the example primary has, empty and at version 0.\<close>

definition unfinished_tensor :: TensorBlob where
  "unfinished_tensor = \<lparr>Name = ''layer'', tensor_DType = Float32, Shape = [1], Data = ''abcd''\<rparr>"

definition unfinished_primary :: server where
  "unfinished_primary = (primary_with ''output/tensors_61_62'')\<lparr>
     disk := new_file example_disk ''storage/output/tensors_61_62'' []\<rparr>"

lemma unfinished_ok: "server_inv unfinished_primary" "server_ok unfinished_primary"
proof -
  have p: "proper ''tensors_61_62''" by (simp add: proper_def dot_def dotdot_def noslash_def)
  have s: "storage_ok ''storage'' (new_file example_disk ''storage/output/tensors_61_62'' [])"
    using storage_ok_new_file [OF storage_ok_example p] by simp
  have r: "rootDir unfinished_primary = ''storage''" by (simp add: unfinished_primary_def primary_with_def)
  show "server_ok unfinished_primary" using s r by (simp add: server_ok_def) (simp add: unfinished_primary_def)
  have "server_inv (primary_with ''output/tensors_61_62'')" using steady_with by (simp add: steady_def)
  moreover have "inodes (new_file example_disk q []) = inodes (disk (primary_with ''output/tensors_61_62''))" for q
    by (simp add: primary_with_def) (simp add: example_primary_def new_file_def)
  ultimately show "server_inv unfinished_primary"
    using s by (auto simp: server_inv_def unfinished_primary_def locks_free_def fds_ok_def handles_ok_def storage_ok_def)
qed

theorem unfinished_tensor_taken_for_stored_witness:
  "\<exists>c' s'. save_tensor (\<lambda>b. ''ab'') (cluster_service example_env) example_client_env ''w'' unfinished_tensor
      \<lparr>HashByName = [], NewCount = 0, DedupeCount = 0, NewBytes = 0, DedupedBytes = 0\<rparr>
      (fresh_client [(''localhost:5001'', unfinished_primary)]) =
      (Value \<lparr>HashByName = [(''layer'', ''6162'')], NewCount = 0, DedupeCount = 1, NewBytes = 0, DedupedBytes = 4\<rparr>, c') \<and>
    client_at c' ''localhost:5001'' s' \<and> os_ReadFile (disk s') (full_path s' ''output/tensors_61_62'') = Some []"
proof -
  let ?s = unfinished_primary and ?c = "fresh_client [(''localhost:5001'', unfinished_primary)]"
  let ?fn = "''output/tensors_61_62''" and ?sha = "\<lambda>b. ''ab''"
  have f: "flat_name ?fn" "safePath_unchecked ?fn = ?fn" by code_simp+
  have h: "HashTensor ?sha unfinished_tensor = ''6162''" "TensorPath ''6162'' = Some ?fn" by code_simp+
  have c: "client_at ?c ''localhost:5001'' ?s" "mlen (cache ?c) < maxCacheEntries"
    by (simp_all add: client_at_def fresh_client_def NewClient_def maxCacheEntries_def)
  have s: "leader_check ?s = None" "is_file (disk ?s) (full_path ?s ?fn)"
    "os_ReadFile (disk ?s) (full_path ?s ?fn) = Some []" "mget (table ?s) ?fn = Some NewFileEntry" by code_simp+
  have v: "sint (fe_version NewFileEntry) \<le> 0" by code_simp
  have q: "cached example_env ?s k = None" for k by (simp add: cached_def unfinished_primary_def primary_with_def)
  obtain c' s' where "save_tensor ?sha (cluster_service example_env) example_client_env ''w'' unfinished_tensor
      \<lparr>HashByName = [], NewCount = 0, DedupeCount = 0, NewBytes = 0, DedupedBytes = 0\<rparr> ?c =
      (Value (count_deduped unfinished_tensor (\<lparr>HashByName = [(''layer'', ''6162'')], NewCount = 0, DedupeCount = 0,
        NewBytes = 0, DedupedBytes = 0\<rparr>)), c')" "client_at c' ''localhost:5001'' s'"
    "os_ReadFile (disk s') (full_path s' ?fn) = Some []"
    using unfinished_tensor_taken_for_stored [OF c(1) unfinished_ok s(1) c(2) _ f s(2) _ q, of ?sha unfinished_tensor
        example_client_env "''w''" "\<lparr>HashByName = [], NewCount = 0, DedupeCount = 0, NewBytes = 0, DedupedBytes = 0\<rparr>"]
      h s(3,4) v by (auto simp: unfinished_tensor_def)
  then show ?thesis by (auto simp: count_deduped_def unfinished_tensor_def)
qed

end
