(* ===== verification/Election.thy ===== *)
theory Election
  imports ServiceFaults
begin

text \<open>
  The choice of the primary: \<open>electPrimary\<close>, the heartbeats and the monitor of
  \<open>server_replication.go\<close>, and the start of a server in \<open>connection.go\<close>. A loop that runs for ever
  is modelled by one iteration, with the clock and the answers of the peers as arguments.
\<close>

section \<open>The operations\<close>

definition HeartBeatTime :: time where "HeartBeatTime = 2 * second"
definition PrimaryFailedTimeout :: time where "PrimaryFailedTimeout = 5 * second"

record Heartbeat =
  PrimaryId :: string
  hb_Timestamp :: int

fun elect_loop :: "string \<Rightarrow> ServerInfo list \<Rightarrow> string" where
  "elect_loop leader [] = leader"
| "elect_loop leader (i # is) =
     (if \<not> Alive i then elect_loop leader is
      else if leader = [] \<or> ID i < leader then elect_loop (ID i) is
      else elect_loop leader is)"

definition electPrimary :: "(string, ServerInfo) gomap \<Rightarrow> string" where
  "electPrimary m = elect_loop [] (map snd m)"

definition SendHeartbeat :: "time \<Rightarrow> Heartbeat \<Rightarrow> server \<Rightarrow> bool \<times> server" where
  "SendHeartbeat t hb s =
     (let i = (case mget (servers s) (PrimaryId hb) of
            None \<Rightarrow> \<lparr>ID = PrimaryId hb, Address = [], Timestamp = hb_Timestamp hb, Alive = True\<rparr>
          | Some srv \<Rightarrow> srv\<lparr>Alive := True\<rparr>);
          s1 = s\<lparr>servers := mput (PrimaryId hb) i (servers s)\<rparr>
      in if primaryID s1 \<noteq> [] \<and> PrimaryId hb > primaryID s1 then (False, s1)
         else (True, s1\<lparr>primaryID := PrimaryId hb, lastHeartbeat := t\<rparr>))"

text \<open>\<open>sendHeartbeat\<close>, given the peer's answer, if one came.\<close>

definition heartbeat_answer :: "bool option \<Rightarrow> server \<Rightarrow> server" where
  "heartbeat_answer r s = (if r = Some False then s\<lparr>role := Backup\<rparr> else s)"

definition StartHeartbeat_turn :: "(string \<Rightarrow> bool option) \<Rightarrow> server \<Rightarrow> server" where
  "StartHeartbeat_turn reply s =
     (if server_id s \<noteq> primaryID s then s
      else fold (\<lambda>p. heartbeat_answer (reply p)) (peers s) s)"

text \<open>
  A turn of the monitor tells whether it started the goroutine that runs \<open>rebuildAllPrimeSets\<close>, a step
  of its own: it holds no mutex, so other calls can come before it.
\<close>

definition MonitorPrimary_turn :: "time \<Rightarrow> server \<Rightarrow> bool \<times> server" where
  "MonitorPrimary_turn t s =
     (if server_id s = primaryID s then (False, s)
      else if t - lastHeartbeat s > PrimaryFailedTimeout
      then let srvs = (case mget (servers s) (primaryID s) of None \<Rightarrow> servers s
                 | Some srv \<Rightarrow> mput (primaryID s) (srv\<lparr>Alive := False\<rparr>) (servers s));
               new = electPrimary srvs;
               s1 = s\<lparr>servers := srvs, primaryID := new\<rparr>
           in if server_id s = new then (True, s1\<lparr>role := Primary\<rparr>)
              else (False, s1\<lparr>role := Backup\<rparr>)
      else (False, s))"

definition OnHeartbeat :: "time \<Rightarrow> Heartbeat \<Rightarrow> server \<Rightarrow> server" where
  "OnHeartbeat t hb s =
     (let s1 = s\<lparr>primaryID := PrimaryId hb, lastHeartbeat := t\<rparr>;
          s2 = (if primaryID s1 = [] \<or> PrimaryId hb < primaryID s1
                then s1\<lparr>primaryID := PrimaryId hb\<rparr> else s1);
          s3 = s2\<lparr>role := (if server_id s2 = primaryID s2 then Primary else Backup)\<rparr>
      in case mget (servers s3) (PrimaryId hb) of None \<Rightarrow> s3
         | Some srv \<Rightarrow> s3\<lparr>servers := mput (PrimaryId hb) (srv\<lparr>Alive := True\<rparr>) (servers s3)\<rparr>)"

definition Init :: "time \<Rightarrow> server \<Rightarrow> server" where
  "Init t s = s\<lparr>lastHeartbeat := t\<rparr>"

text \<open>
  \<open>StartServer\<close> up to the call that serves: it registers the server itself, replays the log file,
  elects among the servers it was configured with, and makes the two directories. A second later,
  a server that is a backup asks the leader for its files.
\<close>

definition StartServer :: "time \<Rightarrow> string \<Rightarrow> server \<Rightarrow> server" where
  "StartServer t port s =
     (let me = \<lparr>ID = server_id s, Address = ''localhost:'' @ port, Timestamp = t div second, Alive = True\<rparr>;
          s1 = s\<lparr>servers := mput (server_id s) me (servers s)\<rparr>;
          s2 = snd (recoverFromLog s1);
          p = electPrimary (servers s2);
          s3 = s2\<lparr>primaryID := p, role := (if server_id s2 = p then Primary else Backup)\<rparr>;
          mk = (\<lambda>d u. try_disk (\<lambda>dk. os_MkdirAll dk (full_path u d)) u)
      in mk ''output'' (mk ''input'' s3))"

definition late_recovery :: "env \<Rightarrow> UpdateMessage option \<Rightarrow> server \<Rightarrow> server" where
  "late_recovery e answer s = (if role s = Backup then snd (RecoverFromLeader e answer s) else s)"

section \<open>The election\<close>

definition alive_ids :: "(string, ServerInfo) gomap \<Rightarrow> string list" where
  "alive_ids m = map ID (filter Alive (map snd m))"

lemma elect_loop_min:
  assumes "[] \<notin> set (map ID (filter Alive is))"
  shows "elect_loop l is = (if l = [] then (if filter Alive is = [] then [] else Min (set (map ID (filter Alive is))))
    else Min (insert l (set (map ID (filter Alive is)))))"
  using assms
proof (induction l "is" rule: elect_loop.induct)
  case (1 leader)
  then show ?case by simp
next
  case (2 leader i "is")
  show ?case
  proof (cases "Alive i")
    case False
    then show ?thesis using 2 by simp
  next
    case True
    have ne: "ID i \<noteq> []" "[] \<notin> set (map ID (filter Alive is))" using 2(4) True by auto
    let ?A = "set (map ID (filter Alive is))"
    show ?thesis
    proof (cases "leader = [] \<or> ID i < leader")
      case True
      then have "elect_loop leader (i # is) = Min (insert (ID i) ?A)"
        using 2(2) [OF _ True ne(2)] \<open>Alive i\<close> ne(1) by simp
      moreover have "Min (insert leader (insert (ID i) ?A)) = Min (insert (ID i) ?A)" if "ID i < leader"
      proof -
        have "Min (insert (ID i) ?A) \<le> leader" using that by (meson Min_le finite.insertI finite_set insertI1 less_imp_le order_trans)
        then show ?thesis by (simp add: Min_insert min_absorb2)
      qed
      ultimately show ?thesis using True \<open>Alive i\<close> by auto
    next
      case False
      then have "elect_loop leader (i # is) = Min (insert leader ?A)"
        using 2(3) [OF _ False ne(2)] \<open>Alive i\<close> by simp
      moreover have "Min (insert leader (insert (ID i) ?A)) = Min (insert leader ?A)"
      proof -
        have "Min (insert leader ?A) \<le> ID i"
          using False by (meson Min_le finite.insertI finite_set insertI1 not_less order_trans)
        then show ?thesis by (subst insert_commute) (simp add: Min_insert min_absorb2)
      qed
      ultimately show ?thesis using False \<open>Alive i\<close> by auto
    qed
  qed
qed

lemma electPrimary_min:
  assumes "[] \<notin> set (alive_ids m)"
  shows "electPrimary m = (if alive_ids m = [] then [] else Min (set (alive_ids m)))"
  using elect_loop_min [of "map snd m" "[]"] assms by (simp add: electPrimary_def alive_ids_def)

section \<open>Properties\<close>

text \<open>
  C27. The election agrees: servers that take the same servers for alive, in whatever order their maps
  are visited, elect the same primary, and it is the least of the alive ids.
\<close>

theorem election_agrees:
  assumes "set (alive_ids m) = set (alive_ids m')" "alive_ids m \<noteq> []" "[] \<notin> set (alive_ids m)"
  shows "electPrimary m = electPrimary m' \<and> electPrimary m \<in> set (alive_ids m) \<and>
    (\<forall>i \<in> set (alive_ids m). electPrimary m \<le> i)"
proof -
  have "alive_ids m' \<noteq> []" using assms(1,2) by auto
  then have "electPrimary m' = Min (set (alive_ids m))" "electPrimary m = Min (set (alive_ids m))"
    using electPrimary_min [of m] electPrimary_min [of m'] assms by simp_all
  then show ?thesis using assms(2) by simp
qed

theorem election_agrees_witness:
  "electPrimary example_servers = electPrimary (rev example_servers) \<and> electPrimary example_servers = ''1''"
proof -
  have a: "alive_ids example_servers = [''1'', ''2'', ''3'']" "alive_ids (rev example_servers) = [''3'', ''2'', ''1'']"
    by (simp_all add: alive_ids_def example_servers_def)
  have "electPrimary example_servers = ''1''" by (simp add: electPrimary_def example_servers_def less_char_def)
  then show ?thesis using election_agrees [of example_servers "rev example_servers"] a by auto
qed

lemma SendHeartbeat_primary:
  assumes "primaryID s \<noteq> []"
  shows "primaryID (snd (SendHeartbeat t hb s)) = min (primaryID s) (PrimaryId hb)"
    and "role (snd (SendHeartbeat t hb s)) = role s"
  using assms by (auto simp: SendHeartbeat_def Let_def min_def)

text \<open>
  C28. Heartbeats converge on the least leader: after any heartbeats, in any order, a server follows
  the least of the leader it had and those it heard from; a heartbeat never changes its role.
\<close>

theorem heartbeats_keep_least:
  assumes "primaryID s \<noteq> []" "\<forall>hb \<in> set hbs. PrimaryId hb \<noteq> []"
    and "s' = fold (\<lambda>hb u. snd (SendHeartbeat t hb u)) hbs s"
  shows "primaryID s' = Min (insert (primaryID s) (set (map PrimaryId hbs))) \<and> role s' = role s"
proof -
  have "primaryID (fold (\<lambda>hb u. snd (SendHeartbeat t hb u)) hbs s) = Min (insert (primaryID s) (set (map PrimaryId hbs)))
    \<and> role (fold (\<lambda>hb u. snd (SendHeartbeat t hb u)) hbs s) = role s"
    using assms(1,2)
  proof (induction hbs arbitrary: s)
    case (Cons hb hbs)
    let ?s = "snd (SendHeartbeat t hb s)"
    have p: "primaryID ?s = min (primaryID s) (PrimaryId hb)" "role ?s = role s"
      using SendHeartbeat_primary [OF Cons.prems(1)] by simp_all
    then have "primaryID ?s \<noteq> []" using Cons.prems by (simp add: min_def)
    then show ?case using Cons.IH [of ?s] Cons.prems(2) p
      by (cases "hbs = []") (simp_all add: Min_insert min.assoc)
  qed simp
  then show ?thesis using assms(3) by simp
qed

definition hb_of :: "string \<Rightarrow> Heartbeat" where
  "hb_of i = \<lparr>PrimaryId = i, hb_Timestamp = 0\<rparr>"

theorem heartbeats_keep_least_witness:
  "primaryID (fold (\<lambda>hb u. snd (SendHeartbeat 0 hb u)) [hb_of ''3'', hb_of ''1'']
     ((example_backup ''2'')\<lparr>primaryID := ''2''\<rparr>)) = ''1''"
  using heartbeats_keep_least [OF _ _ refl, of "(example_backup ''2'')\<lparr>primaryID := ''2''\<rparr>" "[hb_of ''3'', hb_of ''1'']" 0]
  by (simp add: hb_of_def min_def less_eq_char_def less_char_def)

text \<open>
  Two primaries: a primary that hears from a server with a lesser id accepts it as the leader but
  keeps its own role. It still serves every request as primary, it no longer sends heartbeats, so
  nobody tells it to step down, and while the heartbeats go on its monitor does nothing.
\<close>

theorem heartbeat_leaves_two_primaries:
  assumes "role s = Primary" "primaryID s = server_id s" "PrimaryId hb < server_id s"
    and "t' - t \<le> PrimaryFailedTimeout" "s' = snd (SendHeartbeat t hb s)"
  shows "fst (SendHeartbeat t hb s) \<and> primaryID s' = PrimaryId hb \<and> leader_check s' = None \<and>
    StartHeartbeat_turn reply s' = s' \<and> MonitorPrimary_turn t' s' = (False, s')"
proof -
  have "\<not> PrimaryId hb > primaryID s" "server_id s \<noteq> PrimaryId hb" using assms(2,3) by auto
  then show ?thesis using assms
    by (auto simp: SendHeartbeat_def Let_def leader_check_def StartHeartbeat_turn_def MonitorPrimary_turn_def)
qed

theorem heartbeat_leaves_two_primaries_witness:
  "leader_check (snd (SendHeartbeat 0 (hb_of ''0'') example_primary)) = None"
  using heartbeat_leaves_two_primaries [of example_primary "hb_of ''0''" 0 0 _ "\<lambda>p. None"]
  by (simp add: hb_of_def less_char_def PrimaryFailedTimeout_def second_def)
    (simp add: example_primary_def less_char_def)

section \<open>Restart\<close>

lemma recover_entry_keeps [simp]:
  "servers (recover_entry le s) = servers s" "filesPrimes (recover_entry le s) = filesPrimes s"
  "server_id (recover_entry le s) = server_id s"
  by (simp_all add: recover_entry_def Let_def)

lemma recover_lines_keeps [simp]:
  "servers (snd (recover_lines ls s)) = servers s"
  "filesPrimes (snd (recover_lines ls s)) = filesPrimes s"
  "server_id (snd (recover_lines ls s)) = server_id s" "role (snd (recover_lines ls s)) = role s"
  by (induction ls s rule: recover_lines.induct) simp_all

lemma recoverFromLog_keeps:
  assumes "role s = Backup"
  shows "servers (snd (recoverFromLog s)) = servers s" "filesPrimes (snd (recoverFromLog s)) = filesPrimes s"
    "server_id (snd (recoverFromLog s)) = server_id s"
  using assms by (auto simp: recoverFromLog_def rebuildAllPrimeSets_def case_prod_beta split: option.splits)

lemma try_disk_simps [simp]:
  "role (try_disk f s) = role s" "primaryID (try_disk f s) = primaryID s"
  "filesPrimes (try_disk f s) = filesPrimes s" "server_id (try_disk f s) = server_id s"
  by (simp_all add: try_disk_def split: option.splits)

lemma alive_ids_put:
  assumes "Alive v"
  shows "set (alive_ids (mput k v m)) \<subseteq> insert (ID v) (set (alive_ids m)) \<and> ID v \<in> set (alive_ids (mput k v m))"
proof
  show "set (alive_ids (mput k v m)) \<subseteq> insert (ID v) (set (alive_ids m))"
    using assms by (induction m) (auto simp: alive_ids_def)
  have "mget (mput k v m) k = Some v" by simp
  then have "(k, v) \<in> set (mput k v m)" by (rule map_of_SomeD)
  then show "ID v \<in> set (alive_ids (mput k v m))" using assms by (force simp: alive_ids_def)
qed

text \<open>
  A restarted server with the least id takes over: whoever leads at that moment, it elects itself
  among the servers of its configuration, does not ask the leader for what it missed, and starts with
  no prime sets, though it may hold files.
\<close>

theorem restart_usurps:
  assumes "s = NewServer i root srvs d lf sf" "i \<noteq> []" "[] \<notin> set (alive_ids srvs)"
    and "\<forall>j \<in> set (alive_ids srvs). i \<le> j" "s' = StartServer t port s"
  shows "role s' = Primary \<and> primaryID s' = i \<and> filesPrimes s' = [] \<and> late_recovery e answer s' = s'"
proof -
  let ?me = "\<lparr>ID = i, Address = ''localhost:'' @ port, Timestamp = t div second, Alive = True\<rparr>"
  let ?s1 = "s\<lparr>servers := mput i ?me srvs\<rparr>"
  have s: "role s = Backup" "server_id s = i" "servers s = srvs" "filesPrimes s = []"
    using assms(1) by (simp_all add: NewServer_def)
  have k: "servers (snd (recoverFromLog ?s1)) = mput i ?me srvs"
    "filesPrimes (snd (recoverFromLog ?s1)) = []" "server_id (snd (recoverFromLog ?s1)) = i"
    using recoverFromLog_keeps [of ?s1] s by simp_all
  have sub: "set (alive_ids (mput i ?me m)) \<subseteq> insert i (set (alive_ids m)) \<and> i \<in> set (alive_ids (mput i ?me m))" for m
    using alive_ids_put [of ?me i m] by simp
  have ne: "[] \<notin> set (alive_ids (mput i ?me srvs))" "alive_ids (mput i ?me srvs) \<noteq> []"
    using sub [of srvs] assms(2,3) by auto
  have "Min (set (alive_ids (mput i ?me srvs))) = i"
    using sub [of srvs] assms(4) by (intro Min_eqI) auto
  then have e: "electPrimary (mput i ?me srvs) = i" using electPrimary_min [OF ne(1)] ne(2) by simp
  have "role s' = Primary \<and> primaryID s' = i \<and> filesPrimes s' = []"
    using assms(5) s k e by (simp add: StartServer_def Let_def)
  then show ?thesis by (simp add: late_recovery_def)
qed

theorem restart_usurps_witness:
  "role (StartServer 0 ''5001'' (example_backup ''1'')) = Primary"
proof -
  have a: "alive_ids example_servers = [''1'', ''2'', ''3'']"
    by (simp add: alive_ids_def example_servers_def)
  show ?thesis
    using restart_usurps [OF _ _ _ _ refl, of "example_backup ''1''" "''1''" "''storage''" example_servers example_disk None "[]" 0 "''5001''"] a
    by (simp add: example_backup_def less_eq_char_def less_char_def)
qed

end
