(* ===== verification/Programs.thy ===== *)
theory Programs
  imports Election
begin

text \<open>
  The three server programs (\<open>test_server_1\<close> to \<open>test_server_3\<close>): the configuration they share, and
  the servers they start with the default flags, up to the call that serves.
\<close>

definition configured_servers :: "(string, ServerInfo) gomap" where
  "configured_servers =
    [(''1'', \<lparr>ID = ''1'', Address = ''localhost:5001'', Timestamp = 0, Alive = True\<rparr>),
     (''2'', \<lparr>ID = ''2'', Address = ''localhost:5002'', Timestamp = 0, Alive = True\<rparr>),
     (''3'', \<lparr>ID = ''3'', Address = ''localhost:5003'', Timestamp = 0, Alive = True\<rparr>)]"

text \<open>\<open>i\<close> and \<open>port\<close> are the values of the flags, the rest is what the machine has on its disk.\<close>

definition server_main :: "time \<Rightarrow> string \<Rightarrow> string \<Rightarrow> disk \<Rightarrow> log_line list option \<Rightarrow>
    (string, GlobalSnapshot) gomap \<Rightarrow> server" where
  "server_main t i port d lf sf = StartServer t port (NewServer i ''storage'' configured_servers d lf sf)"

definition simple_server :: "time \<Rightarrow> disk \<Rightarrow> log_line list option \<Rightarrow> (string, GlobalSnapshot) gomap \<Rightarrow> server" where
  "simple_server t d lf sf = server_main t ''1'' ''5001'' d lf sf"

definition bu1_server :: "time \<Rightarrow> disk \<Rightarrow> log_line list option \<Rightarrow> (string, GlobalSnapshot) gomap \<Rightarrow> server" where
  "bu1_server t d lf sf = server_main t ''2'' ''5002'' d lf sf"

definition bu2_server :: "time \<Rightarrow> disk \<Rightarrow> log_line list option \<Rightarrow> (string, GlobalSnapshot) gomap \<Rightarrow> server" where
  "bu2_server t d lf sf = server_main t ''3'' ''5003'' d lf sf"

text \<open>Whatever a server has on its disk, it elects the lesser of its own id and \<open>1\<close>.\<close>

lemma StartServer_elects:
  assumes "s = NewServer i root srvs d lf sf" "i \<noteq> []" "[] \<notin> set (alive_ids srvs)"
    and "s' = StartServer t port s"
  shows "primaryID s' = Min (set (alive_ids (mput i \<lparr>ID = i, Address = ''localhost:'' @ port,
      Timestamp = t div second, Alive = True\<rparr> srvs)))"
    and "role s' = (if primaryID s' = i then Primary else Backup)" "server_id s' = i"
proof -
  let ?me = "\<lparr>ID = i, Address = ''localhost:'' @ port, Timestamp = t div second, Alive = True\<rparr>"
  let ?s1 = "s\<lparr>servers := mput i ?me srvs\<rparr>"
  have s: "role s = Backup" "server_id s = i" "servers s = srvs" using assms(1) by (simp_all add: NewServer_def)
  have k: "servers (snd (recoverFromLog ?s1)) = mput i ?me srvs" "server_id (snd (recoverFromLog ?s1)) = i"
    using recoverFromLog_keeps [of ?s1] s by simp_all
  have ne: "[] \<notin> set (alive_ids (mput i ?me srvs))" "alive_ids (mput i ?me srvs) \<noteq> []"
    using alive_ids_put [of ?me i srvs] assms(2,3) by auto
  have e: "electPrimary (mput i ?me srvs) = Min (set (alive_ids (mput i ?me srvs)))"
    using electPrimary_min [OF ne(1)] ne(2) by simp
  show "primaryID s' = Min (set (alive_ids (mput i ?me srvs)))"
    "role s' = (if primaryID s' = i then Primary else Backup)" "server_id s' = i"
    using assms(4) s k e by (simp_all add: StartServer_def Let_def)
qed

text \<open>
  C26. The cluster starts with one primary: whatever the three programs find on their disks and whenever
  they are started, with their default flags all three follow server 1, which is the one primary,
  and the primary asks nobody for what it missed.
\<close>

theorem start_elects_one_primary:
  "let s1 = simple_server t1 d1 l1 f1; s2 = bu1_server t2 d2 l2 f2; s3 = bu2_server t3 d3 l3 f3 in
     map server_id [s1, s2, s3] = [''1'', ''2'', ''3''] \<and> map primaryID [s1, s2, s3] = [''1'', ''1'', ''1''] \<and>
     map role [s1, s2, s3] = [Primary, Backup, Backup] \<and> late_recovery e a s1 = s1"
proof -
  have a: "[] \<notin> set (alive_ids configured_servers)" by (simp add: configured_servers_def alive_ids_def)
  have m: "Min (set (alive_ids (mput i \<lparr>ID = i, Address = x, Timestamp = y, Alive = True\<rparr> configured_servers))) = ''1''"
    if "i = ''1'' \<or> i = ''2'' \<or> i = ''3''" for i x y
  proof -
    have "alive_ids (mput i \<lparr>ID = i, Address = x, Timestamp = y, Alive = True\<rparr> configured_servers) = [''1'', ''2'', ''3'']"
      using that by (elim disjE) (simp_all add: configured_servers_def alive_ids_def)
    moreover have "''1'' \<le> (''2'' :: string)" "''1'' \<le> (''3'' :: string)"
      by (simp_all add: less_eq_char_def less_char_def)
    ultimately show ?thesis by (simp add: min_def)
  qed
  have s: "primaryID (server_main t i p d l f) = ''1'' \<and> server_id (server_main t i p d l f) = i \<and>
      role (server_main t i p d l f) = (if i = ''1'' then Primary else Backup)"
    if i: "i = ''1'' \<or> i = ''2'' \<or> i = ''3''" for t i p d l f
  proof -
    have "i \<noteq> []" using i by auto
    note e = StartServer_elects [where root = "''storage''" and d = d and lf = l and sf = f and t = t and port = p, OF refl this a refl]
    have "primaryID (server_main t i p d l f) = ''1''" unfolding server_main_def using e(1) m [OF i] by simp
    then show ?thesis using e(2,3) unfolding server_main_def by auto
  qed
  show ?thesis using s by (simp add: simple_server_def bu1_server_def bu2_server_def Let_def late_recovery_def)
qed

end
