(* ===== verification/Steady.thy ===== *)
theory Steady
  imports EndToEnd Programs WriteProps
begin

text \<open>
  The state that the properties of a commit start from is the state a primary is in: it holds when a
  program starts its server, and every call for files directly in \<open>output/\<close>, as the checkpoint layer
  makes them, keeps it.
\<close>

section \<open>The invariant\<close>

definition flat_file :: "string \<Rightarrow> bool" where
  "flat_file fn \<longleftrightarrow> flat_name fn \<and> safePath_unchecked fn = fn"

definition names_flat :: "server \<Rightarrow> bool" where
  "names_flat s \<longleftrightarrow> (\<forall>fd m. mget (files s) fd = Some m \<longrightarrow> flat_file (filename m))"

text \<open>What the invariant has beyond \<open>server_inv\<close>, which every call keeps.\<close>

definition log_ok :: "server \<Rightarrow> bool" where
  "log_ok s \<longleftrightarrow> server_ok s \<and> list_all flat_entry (server.log s) \<and> 0 \<le> lastApplied s \<and>
     lastApplied s \<le> int (length (server.log s)) \<and> names_flat s"

definition in_service :: "server \<Rightarrow> bool" where
  "in_service s \<longleftrightarrow> server_inv s \<and> log_ok s \<and> servers s \<noteq> []"

lemma in_service_steady: "in_service s \<longleftrightarrow> steady s \<and> names_flat s \<and> servers s \<noteq> []"
  by (auto simp: in_service_def log_ok_def steady_def)

lemma names_flat_put: "names_flat s \<Longrightarrow> flat_file (filename m) \<Longrightarrow> names_flat (s\<lparr>files := mput fd m (files s)\<rparr>)"
  by (simp add: names_flat_def)

text \<open>A change that leaves the log, the disk and the names of the open files as they are.\<close>

lemma log_ok_cong:
  assumes "server.log t = server.log s" "lastApplied t = lastApplied s" "rootDir t = rootDir s"
    "disk t = disk s" "names_flat t"
  shows "log_ok s \<Longrightarrow> log_ok t"
  using assms server_ok_cong [of t s] by (simp add: log_ok_def)

lemma log_ok_disk:
  assumes "log_ok s" "storage_ok (rootDir s) d" "server.log t = server.log s" "lastApplied t = lastApplied s"
    "rootDir t = rootDir s" "disk t = d" "names_flat t"
  shows "log_ok t"
  using assms by (simp add: log_ok_def server_ok_def)

text \<open>A request for a file directly in \<open>output/\<close>.\<close>

definition flat_request :: "string \<Rightarrow> bool" where
  "flat_request p \<longleftrightarrow> (\<forall>q. sanitizePath p = Some q \<longrightarrow> flat_file (normPath q))"

lemma flat_not_input: "flat_name fn \<Longrightarrow> \<not> HasPrefix fn ''input/''"
  by (elim flat_nameE) (simp add: HasPrefix_def)

section \<open>The calls\<close>

lemma log_ok_open_fd:
  assumes "log_ok s" "flat_file n"
  shows "log_ok (snd (open_fd e rid cid md n h v msg s))"
  by (rule log_ok_cong [OF _ _ _ _ _ assms(1)])
    (use assms in \<open>simp_all add: open_fd_def Let_def remember_def names_flat_def log_ok_def\<close>)

lemma log_ok_table: "log_ok (s\<lparr>table := tb\<rparr>) = log_ok s"
  using log_ok_cong [of "s\<lparr>table := tb\<rparr>" s] log_ok_cong [of s "s\<lparr>table := tb\<rparr>"]
  by (auto simp: log_ok_def names_flat_def)

lemma log_ok_map_entry [simp]: "log_ok (map_entry n f s) = log_ok s"
  using map_entry_table [of n f s] log_ok_table by metis

lemma log_ok_locked [simp]: "log_ok (locked n s) = log_ok s"
  using locked_table [of n s] log_ok_table by metis

lemma log_ok_Open:
  assumes "log_ok s" "flat_request (fr_Filename req)"
  shows "log_ok (snd (Open e req s))"
proof (cases "leader_check s")
  case None
  show ?thesis
  proof (cases "cached e s (fr_RequestId req)")
    case None
    show ?thesis
    proof (cases "sanitizePath (fr_Filename req)")
      case (Some p)
      have f: "flat_file (normPath p)" using assms(2) Some by (simp add: flat_request_def)
      then have ni: "\<not> HasPrefix (normPath p) ''input/''" using flat_not_input by (simp add: flat_file_def)
      let ?s1 = "snd (getFileEntry (normPath p) s)"
      have "\<exists>tb. ?s1 = s\<lparr>table := tb\<rparr>" by (simp add: getFileEntry_def Let_def set_entry_def) blast
      then have "log_ok ?s1" using assms(1) log_ok_table by metis
      then show ?thesis
        using Open_output [OF None Some \<open>leader_check s = None\<close> ni] log_ok_open_fd [OF _ f]
        by (simp add: open_output_def split: sum.splits)
    qed (use \<open>leader_check s = None\<close> None assms(1) in \<open>simp add: Open_def\<close>)
  next
    case (Some r)
    then show ?thesis using \<open>leader_check s = None\<close> assms(1) by (cases r) (simp_all add: Open_def)
  qed
qed (use assms in \<open>simp add: Open_def\<close>)

lemma log_ok_files:
  assumes "log_ok s" "mget (files s) fd = Some m" "filename m' = filename m"
  shows "log_ok (s\<lparr>files := mput fd m' (files s)\<rparr>)"
  using assms by (intro log_ok_cong [OF _ _ _ _ _ assms(1)]) (auto simp: names_flat_def log_ok_def)

lemma log_ok_openMap [simp]: "log_ok (s\<lparr>openMap := om\<rparr>) = log_ok s"
  by (simp add: log_ok_def server_ok_def names_flat_def)

lemma log_ok_remember [simp]: "log_ok (remember e rid r s) = log_ok s"
  by (simp add: log_ok_def server_ok_def names_flat_def remember_def)

lemma log_ok_Read:
  assumes "log_ok s"
  shows "log_ok (snd (Read e req s))"
proof -
  have "log_ok (s\<lparr>files := mput fd (m\<lparr>clients := cl\<rparr>) (files s)\<rparr>)"
    "log_ok (s\<lparr>openMap := om, files := mput fd (m\<lparr>clients := cl\<rparr>) (files s)\<rparr>)"
    if "mget (files s) fd = Some m" for om fd m cl
    using log_ok_files [OF assms that, of "m\<lparr>clients := cl\<rparr>"]
      log_ok_files [of "s\<lparr>openMap := om\<rparr>" fd m "m\<lparr>clients := cl\<rparr>"] that assms by simp_all
  then show ?thesis using assms by (simp add: Read_def Let_def split: option.split)
qed

lemma log_ok_Delete:
  assumes "log_ok s"
  shows "log_ok (snd (Delete e req s))"
proof -
  have "log_ok (s\<lparr>disk := os_Remove (disk s) p, table := tb, filesPrimes := fp\<rparr>)" for p tb fp
    by (rule log_ok_disk [OF assms])
      (use assms in \<open>simp_all add: log_ok_def names_flat_def server_ok_def storage_ok_Remove(1)\<close>)
  then show ?thesis
    using assms by (simp add: Delete_def delete_entry_def already_deleted_def Let_def
        split: option.split response.split)
qed

lemma full_path_flat:
  assumes "flat_file fn" "server_ok s"
  obtains n where "proper n" "full_path s fn = rootDir s @ ''/output/'' @ n" "Dir (full_path s fn) = rootDir s @ ''/output''"
proof -
  obtain n where n: "fn = ''output/'' @ n" "proper n" using assms(1) by (auto simp: flat_file_def elim: flat_nameE)
  have r: "proper (rootDir s)" using assms(2) by (simp add: server_ok_def storage_ok_def)
  show thesis using that [OF n(2)] Join_output [OF r n(2)] Dir_file [OF r n(2)] n(1) by (simp add: full_path_def)
qed

lemma log_ok_create_locked:
  assumes "log_ok s" "flat_file fn"
  shows "log_ok (snd (create_locked e req fn s))"
proof -
  have ok: "server_ok s" using assms(1) by (simp add: log_ok_def)
  obtain n where n: "proper n" "full_path s fn = rootDir s @ ''/output/'' @ n"
    "Dir (full_path s fn) = rootDir s @ ''/output''" by (rule full_path_flat [OF assms(2) ok])
  obtain d1 where d1: "os_MkdirAll (disk s) (rootDir s @ ''/output'') = Some d1" "storage_ok (rootDir s) d1"
    using MkdirAll_output [of "rootDir s" "disk s"] ok by (auto simp: server_ok_def)
  have upd: "log_ok (s\<lparr>disk := d\<rparr>)" if "storage_ok (rootDir s) d" for d
    by (rule log_ok_disk [OF assms(1) that]) (use assms(1) in \<open>simp_all add: log_ok_def names_flat_def\<close>)
  have new: "storage_ok (rootDir s) (new_file d1 (full_path s fn) [])"
    using storage_ok_new_file [OF d1(2) n(1)] n(2) by simp
  show ?thesis
  proof (cases "os_CreateExcl d1 (full_path s fn)")
    case (Inl er)
    then show ?thesis using d1 n(3) upd [OF d1(2)] by (cases er) (simp_all add: create_locked_def Let_def)
  next
    case (Inr b)
    have b: "fst b = new_file d1 (full_path s fn) []"
      using Inr by (auto simp: os_CreateExcl_def split: if_splits)
    then have "log_ok (s\<lparr>disk := fst b\<rparr>)" "log_ok (s\<lparr>disk := os_Remove (fst b) (full_path s fn)\<rparr>)"
      using upd new storage_ok_Remove(1) by simp_all
    then show ?thesis
      using Inr d1 n(3) by (cases b) (simp add: create_locked_def Let_def log_ok_open_fd [OF _ assms(2)])
  qed
qed

lemma log_ok_Create:
  assumes "log_ok s" "locks_free s" "flat_request (cr_Filename req)"
  shows "log_ok (snd (Create e req s))"
proof -
  have "log_ok (snd (with_write (normPath p) (create_locked e req (normPath p)) s))"
    if "sanitizePath (cr_Filename req) = Some p" for p
  proof -
    have "flat_file (normPath p)" using assms(3) that by (simp add: flat_request_def)
    then have "log_ok (snd (create_locked e req (normPath p) (locked (normPath p) s)))"
      using log_ok_create_locked assms(1) by simp
    then show ?thesis by (simp add: with_write_free [OF assms(2)] case_prod_beta)
  qed
  then show ?thesis
    using assms(1) by (simp add: Create_def Let_def split: option.split response.split)
qed

text \<open>
  Where a dirty \<open>Write\<close> and a dirty \<open>Close\<close> can end, an entry that cannot be written to the log file
  and the injected crashes included.
\<close>

lemma write_dirty_ends:
  assumes "le = raw_entry (wr_Data req) fn s"
  shows "snd (write_dirty e req fn md (locked fn s)) \<in> {locked fn s, snd (append_entry e le (locked fn s)),
    logged e le fn s, snd (write_numbers e req fn (applied e le fn s))}"
proof -
  obtain ok s1 where a: "append_entry e le (locked fn s) = (ok, s1)" by fastforce
  have s1: "s1 = snd (append_entry e le (locked fn s))" using a by simp
  have "commitIndex s1 = commitIndex s" unfolding s1 by simp
  then show ?thesis
    using a by (cases ok) (simp_all add: write_dirty_def write_entry_locked assms [symmetric] Let_def applied_def
        logged_def s1 [symmetric])
qed

lemma close_dirty_ends:
  assumes "le = commit_entry e req fn s"
  shows "snd (close_dirty e req fn fn md (locked fn s)) \<in> {locked fn s, snd (append_entry e le (locked fn s)),
    logged e le fn s, snd (close_finish e req fn (committed e req fn s))}"
proof -
  obtain ok s1 where a: "append_entry e le (locked fn s) = (ok, s1)" by fastforce
  have s1: "s1 = snd (append_entry e le (locked fn s))" using a by simp
  have "commitIndex s1 = commitIndex s" unfolding s1 by simp
  then show ?thesis
    using a by (cases ok) (simp_all add: close_dirty_def close_entry_locked merged_primes_locked assms [symmetric] Let_def
        committed_def applied_def logged_def s1 [symmetric])
qed

lemma log_ok_WriteFile:
  assumes "log_ok s" "proper n" "os_WriteFile (disk s) (rootDir s @ ''/output/'' @ n) x = Some d"
  shows "log_ok (s\<lparr>disk := d\<rparr>)"
proof -
  have "storage_ok (rootDir s) (disk s)" using assms(1) by (simp add: log_ok_def server_ok_def)
  then show ?thesis
    by (intro log_ok_disk [OF assms(1) storage_ok_WriteFile [OF _ assms(2,3)]])
      (use assms(1) in \<open>simp_all add: log_ok_def names_flat_def\<close>)
qed

lemma log_ok_saveVersion:
  assumes "log_ok s" "flat_file fn"
  shows "log_ok (saveVersion fn v s)"
proof -
  obtain n where n: "fn = ''output/'' @ n" "proper n" using assms(2) by (auto simp: flat_file_def elim: flat_nameE)
  have "proper (rootDir s)" using assms(1) by (simp add: log_ok_def server_ok_def storage_ok_def)
  then have "full_path s (fn @ ''.meta'') = rootDir s @ ''/output/'' @ n @ ''.meta''"
    using Join_output [OF _ proper_meta [OF n(2)]] n(1) by (simp add: full_path_def)
  then show ?thesis
    using log_ok_WriteFile [OF assms(1) proper_meta [OF n(2)]] assms(1)
    by (simp add: saveVersion_def try_disk_def split: option.split)
qed

lemma log_ok_write_finish:
  "log_ok s \<Longrightarrow> flat_file fn \<Longrightarrow> log_ok (snd (write_finish e req fn s))"
  by (simp add: write_finish_def Let_def log_ok_saveVersion)

lemma log_ok_primes [simp]: "log_ok (s\<lparr>filesPrimes := F\<rparr>) = log_ok s"
  by (simp add: log_ok_def server_ok_def names_flat_def)

lemma log_ok_Remove: "log_ok s \<Longrightarrow> log_ok (s\<lparr>disk := os_Remove (disk s) p\<rparr>)"
  by (rule log_ok_disk) (auto simp: log_ok_def server_ok_def storage_ok_Remove names_flat_def)

lemma log_ok_write_numbers:
  assumes "log_ok s" "flat_file fn"
  shows "log_ok (snd (write_numbers e req fn s))"
proof -
  have ok: "server_ok s" using assms(1) by (simp add: log_ok_def)
  obtain n where n: "proper n" "full_path s fn = rootDir s @ ''/output/'' @ n" by (rule full_path_flat [OF assms(2) ok])
  have d1: "log_ok (s\<lparr>disk := d1\<rparr>)" if "os_WriteFile (disk s) (full_path s fn @ ''.tmp'') x = Some d1" for d1 x
    using log_ok_WriteFile [OF assms(1) proper_tmp [OF n(1)]] that n(2) by simp
  have d2: "log_ok (s\<lparr>disk := os_Remove d2 p, filesPrimes := F\<rparr>)"
    if "os_WriteFile (disk s) (full_path s fn @ ''.tmp'') x = Some d1" "os_Append d1 (full_path s fn) x = Some d2" for d1 d2 x p F
  proof -
    have "\<exists>y. os_WriteFile d1 (full_path s fn) y = Some d2"
      using that(2) by (auto simp: os_Append_def split: option.splits)
    then obtain y where "os_WriteFile d1 (full_path s fn) y = Some d2" by blast
    then have "log_ok (s\<lparr>disk := d2\<rparr>)"
      using log_ok_WriteFile [OF d1 [OF that(1)] n(1), of y d2] n(2) by simp
    then show ?thesis using log_ok_Remove [of "s\<lparr>disk := d2\<rparr>" p] log_ok_primes by simp
  qed
  show ?thesis
    using assms(1) d1 d2 log_ok_write_finish [OF _ assms(2)]
    by (simp add: write_numbers_def Let_def case_prod_beta split: option.split)
qed

lemma log_ok_close_finish:
  assumes "log_ok s" "flat_file fn"
  shows "log_ok (snd (close_finish e req fn s))"
proof -
  have k: "log_ok (case mget (files t) fd of None \<Rightarrow> t
      | Some m \<Rightarrow> t\<lparr>files := mput fd (m\<lparr>clients := cl m\<rparr>) (files t)\<rparr>)" if "log_ok t" for t fd cl
    using that log_ok_files [OF that, of fd] by (simp split: option.split)
  show ?thesis using assms log_ok_saveVersion [OF _ assms(2)] by (simp add: close_finish_def Let_def k)
qed

text \<open>An entry for a file directly in \<open>output/\<close> that is logged, and perhaps applied.\<close>

lemma log_ok_logged:
  assumes "log_ok s" "flat_file fn" "Index le = int (length (server.log s)) + 1" "Op le = ''WRITE''" "Filename le = fn"
  shows "log_ok (snd (append_entry e le (locked fn s)))" "log_ok (logged e le fn s)" "log_ok (applied e le fn s)"
proof -
  have ok: "0 \<le> lastApplied s" "lastApplied s \<le> int (length (server.log s))" "server_ok s"
    "list_all flat_entry (server.log s)" "flat_name fn" "names_flat s"
    using assms(1,2) by (simp_all add: log_ok_def flat_file_def)
  have le: "flat_entry le" using ok(5) assms(5) by (simp add: flat_entry_def)
  have c: "log_ok u" if "server.log u = server.log s @ [le]" "rootDir u = rootDir s" "disk u = disk s"
    "lastApplied u = lastApplied s" "files u = files s" for u
    using that ok le server_ok_cong [of u s] by (simp add: log_ok_def names_flat_def)
  show "log_ok (snd (append_entry e le (locked fn s)))" "log_ok (logged e le fn s)" by (rule c; simp)+
  show "log_ok (applied e le fn s)"
    using applied_ok [OF ok(1-5) assms(3-5), of e] ok le by (simp add: log_ok_def names_flat_def)
qed

lemma log_ok_entry: "log_ok s \<Longrightarrow> log_ok (snd (getFileEntry fn s))"
  by (simp add: getFileEntry_def Let_def set_entry_def log_ok_table)

lemma log_ok_name: "log_ok s \<Longrightarrow> mget (files s) fd = Some m \<Longrightarrow> flat_file (filename m)"
  by (simp add: log_ok_def names_flat_def)

lemma log_ok_Write:
  assumes "log_ok s" "locks_free s"
  shows "log_ok (snd (Write e req s))"
proof -
  have "log_ok (snd (write_dirty e req fn md (locked fn s)))" if f: "flat_file fn" for fn md
  proof -
    have le: "Index le = int (length (server.log s)) + 1" "Op le = ''WRITE''" "Filename le = fn"
      if "le = raw_entry (wr_Data req) fn s" for le using that by (simp_all add: raw_entry_def)
    note lg = log_ok_logged [OF assms(1) f le [OF refl], of e]
    show ?thesis using write_dirty_ends [OF refl, where req = req and fn = fn and s = s and md = md and e = e]
        lg log_ok_write_numbers [OF lg(3) f] assms(1) by auto
  qed
  then show ?thesis
    using assms(1) log_ok_write_finish [OF log_ok_entry [OF assms(1)]] log_ok_name [OF assms(1)]
    by (simp add: Write_def with_write_free [OF assms(2)] case_prod_beta split: option.split response.split)
qed

lemma log_ok_Close:
  assumes "log_ok s" "locks_free s"
  shows "log_ok (snd (Close e req s))"
proof -
  have d: "log_ok (snd (close_dirty e req fn fn md (locked fn s)))" if f: "flat_file fn" for fn md
  proof -
    have le: "Index le = int (length (server.log s)) + 1" "Op le = ''WRITE''" "Filename le = fn"
      if "le = commit_entry e req fn s" for le using that by (simp_all add: commit_entry_def)
    note lg = log_ok_logged [OF assms(1) f le [OF refl], of e]
    have "log_ok (committed e req fn s)" using lg(3) by (simp add: committed_def Let_def)
    then show ?thesis using close_dirty_ends [OF refl, where req = req and fn = fn and s = s and md = md and e = e]
        lg log_ok_close_finish [OF _ f] assms(1) by auto
  qed
  have n: "safePath_unchecked (filename m) = filename m" "flat_file (filename m)"
    if "mget (files s) fd = Some m" for fd m
    using log_ok_name [OF assms(1) that] by (simp_all add: flat_file_def)
  have "log_ok (snd (let fn = filename m; safe = safePath_unchecked fn
      in if cl_Dirty req then with_write safe (close_dirty e req fn safe md) s
         else close_finish e req safe (snd (getFileEntry safe s))))" if "mget (files s) fd = Some m" for fd m md
    using n [OF that] assms(1) d [OF n(2) [OF that]] log_ok_close_finish [OF log_ok_entry [OF assms(1)] n(2) [OF that]]
    by (simp add: Let_def with_write_free [OF assms(2)] case_prod_beta)
  then show ?thesis using assms(1) by (simp add: Close_def split: option.split response.split)
qed

section \<open>The service\<close>

text \<open>
  A call of a client that names files directly in \<open>output/\<close>, whatever it answers: with any mode,
  version, descriptor and request id, at any time, with any answers of the peers, and whether or not
  the log file can be written.
\<close>

inductive served :: "server \<Rightarrow> server \<Rightarrow> bool" where
  served_Create: "flat_request (cr_Filename req) \<Longrightarrow> served s (snd (Create e req s))"
| served_Delete: "served s (snd (Delete e req s))"
| served_Open: "flat_request (fr_Filename req) \<Longrightarrow> served s (snd (Open e req s))"
| served_Close: "served s (snd (Close e req s))"
| served_Read: "served s (snd (Read e req s))"
| served_Write: "served s (snd (Write e req s))"

inductive_cases servedE: "served s s'"

lemma served_call: "served s s' \<Longrightarrow> HandlerInv.call s s'"
  by (auto elim!: servedE intro: HandlerInv.call.intros)

lemma in_service_served:
  assumes "served s s'" "in_service s"
  shows "in_service s'"
proof -
  have s: "server_inv s" "log_ok s" "locks_free s" "servers s \<noteq> []"
    using assms(2) by (simp_all add: in_service_def server_inv_iff)
  have wf: "wf_disk (disk s)" using s(2) by (simp add: log_ok_def server_ok_def storage_ok_def)
  have "server_inv s'" by (rule server_inv_call [OF served_call [OF assms(1)] s(1)])
  moreover have "servers s' = servers s"
    using same_server_call [OF served_call [OF assms(1)] same_server_refl [OF wf]]
    by (simp add: same_server_def same_id_def)
  moreover have "log_ok s'"
    using assms(1) by (elim servedE)
      (simp_all add: s log_ok_Create log_ok_Delete log_ok_Open log_ok_Read log_ok_Write log_ok_Close)
  ultimately show ?thesis using s(4) by (simp add: in_service_def)
qed

lemma in_service_reachable: "served\<^sup>*\<^sup>* s s' \<Longrightarrow> in_service s \<Longrightarrow> in_service s'"
  by (induction rule: rtranclp_induct) (auto intro: in_service_served)

text \<open>What a program has started on a storage directory without a log.\<close>

lemma storage_ok_Mkdir:
  assumes "storage_ok ''storage'' d" "d' = (case os_MkdirAll d (''storage/'' @ n) of Some d1 \<Rightarrow> d1 | None \<Rightarrow> d)"
    and "n = ''input'' \<or> n = ''output''"
  shows "storage_ok ''storage'' d'"
proof -
  have a: "ancestors (''storage/'' @ n) = [''storage'', ''storage/'' @ n]"
    using assms(3) by (elim disjE) (simp_all add: ancestors_def elements_def)
  have "is_dir d' q \<longrightarrow> is_dir d q \<or> q = ''storage'' \<or> q = ''storage/'' @ n" "is_file d' q = is_file d q" for q
    using assms(2) a by (auto simp: os_MkdirAll_def is_dir_def is_file_def)
  moreover have "''storage'' @ ''/output/'' @ k \<noteq> ''storage/'' @ n" "''storage'' @ ''/output/'' @ k \<noteq> ''storage''"
    if "proper k" for k
    using assms(3) proper_nonempty [OF that] by auto
  moreover have "wf_disk d'" using assms(1,2) wf_MkdirAll by (auto simp: storage_ok_def split: option.splits)
  ultimately show ?thesis using assms(1) unfolding storage_ok_def by blast
qed

definition made :: "string \<Rightarrow> disk \<Rightarrow> disk" where
  "made n d = (case os_MkdirAll d (''storage/'' @ n) of Some d1 \<Rightarrow> d1 | None \<Rightarrow> d)"

lemma try_Mkdir:
  assumes "rootDir u = ''storage''" "n = ''input'' \<or> n = ''output''"
  shows "try_disk (\<lambda>dk. os_MkdirAll dk (full_path u n)) u = u\<lparr>disk := made n (disk u)\<rparr>"
proof -
  have "Join ''storage'' ''input'' = ''storage/input''" "Join ''storage'' ''output'' = ''storage/output''"
    by code_simp+
  then have "full_path u n = ''storage/'' @ n" using assms by (auto simp: full_path_def)
  then show ?thesis by (simp add: try_disk_def made_def split: option.split)
qed

lemma in_service_started:
  assumes "storage_ok ''storage'' d"
  shows "in_service (server_main t i p d None sf)"
proof -
  let ?s = "server_main t i p d None sf"
  define s1 where "s1 = (NewServer i ''storage'' configured_servers d None sf)\<lparr>servers :=
    mput i \<lparr>ID = i, Address = ''localhost:'' @ p, Timestamp = t div second, Alive = True\<rparr> configured_servers\<rparr>"
  have s1: "rootDir s1 = ''storage''" "disk s1 = d" "log_file s1 = None" "server.log s1 = []" "lastApplied s1 = 0"
    "files s1 = []" "table s1 = []" "openMap s1 = []" "servers s1 \<noteq> []" "nextFD s1 = 0"
    by (simp_all add: s1_def NewServer_def configured_servers_def)
  have "recoverFromLog s1 = (True, s1)" using s1(3) by (simp add: recoverFromLog_def)
  then obtain pid r where e: "?s = s1\<lparr>primaryID := pid, role := r, disk := made ''output'' (made ''input'' d)\<rparr>"
    using s1(1,2) by (simp add: server_main_def StartServer_def Let_def try_Mkdir s1_def NewServer_def)
  have "storage_ok ''storage'' (made ''output'' (made ''input'' d))"
    by (rule storage_ok_Mkdir [OF storage_ok_Mkdir [OF assms]]) (auto simp: made_def)
  then show ?thesis
    using s1 unfolding e in_service_def log_ok_def server_ok_def names_flat_def server_inv_def
      locks_free_def fds_ok_def handles_ok_def storage_ok_def by simp
qed

lemma leader_check_served:
  assumes "served\<^sup>*\<^sup>* s s'" "in_service s"
  shows "leader_check s' = leader_check s"
  using assms
proof (induction rule: rtranclp_induct)
  case (step u v)
  have "wf_disk (disk u)"
    using in_service_reachable [OF step(1,4)] by (simp add: in_service_def log_ok_def server_ok_def storage_ok_def)
  then show ?case using leader_check_call [OF served_call [OF step(2)]] step by simp
qed simp

text \<open>A \<open>Create\<close> of a file that does not exist.\<close>

lemma Create_new:
  assumes "in_service s" "leader_check s = None" "flat_file fn" "\<not> is_file (disk s) (full_path s fn)"
    and "\<not> too_many_files s" "cached e s (cr_RequestId req) = None" "cr_Filename req = fn"
  obtains s' where "Create e req s = (Ok (OpenResponse (nextFD s) 0 ''file created''), s')"
    and "mget (files s') (nextFD s) = Some \<lparr>meta_file = Some (HFile (next_ino (disk s))), filename = fn,
        meta_version = 0, clients = [(cr_ClientId req, \<lparr>lastSeen = now e, mode = cr_Mode req\<rparr>)]\<rparr>"
    and "current_version fn s' = 0" "filesPrimes s' = filesPrimes s" "server.log s' = server.log s"
    and "rootDir s' = rootDir s" "servers s' = servers s" "server_id s' = server_id s"
    and "requests s' = mput (cr_RequestId req) \<lparr>response = OpenResponse (nextFD s) 0 ''file created'', timestamp = now e\<rparr>
           (requests s)"
    and "in_service s'" "leader_check s' = None"
proof -
  have fl: "flat_name fn" "safePath_unchecked fn = fn" using assms(3) by (simp_all add: flat_file_def)
  have ok: "server_ok s" and lf: "locks_free s" using assms(1) by (simp_all add: in_service_def log_ok_def server_inv_iff)
  obtain p where p: "sanitizePath fn = Some p" "normPath p = fn" using path_of_file [OF fl] by blast
  obtain n where n: "proper n" "full_path s fn = rootDir s @ ''/output/'' @ n"
    "Dir (full_path s fn) = rootDir s @ ''/output''" by (rule full_path_flat [OF assms(3) ok])
  have r: "storage_ok (rootDir s) (disk s)" using ok by (simp add: server_ok_def)
  obtain d1 where d1: "os_MkdirAll (disk s) (rootDir s @ ''/output'') = Some d1" "storage_ok (rootDir s) d1"
    "is_dir d1 (rootDir s @ ''/output'')" by (rule MkdirAll_output [OF r])
  have nd: "names d1 = names (disk s)" "next_ino d1 = next_ino (disk s)"
    using d1(1) by (auto simp: os_MkdirAll_def split: if_splits)
  have "\<not> is_file d1 (full_path s fn)" "\<not> is_dir d1 (full_path s fn)"
    using assms(4) nd(1) d1(2) n(1,2) by (simp_all add: is_file_def storage_ok_def)
  then have ex: "os_CreateExcl d1 (full_path s fn) = Inr (new_file d1 (full_path s fn) [], HFile (next_ino (disk s)))"
    using d1(3) n(3) nd(2) by (simp add: os_CreateExcl_def)
  let ?d2 = "new_file d1 (full_path s fn) []"
  let ?u = "map_entry fn (\<lambda>fe. fe\<lparr>fe_version := 0\<rparr>) ((locked fn s)\<lparr>disk := ?d2\<rparr>)"
  let ?o = "open_fd e (cr_RequestId req) (cr_ClientId req) (cr_Mode req) fn (HFile (next_ino (disk s))) 0 ''file created'' ?u"
  let ?s' = "map_entry fn ReleaseWrite (snd ?o)"
  have fp: "full_path (locked fn s) fn = full_path s fn" "too_many_files (locked fn s) = too_many_files s"
    by (simp_all add: full_path_def too_many_files_def)
  have fd: "nextFD (locked fn s) = nextFD s" "nextFD ?u = nextFD s"
    using locked_table [of fn s] by (auto simp: map_entry_def set_entry_def split: option.split)
  have b: "create_locked e req fn (locked fn s) = ?o"
    using d1(1) ex n(3) assms(5) by (simp add: create_locked_def fp Let_def)
  have f1: "fst ?o = Ok (OpenResponse (nextFD s) 0 ''file created'')" using fd(2) by (simp add: open_fd_def Let_def)
  have c: "Create e req s = (Ok (OpenResponse (nextFD s) 0 ''file created''), ?s')"
    using assms(2,6,7) p fl(1) b f1 by (simp add: Create_def flat_name_def with_write_free [OF lf] case_prod_beta)
  have "flat_request (cr_Filename req)" using p assms(3,7) by (simp add: flat_request_def)
  then have sv: "served s ?s'" using served_Create [of req s e] c by simp
  have tb: "current_version fn ?s' = 0"
    using table_locked [of fn s] by (auto simp: current_version_def open_fd_def Let_def remember_def table_map_entry ReleaseWrite_def)
  show thesis
    by (rule that [OF c _ tb])
      (use fd(2) in_service_served [OF sv assms(1)] leader_check_served [OF r_into_rtranclp [where r = served, OF sv] assms(1)] assms(2)
       in \<open>simp_all add: open_fd_def Let_def remember_def\<close>)
qed

text \<open>
  C9. Service never leaves the state commits start from: a program started on a storage directory
  without a log, after any calls of its clients in any order (creations and openings of files directly
  in \<open>output/\<close>, deletions, reads, writes and closes), retries, calls that fail and log entries that
  cannot be written included, still has its invariants, a log whose entries it can apply in order, a
  storage directory it can write and descriptors only for such files; and its role is the one it was
  elected to. A call that ends the process or deadlocks leaves such a state too, though in the program
  no call follows it. Heartbeats, elections and the calls of other servers are not among the calls.
\<close>

theorem service_stays_ready:
  assumes "storage_ok ''storage'' d" "served\<^sup>*\<^sup>* (server_main t i port d None sf) s"
  shows "steady s \<and> names_flat s \<and> servers s \<noteq> [] \<and> leader_check s = leader_check (server_main t i port d None sf)"
  using in_service_reachable [OF assms(2) in_service_started [OF assms(1)]]
    leader_check_served [OF assms(2) in_service_started [OF assms(1)]]
  by (simp add: in_service_steady)

definition example_create :: CreateRequest where
  "example_create = \<lparr>cr_RequestId = ''r1'', cr_Filename = ''output/a'', cr_ClientId = ''worker_0'', cr_Mode = FileMode_WRITE\<rparr>"

definition example_started :: server where
  "example_started = simple_server 0 example_disk None []"

definition example_write :: WriteRequest where
  "example_write = \<lparr>wr_RequestId = ''r2'', wr_Fd = 0, wr_Dirty = True, wr_Version = 0, wr_Data = ''7''\<rparr>"

lemma output_a: "flat_name ''output/a''" "safePath_unchecked ''output/a'' = ''output/a''"
proof -
  show "flat_name ''output/a''" by (simp add: flat_name_def HasPrefix_def)
  show "safePath_unchecked ''output/a'' = ''output/a''" by code_simp
qed

lemma flat_request_example: "flat_request (cr_Filename example_create)"
proof -
  obtain p where "sanitizePath ''output/a'' = Some p" "normPath p = ''output/a''"
    using path_of_file [OF output_a] by blast
  then show ?thesis using output_a by (simp add: flat_request_def flat_file_def example_create_def)
qed

theorem service_stays_ready_witness:
  "steady (snd (Write example_env example_write (snd (Create example_env example_create example_started))))"
proof -
  let ?s1 = "snd (Create example_env example_create example_started)"
  have "served example_started ?s1" by (rule served_Create [OF flat_request_example])
  moreover have "served ?s1 (snd (Write example_env example_write ?s1))"
    by (rule served_Write)
  ultimately have "served\<^sup>*\<^sup>* example_started (snd (Write example_env example_write ?s1))" by simp
  then show ?thesis
    using service_stays_ready [OF storage_ok_example, of 0 "''1''" "''5001''" "[]"]
    unfolding example_started_def simple_server_def by blast
qed

text \<open>
  C4. A new file is committed: after any calls of clients for files directly in \<open>output/\<close> to a program
  started on a storage directory without a log, if it is a primary below its limit of descriptors, a
  client that creates a file which does not exist in write mode (not the mode 0 that the \<open>Create\<close> of
  \<open>client_basics.go\<close> leaves in its request, with which the \<open>Close\<close> is refused) and then closes it
  with data, with nothing in between, with two request ids that are not in the cache, while a majority
  answers and neither a write fault nor a crash is injected, gets descriptor and version 0 and then
  \<open>closed\<close> at version 1; the entry is at the end of the log and applied, the file holds the set
  the server had for its name with the numbers of the data, one per line, and the server is ready for
  the next client.
\<close>

theorem create_then_close:
  assumes "storage_ok ''storage'' d" "served\<^sup>*\<^sup>* (server_main t i port d None sf) s" "leader_check s = None"
    and "flat_name fn" "safePath_unchecked fn = fn" "\<not> is_file (disk s) (full_path s fn)" "\<not> too_many_files s"
    and "cached e s r1 = None" "cached e' s r2 = None" "r1 \<noteq> r2"
    and "healthy e'" "close_majority e' s" "getClientIDFromContext e' = cid"
    and "Create e \<lparr>cr_RequestId = r1, cr_Filename = fn, cr_ClientId = cid, cr_Mode = FileMode_WRITE\<rparr> s = (a1, s1)"
    and "Close e' \<lparr>cl_RequestId = r2, cl_Fd = nextFD s, cl_Dirty = True, cl_Version = 0, cl_Data = data\<rparr> s1 = (a2, s2)"
  shows "a1 = Ok (OpenResponse (nextFD s) 0 ''file created'') \<and> a2 = Ok (CloseResponse ''closed'' 1) \<and>
      os_ReadFile (disk s2) (full_path s2 fn) = Some (format_lines (range_order e' (merged_primes data fn s))) \<and>
      length (server.log s2) = length (server.log s) + 1 \<and> lastApplied s2 = int (length (server.log s2)) \<and> steady s2"
proof -
  have sv: "in_service s" using in_service_reachable [OF assms(2) in_service_started [OF assms(1)]] .
  let ?cr = "\<lparr>cr_RequestId = r1, cr_Filename = fn, cr_ClientId = cid, cr_Mode = FileMode_WRITE\<rparr>"
  let ?cl = "\<lparr>cl_RequestId = r2, cl_Fd = nextFD s, cl_Dirty = True, cl_Version = 0, cl_Data = data\<rparr>"
  have fl: "flat_file fn" using assms(4,5) by (simp add: flat_file_def)
  have q: "cached e s (cr_RequestId ?cr) = None" "cr_Filename ?cr = fn" using assms(8) by simp_all
  obtain t where c: "Create e ?cr s = (Ok (OpenResponse (nextFD s) 0 ''file created''), t)"
    "mget (files t) (nextFD s) = Some \<lparr>meta_file = Some (HFile (next_ino (disk s))), filename = fn,
        meta_version = 0, clients = [(cr_ClientId ?cr, \<lparr>lastSeen = now e, mode = cr_Mode ?cr\<rparr>)]\<rparr>"
    "current_version fn t = 0" "filesPrimes t = filesPrimes s" "server.log t = server.log s"
    "servers t = servers s" "server_id t = server_id s"
    "requests t = mput (cr_RequestId ?cr) \<lparr>response = OpenResponse (nextFD s) 0 ''file created'', timestamp = now e\<rparr>
           (requests s)" "in_service t" "leader_check t = None"
    using Create_new [OF sv assms(3) fl assms(6,7) q] by metis
  have s1: "a1 = Ok (OpenResponse (nextFD s) 0 ''file created'')" "s1 = t" using c(1) assms(14) by simp_all
  have st: "steady t" using c(9) by (simp add: in_service_steady)
  have ca: "cached e' t r2 = None" using assms(9,10) c(8) by (simp add: cached_def)
  have "servers t \<noteq> []" using c(9) by (simp add: in_service_def)
  then have can: "can_commit e' ?cl t fn"
    using c ca assms(4,5,13) by (simp add: can_commit_def)
  have maj: "close_majority e' t" using assms(12) c(6,7) peers_cong [of t s e'] by (simp add: close_majority_def)
  have s2: "s2 = snd (Close e' ?cl t)" using assms(15) s1(2) by simp
  note cm = Close_committed [OF st can assms(11) maj refl s2]
  have "a1 = Ok (OpenResponse (nextFD s) 0 ''file created'') \<and> a2 = Ok (CloseResponse ''closed'' 1)"
    using s1 cm(1) assms(15) c(3) by simp
  moreover have "os_ReadFile (disk s2) (full_path s2 fn) = Some (format_lines (range_order e' (merged_primes data fn s)))"
    using committed_content [OF st can assms(11) maj s2] c(4) by (simp add: merged_primes_def)
  moreover have "length (server.log s2) = length (server.log s) + 1 \<and> lastApplied s2 = int (length (server.log s2))"
    using cm(2,3) c(5) by simp
  moreover have "steady s2" using steady_Close [OF st can assms(11)] s2 by simp
  ultimately show ?thesis by blast
qed

theorem create_then_close_witness:
  "\<exists>s2. Close example_env \<lparr>cl_RequestId = ''r2'', cl_Fd = 0, cl_Dirty = True, cl_Version = 0, cl_Data = ''7''\<rparr>
     (snd (Create example_env example_create example_started)) = (Ok (CloseResponse ''closed'' 1), s2) \<and> steady s2"
proof -
  have r: "served\<^sup>*\<^sup>* (server_main 0 ''1'' ''5001'' example_disk None []) example_started"
    by (simp add: example_started_def simple_server_def)
  have c: "leader_check example_started = None" "\<not> is_file (disk example_started) (full_path example_started ''output/a'')"
    "\<not> too_many_files example_started" "requests example_started = []" "nextFD example_started = 0"
    "close_majority example_env example_started" "getClientIDFromContext example_env = ''worker_0''"
    by code_simp+
  have k: "cached e example_started k = None" for e k by (simp add: cached_def c(4))
  obtain a2 s2 where s2: "Close example_env \<lparr>cl_RequestId = ''r2'', cl_Fd = 0, cl_Dirty = True, cl_Version = 0,
      cl_Data = ''7''\<rparr> (snd (Create example_env example_create example_started)) = (a2, s2)" by fastforce
  show ?thesis
    using create_then_close [OF storage_ok_example r c(1) output_a c(2,3) k k _ healthy_example c(6) c(7)
        surjective_pairing, of "''r1''" "''r2''"] s2 c(5)
    by (auto simp: example_create_def)
qed

end
