(* ===== verification/ByteStore.thy ===== *)
theory ByteStore
  imports Checkpoint
begin

text \<open>
  A file service that keeps the bytes it is given, in memory: what the checkpoint layer expects of the
  service, and the servers are not. The examples of the coordinator and of the restart run on it.
\<close>

record byte_store =
  blobs :: "(string, i32 \<times> bytes) gomap"
  opened :: "string list"

definition byte_fd :: "byte_store \<Rightarrow> i32" where
  "byte_fd s = of_nat (length (opened s)) + 1"

definition byte_create :: "CreateRequest \<Rightarrow> byte_store \<Rightarrow> (rpc_error + response) \<times> byte_store" where
  "byte_create req s = (case mget (blobs s) (cr_Filename req) of
       Some b \<Rightarrow> (Inl (RpcError AlreadyExists ''file exists''), s)
     | None \<Rightarrow> (Inr (OpenResponse (byte_fd s) 0 ''file created''),
         s\<lparr>blobs := mput (cr_Filename req) (0, []) (blobs s), opened := opened s @ [cr_Filename req]\<rparr>))"

definition byte_open :: "FileRequest \<Rightarrow> byte_store \<Rightarrow> (rpc_error + response) \<times> byte_store" where
  "byte_open req s = (case mget (blobs s) (fr_Filename req) of
       None \<Rightarrow> (Inl (RpcError NotFound ''output file not found''), s)
     | Some (v, x) \<Rightarrow> (Inr (OpenResponse (byte_fd s) v ''opened output file''),
         s\<lparr>opened := opened s @ [fr_Filename req]\<rparr>))"

definition byte_close :: "CloseRequest \<Rightarrow> byte_store \<Rightarrow> (rpc_error + response) \<times> byte_store" where
  "byte_close req s = (let name = opened s ! (unat (cl_Fd req) - 1)
     in case mget (blobs s) name of
         None \<Rightarrow> (Inl (RpcError NotFound ''file not open''), s)
       | Some (v, x) \<Rightarrow>
           if cl_Dirty req
           then (Inr (CloseResponse ''closed'' (v + 1)), s\<lparr>blobs := mput name (v + 1, cl_Data req) (blobs s)\<rparr>)
           else (Inr (CloseResponse ''closed'' v), s))"

definition byte_service :: "byte_store FileServiceClient" where
  "byte_service = \<lparr>rpc_Create = (\<lambda>a. byte_create), rpc_Open = (\<lambda>a. byte_open), rpc_Close = (\<lambda>a cid. byte_close),
     rpc_Write = (\<lambda>a cid req s. (Inl (RpcError Unknown ''not offered''), s)),
     rpc_Delete = (\<lambda>a req s. (Inl (RpcError Unknown ''not offered''), s)),
     rpc_Read = (\<lambda>a cid req s. (case mget (blobs s) (rd_Filename req) of
        None \<Rightarrow> (Inl (RpcError NotFound ''file not open''), s) | Some (v, x) \<Rightarrow> (Inr (chunks ChunkSize x, None), s))),
     rpc_TestAuth = (\<lambda>a name s. (case mget (blobs s) name of
        None \<Rightarrow> (Inl (RpcError NotFound ''file not found''), s) | Some (v, x) \<Rightarrow> (Inr v, s))),
     rpc_GetLeader = (\<lambda>a s. (Inr a, s)), dial_error = (\<lambda>a. None)\<rparr>"

definition byte_client :: "byte_store \<Rightarrow> byte_store client" where
  "byte_client s = NewClient 0 ''localhost:5001'' empty_disk s"

definition byte_env :: client_env where
  "byte_env = \<lparr>clock = (\<lambda>n. 0), fail_before_commit = False, fail_after_chunks = []\<rparr>"

end
