(* ===== verification/CoordinatorProps.thy ===== *)
theory CoordinatorProps
  imports Coordinator ClientProps ByteStore "HOL-Library.Code_Target_Nat"
begin

text \<open>
  What holds of the coordinator, whatever the service answers: the detection of dead workers and what
  a restarted worker is told, the status page and the stragglers, and the list of addresses.
\<close>

section \<open>Dead workers\<close>

lemma mget_mark_dead: "mget (mark_dead t ws) w = (case mget ws w of None \<Rightarrow> None
    | Some st \<Rightarrow> Some (if timed_out t st then st\<lparr>ws_Alive := False, DeadSince := Some t\<rparr> else st))"
  by (induction ws) (auto simp: mark_dead_def)

lemma workers_set_resume: "mget (workers (set_resume w k c)) w' =
    (if w' = w then map_option (\<lambda>st. st\<lparr>ResumeStep := k\<rparr>) (mget (workers c) w) else mget (workers c) w')"
  by (auto simp: set_resume_def split: option.split)

text \<open>What the loop over the dead workers does to a worker's entry.\<close>

definition resume_from :: "CheckpointMeta result \<Rightarrow> WorkerStatus \<Rightarrow> int" where
  "resume_from r st = (case r of Value m \<Rightarrow> Step m | _ \<Rightarrow> ResumeStep st)"

text \<open>The loads of the metadata of some workers, one after the other on one connection.\<close>

fun load_each :: "(bytes \<Rightarrow> CheckpointMeta option) \<Rightarrow> 'w FileServiceClient \<Rightarrow> client_env \<Rightarrow> string list \<Rightarrow>
    'w client \<Rightarrow> (string \<times> CheckpointMeta result) list \<times> 'w client" where
  "load_each unm svc ev [] h = ([], h)"
| "load_each unm svc ev (w # ws) h = (case LoadCheckpointMeta unm svc ev w (- 1) h of
       (r, h1) \<Rightarrow> (case load_each unm svc ev ws h1 of (rs, h2) \<Rightarrow> ((w, r) # rs, h2)))"

lemma load_each_keys: "map fst (fst (load_each unm svc ev ws h)) = ws"
  by (induction ws arbitrary: h) (simp_all add: case_prod_beta)

lemma recover_dead_entry:
  assumes "distinct ws" "recover_dead unm svc ev ws c = (Value u, c')"
  shows "serverHandle c' = snd (load_each unm svc ev ws (serverHandle c)) \<and>
    (w \<notin> set ws \<longrightarrow> mget (workers c') w = mget (workers c) w) \<and>
    (w \<in> set ws \<longrightarrow> (\<exists>r. mget (fst (load_each unm svc ev ws (serverHandle c))) w = Some r \<and>
       mget (workers c') w = map_option (\<lambda>st. st\<lparr>ResumeStep := resume_from r st\<rparr>) (mget (workers c) w)))"
  using assms
proof (induction ws arbitrary: c)
  case (Cons v ws)
  obtain r h where l: "LoadCheckpointMeta unm svc ev v (- 1) (serverHandle c) = (r, h)" by fastforce
  let ?c = "case r of Value m \<Rightarrow> set_resume v (Step m) (c\<lparr>serverHandle := h\<rparr>) | _ \<Rightarrow> c\<lparr>serverHandle := h\<rparr>"
  have rec: "recover_dead unm svc ev ws ?c = (Value u, c')" using Cons.prems(2) l by (cases r) simp_all
  have h: "serverHandle ?c = h" by (cases r) (simp_all add: set_resume_def split: option.split)
  note IH = Cons.IH [OF _ rec, unfolded h]
  have same: "w \<noteq> v \<Longrightarrow> mget (workers ?c) w = mget (workers c) w" by (cases r) (simp_all add: workers_set_resume)
  have own: "mget (workers ?c) v = map_option (\<lambda>st. st\<lparr>ResumeStep := resume_from r st\<rparr>) (mget (workers c) v)"
    by (cases r; cases "mget (workers c) v") (simp_all add: workers_set_resume resume_from_def)
  have e: "load_each unm svc ev (v # ws) (serverHandle c) =
      ((v, r) # fst (load_each unm svc ev ws h), snd (load_each unm svc ev ws h))" by (simp add: l case_prod_beta)
  show ?case
  proof (cases "w = v")
    case True
    then have "mget (workers c') v = mget (workers ?c) v" using IH Cons.prems(1) by simp
    then show ?thesis using True own IH Cons.prems(1) unfolding e by simp
  qed (use IH Cons.prems(1) same in \<open>unfold e, auto\<close>)
qed simp

lemma dead_list: "mwf ws \<Longrightarrow> distinct (map fst (filter (\<lambda>(w, st). timed_out t st) ws)) \<and>
    (w \<in> set (map fst (filter (\<lambda>(w, st). timed_out t st) ws)) \<longleftrightarrow>
      (\<exists>st. mget ws w = Some st \<and> timed_out t st))"
  by (auto simp: mwf_def distinct_map_filter map_of_eq_Some_iff image_iff)

text \<open>
  C21. The coordinator declares exactly the silent workers dead, and a replacement resumes at the last
  checkpoint: \<open>checkDeadWorkers\<close> leaves every worker whose heartbeat is not more than fifteen seconds
  old as it is, and marks every other live one dead at that time. For these, in the order of the
  table, it loads the latest metadata over its own connection, one load after the other, and the
  resume step of each becomes the step of the metadata that its load returns, or stays as it was when
  that load fails (no load ends the process). When the worker registers again it is told this step and is alive again.
\<close>

theorem dead_worker_resumes:
  assumes "mwf (workers c)" "checkDeadWorkers unm svc ev t c = (Value u, c')" "mget (workers c) w = Some st"
    and "(rs, h) = load_each unm svc ev (map fst (filter (\<lambda>(w, st). timed_out t st) (workers c))) (serverHandle c)"
  shows "serverHandle c' = h \<and> (\<not> timed_out t st \<longrightarrow> mget (workers c') w = Some st) \<and>
    (timed_out t st \<longrightarrow> (\<exists>r. mget rs w = Some r \<and>
       (let k = (case r of Value m \<Rightarrow> Step m | _ \<Rightarrow> ResumeStep st)
        in mget (workers c') w = Some (st\<lparr>ws_Alive := False, DeadSince := Some t, ResumeStep := k\<rparr>) \<and>
           fst (RegisterWorker t' w c') = k \<and>
           mget (workers (snd (RegisterWorker t' w c'))) w =
             Some (st\<lparr>ws_Alive := True, LastHeartbeat := t', DeadSince := None, ResumeStep := k\<rparr>))))"
proof -
  let ?ws = "map fst (filter (\<lambda>(w, st). timed_out t st) (workers c))"
  let ?c = "c\<lparr>workers := mark_dead t (workers c)\<rparr>"
  have d: "distinct ?ws" "w \<in> set ?ws \<longleftrightarrow> timed_out t st" using dead_list [OF assms(1)] assms(3) by auto
  have "recover_dead unm svc ev ?ws ?c = (Value u, c')" using assms(2) by (simp add: checkDeadWorkers_def)
  note r = recover_dead_entry [OF d(1) this, of w]
  have rs: "fst (load_each unm svc ev ?ws (serverHandle ?c)) = rs" "snd (load_each unm svc ev ?ws (serverHandle ?c)) = h"
    using assms(4) [symmetric] by simp_all
  show ?thesis
  proof (cases "timed_out t st")
    case True
    have m: "mget (workers ?c) w = Some (st\<lparr>ws_Alive := False, DeadSince := Some t\<rparr>)"
      using True assms(3) by (simp add: mget_mark_dead)
    from r True d(2) obtain x where l: "mget rs w = Some x"
      "mget (workers c') w = map_option (\<lambda>st. st\<lparr>ResumeStep := resume_from x st\<rparr>) (mget (workers ?c) w)"
      unfolding rs by blast
    have k: "resume_from x (st\<lparr>ws_Alive := False, DeadSince := Some t\<rparr>) = (case x of Value m \<Rightarrow> Step m | _ \<Rightarrow> ResumeStep st)"
      by (simp add: resume_from_def split: result.split)
    have e: "mget (workers c') w = Some (st\<lparr>ws_Alive := False, DeadSince := Some t,
        ResumeStep := (case x of Value m \<Rightarrow> Step m | _ \<Rightarrow> ResumeStep st)\<rparr>)"
      using l(2) m k by simp
    then have "RegisterWorker t' w c' = ((case x of Value m \<Rightarrow> Step m | _ \<Rightarrow> ResumeStep st), c'\<lparr>workers := mput w
        (st\<lparr>ws_Alive := True, LastHeartbeat := t', DeadSince := None,
          ResumeStep := (case x of Value m \<Rightarrow> Step m | _ \<Rightarrow> ResumeStep st)\<rparr>) (workers c')\<rparr>)"
      by (cases st) (simp add: RegisterWorker_def)
    then show ?thesis using True l(1) e r unfolding rs by (auto simp: Let_def)
  qed (use r rs(2) d(2) assms(3) in \<open>simp add: mget_mark_dead\<close>)
qed

text \<open>A coordinator with one worker, for the examples.\<close>

definition example_coordinator :: "nat coordinator" where
  "example_coordinator = \<lparr>workers = [(''w'', fresh_worker 0 ''w'' 250)], serverHandle = example_client, snapCount = 0\<rparr>"

text \<open>Storage with a checkpoint of the worker at step 100, and a decoder of its metadata.\<close>

definition stored_checkpoint :: byte_store where
  "stored_checkpoint = \<lparr>blobs = [(LatestMetaPath ''w'', (1, ''100'')), (MetaPath ''w'' 100, (1, ''{100}''))], opened = []\<rparr>"

definition stored_decoder :: "bytes \<Rightarrow> CheckpointMeta option" where
  "stored_decoder x = (if x = ''{100}'' then Some \<lparr>WorkerID = ''w'', Step = 100, SavedAt = 0, TensorMap = [],
     ShapeMap = [], DTypeMap = [], NewTensors = 0, TotalTensors = 0\<rparr> else None)"

definition byte_coordinator :: "byte_store coordinator" where
  "byte_coordinator = \<lparr>workers = [(''w'', fresh_worker 0 ''w'' 250), (''v'', fresh_worker 0 ''v'' 300)],
     serverHandle = byte_client stored_checkpoint, snapCount = 0\<rparr>"

definition example_check :: "unit result \<times> byte_store coordinator" where
  "example_check = checkDeadWorkers stored_decoder byte_service byte_env (16 * second) byte_coordinator"

definition example_loads :: "(string \<times> CheckpointMeta result) list" where
  "example_loads = fst (load_each stored_decoder byte_service byte_env [''w'', ''v''] (byte_client stored_checkpoint))"

lemma example_check_Value: "case fst example_check of Value u \<Rightarrow> True | _ \<Rightarrow> False"
  by code_simp

lemma example_loads_eq: "map (\<lambda>(w, r). (w, case r of Value m \<Rightarrow> Some (Step m) | _ \<Rightarrow> None)) example_loads =
    [(''w'', Some 100), (''v'', None)]"
  by code_simp

theorem dead_worker_resumes_witness:
  "fst (RegisterWorker 0 ''w'' (snd example_check)) = 100 \<and> fst (RegisterWorker 0 ''v'' (snd example_check)) = 0"
proof -
  have r: "checkDeadWorkers stored_decoder byte_service byte_env (16 * second) byte_coordinator = (Value (), snd example_check)"
    unfolding example_check_def [symmetric] using example_check_Value by (cases "fst example_check") (auto simp: prod_eq_iff)
  have wf: "mwf (workers byte_coordinator)" and
    w: "mget (workers byte_coordinator) ''w'' = Some (fresh_worker 0 ''w'' 250)"
      "mget (workers byte_coordinator) ''v'' = Some (fresh_worker 0 ''v'' 300)"
    by (simp_all add: byte_coordinator_def)
  have t: "timed_out (16 * second) (fresh_worker 0 n k)" "ResumeStep (fresh_worker 0 n k) = 0" for n k
    by (simp_all add: timed_out_def fresh_worker_def HeartbeatTimeout_def second_def)
  have d: "(example_loads, snd (load_each stored_decoder byte_service byte_env [''w'', ''v''] (byte_client stored_checkpoint))) =
      load_each stored_decoder byte_service byte_env
        (map fst (filter (\<lambda>(w, st). timed_out (16 * second) st) (workers byte_coordinator))) (serverHandle byte_coordinator)"
    by (simp add: byte_coordinator_def t(1) example_loads_def)
  obtain a b where ab: "example_loads = [(''w'', a), (''v'', b)]" "(case a of Value m \<Rightarrow> Some (Step m) | _ \<Rightarrow> None) = Some 100"
    "(case b of Value m \<Rightarrow> Some (Step m) | _ \<Rightarrow> None) = None"
    using example_loads_eq by (auto simp: map_eq_Cons_conv)
  have k: "(case a of Value m \<Rightarrow> Step m | _ \<Rightarrow> j) = 100" "(case b of Value m \<Rightarrow> Step m | _ \<Rightarrow> j) = j" for j
    using ab(2,3) by (auto split: result.splits)
  show ?thesis
    using dead_worker_resumes [OF wf r w(1) d, of 0] dead_worker_resumes [OF wf r w(2) d, of 0] t
    by (auto simp: Let_def ab(1) k)
qed

text \<open>
  A quick restart loses its place: a worker that registers again before its heartbeat is fifteen
  seconds old has not been found dead, so it is told to begin at step 0 and its entry starts anew,
  whatever step it had reached or was to resume at.
\<close>

theorem quick_restart_starts_over:
  assumes "mwf (workers c)" "checkDeadWorkers unm svc ev t c = (Value u, c')"
    and "mget (workers c) w = Some st" "ws_Alive st" "t - LastHeartbeat st \<le> HeartbeatTimeout"
  shows "RegisterWorker t w c' = (0, c'\<lparr>workers := mput w (fresh_worker t w 0) (workers c')\<rparr>)"
proof -
  let ?ws = "map fst (filter (\<lambda>(w, st). timed_out t st) (workers c))"
  let ?c = "c\<lparr>workers := mark_dead t (workers c)\<rparr>"
  have d: "distinct ?ws" "w \<notin> set ?ws" using dead_list [OF assms(1)] assms(3,5) by (auto simp: timed_out_def)
  have "recover_dead unm svc ev ?ws ?c = (Value u, c')" using assms(2) by (simp add: checkDeadWorkers_def)
  from recover_dead_entry [OF d(1) this, of w] have "mget (workers c') w = Some st"
    using d(2) assms(3,5) by (simp add: mget_mark_dead timed_out_def)
  then show ?thesis using assms(4) by (simp add: RegisterWorker_def)
qed

theorem quick_restart_starts_over_witness:
  "fst (RegisterWorker (15 * second) ''w'' (snd (checkDeadWorkers (\<lambda>x. None)
     (constant_service (Inl (RpcError NotFound ''x'')) 1) example_client_env (15 * second) example_coordinator))) = 0"
proof -
  have "fst (checkDeadWorkers (\<lambda>x. None) (constant_service (Inl (RpcError NotFound ''x'')) 1) example_client_env
      (15 * second) example_coordinator) = Value ()"
    by (simp add: checkDeadWorkers_def example_coordinator_def timed_out_def fresh_worker_def HeartbeatTimeout_def)
  then obtain c' where r: "checkDeadWorkers (\<lambda>x. None) (constant_service (Inl (RpcError NotFound ''x'')) 1)
      example_client_env (15 * second) example_coordinator = (Value (), c')" by (metis prod.collapse)
  have "mwf (workers example_coordinator)" "mget (workers example_coordinator) ''w'' = Some (fresh_worker 0 ''w'' 250)"
    by (simp_all add: example_coordinator_def)
  from quick_restart_starts_over [OF this(1) r this(2)] r show ?thesis
    by (simp add: fresh_worker_def HeartbeatTimeout_def)
qed

section \<open>The status page\<close>

definition alive_steps :: "(string, WorkerStatus) gomap \<Rightarrow> int set" where
  "alive_steps ws = {CurrentStep st |w st. (w, st) \<in> set ws \<and> ws_Alive st}"

lemma alive_steps_simps: "alive_steps [] = {}"
  "alive_steps ((w, st) # ws) = (if ws_Alive st then insert (CurrentStep st) (alive_steps ws) else alive_steps ws)"
  by (auto simp: alive_steps_def)

lemma finite_alive_steps [simp]: "finite (alive_steps ws)"
  by (induction ws) (auto simp: alive_steps_simps)

lemma Max_more:
  fixes S :: "int set"
  assumes "finite S"
  shows "Max (insert (if b > a then b else a) S) = Max (insert a (insert b S))"
proof -
  have "(if b > a then b else a) = max a b" by simp
  then show ?thesis using assms by (cases "S = {}") (simp_all only: Max_insert Max_singleton finite_insert
      insert_not_empty not_False_eq_True max.assoc finite.emptyI)
qed

lemma Min_less:
  fixes S :: "int set"
  assumes "finite S"
  shows "Min (insert (if b < a then b else a) S) = Min (insert a (insert b S))"
proof -
  have "(if b < a then b else a) = min a b" by simp
  then show ?thesis using assms by (cases "S = {}") (simp_all only: Min_insert Min_singleton finite_insert
      insert_not_empty not_False_eq_True min.assoc finite.emptyI)
qed

lemma max_step_eq: "max_step ws = Max (insert 0 (alive_steps ws))"
proof -
  have "fold (\<lambda>(w, st) m. if ws_Alive st \<and> CurrentStep st > m then CurrentStep st else m) ws m =
      Max (insert m (alive_steps ws))" for m
  proof (induction ws arbitrary: m)
    case (Cons p ws)
    obtain w st where p: "p = (w, st)" by fastforce
    have "(if ws_Alive st \<and> CurrentStep st > m then CurrentStep st else m) =
        (if ws_Alive st then if CurrentStep st > m then CurrentStep st else m else m)" by simp
    then show ?case using Cons.IH p by (simp add: alive_steps_simps Max_more)
  qed (simp add: alive_steps_simps)
  then show ?thesis by (simp add: max_step_def)
qed

lemma status_fold:
  "fold (\<lambda>(w, st). status_add st) ws r = r\<lparr>sr_Workers := sr_Workers r @ map snd ws,
     MaxStep := Max (insert (MaxStep r) (alive_steps ws)), MinAliveStep := Min (insert (MinAliveStep r) (alive_steps ws)),
     DeadWorkers := DeadWorkers r @ map ws_WorkerID (filter (\<lambda>st. \<not> ws_Alive st) (map snd ws))\<rparr>"
proof (induction ws arbitrary: r)
  case (Cons p ws)
  obtain w st where p: "p = (w, st)" by fastforce
  have m: "Max (insert (if CurrentStep st > a then CurrentStep st else a) (alive_steps ws)) =
      Max (insert a (insert (CurrentStep st) (alive_steps ws)))"
    "Min (insert (if CurrentStep st < a then CurrentStep st else a) (alive_steps ws)) =
      Min (insert a (insert (CurrentStep st) (alive_steps ws)))" for a
    by (simp_all add: Max_more Min_less)
  show ?case
  proof (cases "ws_Alive st")
    case True
    have "status_add st r = r\<lparr>sr_Workers := sr_Workers r @ [st],
        MaxStep := (if CurrentStep st > MaxStep r then CurrentStep st else MaxStep r),
        MinAliveStep := (if CurrentStep st < MinAliveStep r then CurrentStep st else MinAliveStep r)\<rparr>"
      using True by (simp add: status_add_def Let_def)
    then show ?thesis using True by (simp add: p Cons.IH m alive_steps_simps)
  next
    case False
    have "status_add st r = r\<lparr>sr_Workers := sr_Workers r @ [st], DeadWorkers := DeadWorkers r @ [ws_WorkerID st]\<rparr>"
      using False by (simp add: status_add_def Let_def)
    then show ?thesis using False by (simp add: p Cons.IH alive_steps_simps)
  qed
qed (simp add: alive_steps_simps)

text \<open>
  The status page reports the workers as they are: every worker once, the greatest step of a live
  worker, the least one (0 when there is none below 2^31 - 1), and the dead ones; and the stragglers
  that are logged are the live workers more than 200 steps behind that greatest step.
\<close>

theorem status_page:
  "let r = ServeHTTP t c; S = alive_steps (workers c) in
     sr_Workers r = map snd (workers c) \<and> MaxStep r = Max (insert 0 S) \<and>
     MinAliveStep r = (if \<exists>k \<in> S. k < 2 ^ 31 - 1 then Min S else 0) \<and>
     DeadWorkers r = map ws_WorkerID (filter (\<lambda>st. \<not> ws_Alive st) (map snd (workers c))) \<and>
     set (checkStragglers c) = {(w, MaxStep r - CurrentStep st) |w st.
       (w, st) \<in> set (workers c) \<and> ws_Alive st \<and> MaxStep r - CurrentStep st > 200}"
proof -
  let ?S = "alive_steps (workers c)" and ?r = "ServeHTTP t c"
  have f: "sr_Workers ?r = map snd (workers c)" "MaxStep ?r = Max (insert 0 ?S)"
    "DeadWorkers ?r = map ws_WorkerID (filter (\<lambda>st. \<not> ws_Alive st) (map snd (workers c)))"
    "MinAliveStep ?r = (let k = Min (insert (2 ^ 31 - 1) ?S) in if k = 2 ^ 31 - 1 then 0 else k)"
    by (simp_all add: ServeHTTP_def status_fold Let_def)
  have "MinAliveStep ?r = (if \<exists>k \<in> ?S. k < 2 ^ 31 - 1 then Min ?S else 0)"
  proof (cases "?S = {}")
    case False
    then have m: "(\<exists>k \<in> ?S. k < 2 ^ 31 - 1) \<longleftrightarrow> Min ?S < 2 ^ 31 - 1" by (simp add: Min_less_iff)
    have "Min (insert (2 ^ 31 - 1) ?S) = min (2 ^ 31 - 1) (Min ?S)" by (rule Min_insert [OF finite_alive_steps False])
    then show ?thesis unfolding m f(4) by (auto simp: Let_def min_def)
  qed (use f(4) in \<open>simp add: Let_def\<close>)
  moreover have "set (checkStragglers c) = {(w, MaxStep ?r - CurrentStep st) |w st.
      (w, st) \<in> set (workers c) \<and> ws_Alive st \<and> MaxStep ?r - CurrentStep st > 200}"
    unfolding f(2) max_step_eq [symmetric] by (auto simp: checkStragglers_def StragglerThreshold_def Let_def)
  ultimately show ?thesis using f by (simp only: Let_def)
qed

section \<open>Addresses\<close>

lemma split_addresses_field:
  "CHR '','' \<notin> set x \<Longrightarrow> split_addresses (x @ CHR '','' # s) res cur =
     split_addresses s (if cur @ x \<noteq> [] then res @ [cur @ x] else res) []"
  by (induction x arbitrary: cur) auto

lemma split_addresses_end:
  "CHR '','' \<notin> set x \<Longrightarrow> split_addresses x res cur = (if cur @ x \<noteq> [] then res @ [cur @ x] else res)"
  by (induction x arbitrary: cur) auto

definition join_commas :: "string list \<Rightarrow> string" where
  "join_commas xs = concat (map (\<lambda>x. x @ '','') xs)"

text \<open>
  \<open>splitAddresses\<close> inverts the joining of addresses with commas: it gives back the fields in their
  order, without the empty ones, with or without a comma at the end.
\<close>

theorem splitAddresses_join:
  assumes "\<forall>x \<in> set (xs @ [y]). CHR '','' \<notin> set x"
  shows "splitAddresses (join_commas xs @ y) = filter (\<lambda>x. x \<noteq> []) (xs @ [y])"
proof -
  have "split_addresses (join_commas xs @ y) res [] = res @ filter (\<lambda>x. x \<noteq> []) (xs @ [y])" for res
    using assms
  proof (induction xs arbitrary: res)
    case (Cons x xs)
    have "split_addresses (join_commas (x # xs) @ y) res [] =
        split_addresses (join_commas xs @ y) (if x \<noteq> [] then res @ [x] else res) []"
      using Cons.prems split_addresses_field [of x "join_commas xs @ y" res "[]"] by (simp add: join_commas_def)
    then show ?case using Cons.IH Cons.prems by simp
  qed (simp add: join_commas_def split_addresses_end)
  then show ?thesis by (simp add: splitAddresses_def)
qed

theorem splitAddresses_join_witness:
  "splitAddresses ''localhost:5001,,localhost:5002'' = [''localhost:5001'', ''localhost:5002'']"
  using splitAddresses_join [of "[''localhost:5001'', []]" "''localhost:5002''"] by (simp add: join_commas_def)

end
