(* ===== verification/CheckpointProps.thy ===== *)
theory CheckpointProps
  imports Checkpoint ClientProps
begin

text \<open>
  What holds of the checkpoint layer whatever the service answers: the content hash, the names of the
  files, and the accounts of \<open>SaveTensors\<close>.
\<close>

section \<open>The content hash\<close>

lemma hex_digit_inject: "m < 16 \<Longrightarrow> n < 16 \<Longrightarrow> hex_digit m = hex_digit n \<longleftrightarrow> m = n"
proof -
  assume mn: "m < 16" "n < 16"
  define f where "f k = (if k < 10 then 48 + k else 87 + (k :: nat))" for k
  have "hex_digit k = char_of (f k)" for k by (simp add: hex_digit_def f_def)
  moreover have "f m < 256" "f n < 256" using mn by (simp_all add: f_def)
  ultimately have "hex_digit m = hex_digit n \<longleftrightarrow> f m = f n"
    by (metis of_char_of mod_less)
  then show ?thesis using mn by (auto simp: f_def split: if_splits)
qed

lemma hex_pair_inject:
  "hex_digit (of_char c div 16) = hex_digit (of_char d div 16) \<Longrightarrow>
   hex_digit (of_char c mod 16) = hex_digit (of_char d mod 16) \<Longrightarrow> c = d"
proof -
  have l: "of_char c div 16 < (16 :: nat)" for c :: char
  proof -
    have "of_char c mod 256 < (256 :: nat)" by (rule mod_less_divisor) simp
    then show ?thesis by (simp add: less_mult_imp_div_less)
  qed
  assume "hex_digit (of_char c div 16) = hex_digit (of_char d div 16)"
    "hex_digit (of_char c mod 16) = hex_digit (of_char d mod 16)"
  then have "of_char c div 16 = (of_char d div 16 :: nat)" "of_char c mod 16 = (of_char d mod 16 :: nat)"
    using l by (simp_all add: hex_digit_inject)
  then have "of_char c = (of_char d :: nat)" by (metis div_mult_mod_eq)
  then show "c = d" by simp
qed

lemma hex_encode_inject: "hex_encode a = hex_encode b \<longleftrightarrow> a = b"
proof (induction a arbitrary: b)
  case Nil
  then show ?case by (cases b) (simp_all add: hex_encode_def)
next
  case (Cons x a)
  then show ?case
    by (cases b) (auto simp: hex_encode_def dest: hex_pair_inject)
qed

lemma length_hex_encode: "length (hex_encode b) = 2 * length b"
  by (induction b) (simp_all add: hex_encode_def)

lemma last_occurrence:
  assumes "x @ c # y = x' @ c # y'" "c \<notin> set y" "c \<notin> set y'"
  shows "x = x' \<and> y = y'"
proof -
  have "takeWhile (\<lambda>z. z \<noteq> c) (rev (a @ c # b)) = rev b" if "c \<notin> set b" for a b
    using that by (subst rev_append) (auto simp: takeWhile_append)
  then have "rev y = rev y'" using assms by metis
  then show ?thesis using assms(1) by simp
qed

text \<open>The text of a shape is a sequence of numbers, each ended by a comma.\<close>

definition shape_text :: "int list \<Rightarrow> string" where
  "shape_text sh = concat (map (\<lambda>d. format_int d @ '','') sh)"

lemma set_format_int: "set (format_int d) \<subseteq> insert (CHR ''-'') {c. is_digit c}"
  using dec_string_digits [of d] dec_string_digits [of "- d"]
  by (auto simp: format_int_def list_all_iff)

lemma format_int_inject: "format_int m = format_int n \<longleftrightarrow> m = n"
proof
  assume eq: "format_int m = format_int n"
  have d: "0 \<le> k \<Longrightarrow> hd (dec_string k) \<noteq> CHR ''-''" for k
    using dec_string_digits [of k] by (cases "dec_string k") (auto simp: is_digit_def)
  have "(m < 0) = (n < 0)"
    using eq d [of m] d [of n] by (auto simp: format_int_def split: if_splits)
      (metis list.sel(1) d linorder_not_less)+
  then show "m = n" using eq by (auto simp: format_int_def dec_string_inject split: if_splits)
qed simp

lemma no_comma_in_int: "CHR '','' \<notin> set (format_int d)"
  using set_format_int [of d] by (auto simp: is_digit_def)

lemma first_comma:
  "format_int m @ CHR '','' # a = format_int n @ CHR '','' # b \<Longrightarrow> m = n \<and> a = b"
proof -
  assume eq: "format_int m @ CHR '','' # a = format_int n @ CHR '','' # b"
  have "takeWhile (\<lambda>c. c \<noteq> CHR '','') (format_int k @ CHR '','' # s) = format_int k" for k s
    using no_comma_in_int [of k] by (subst takeWhile_append2) auto
  then have "format_int m = format_int n" using eq by metis
  then show ?thesis using eq by (simp add: format_int_inject)
qed

lemma shape_text_inject: "shape_text a = shape_text b \<longleftrightarrow> a = b"
proof (induction a arbitrary: b)
  case Nil
  then show ?case by (cases b) (simp_all add: shape_text_def)
next
  case (Cons x a)
  then show ?case
    by (cases b) (auto simp: shape_text_def dest: first_comma)
qed

lemma no_letter_in_shape: "CHR ''t'' \<notin> set (shape_text sh)"
proof -
  have "CHR ''t'' \<notin> set (format_int d)" for d using set_format_int [of d] by (auto simp: is_digit_def)
  then show ?thesis by (auto simp: shape_text_def)
qed

definition standard_dtype :: "DType \<Rightarrow> bool" where
  "standard_dtype d \<longleftrightarrow> d \<in> {Float32, Float64, Int32, Int64}"

text \<open>
  With one of the four types, the name, the type and the shape can be read off their concatenation:
  the type is what the last \<open>t\<close> belongs to.
\<close>

lemma header_inject:
  assumes "standard_dtype d" "standard_dtype d'" "n @ d @ shape_text sh = n' @ d' @ shape_text sh'"
  shows "n = n' \<and> d = d' \<and> sh = sh'"
proof -
  have split_type: "\<exists>p q. x = p @ CHR ''t'' # q \<and> length q = 2 \<and> CHR ''t'' \<notin> set q \<and> (p = ''floa'' \<or> p = ''in'')"
    if "standard_dtype x" for x
  proof -
    have "x = ''floa'' @ CHR ''t'' # ''32'' \<or> x = ''floa'' @ CHR ''t'' # ''64'' \<or>
        x = ''in'' @ CHR ''t'' # ''32'' \<or> x = ''in'' @ CHR ''t'' # ''64''"
      using that by (auto simp: standard_dtype_def Float32_def Float64_def Int32_def Int64_def)
    then have "\<exists>p q. x = p @ CHR ''t'' # q \<and> p \<in> {''floa'', ''in''} \<and> q \<in> {''32'', ''64''}"
      by blast
    then show ?thesis by fastforce
  qed
  obtain p q where d: "d = p @ CHR ''t'' # q" "length q = 2" "CHR ''t'' \<notin> set q" "p = ''floa'' \<or> p = ''in''"
    using split_type [OF assms(1)] by blast
  obtain p' q' where d': "d' = p' @ CHR ''t'' # q'" "length q' = 2" "CHR ''t'' \<notin> set q'" "p' = ''floa'' \<or> p' = ''in''"
    using split_type [OF assms(2)] by blast
  have "(n @ p) @ CHR ''t'' # (q @ shape_text sh) = (n' @ p') @ CHR ''t'' # (q' @ shape_text sh')"
    using assms(3) d(1) d'(1) by simp
  then have "n @ p = n' @ p' \<and> q @ shape_text sh = q' @ shape_text sh'"
    using d(3) d'(3) no_letter_in_shape by (intro last_occurrence) auto
  then have np: "n @ p = n' @ p'" and "q = q'" "shape_text sh = shape_text sh'"
    using d(2) d'(2) by auto
  have "last (n @ p) = last (n' @ p')" using np by simp
  then have "p = p'" using d(4) d'(4) by auto
  then show ?thesis using np \<open>q = q'\<close> \<open>shape_text sh = shape_text sh'\<close> d(1) d'(1)
    by (simp add: shape_text_inject)
qed

text \<open>Two inputs on which the hash function does not collide.\<close>

definition no_collision :: "(bytes \<Rightarrow> bytes) \<Rightarrow> bytes \<Rightarrow> bytes \<Rightarrow> bool" where
  "no_collision sha a b \<longleftrightarrow> sha a = sha b \<longrightarrow> a = b"

lemma HashTensor_eq:
  "no_collision sha (hashed_bytes t) (hashed_bytes u) \<Longrightarrow>
   HashTensor sha t = HashTensor sha u \<longleftrightarrow> hashed_bytes t = hashed_bytes u"
  by (auto simp: HashTensor_def hex_encode_inject no_collision_def)

lemma hashed_bytes_shape: "hashed_bytes t = (Name t @ tensor_DType t @ shape_text (Shape t)) @ Data t"
  by (simp add: hashed_bytes_def shape_text_def)

text \<open>
  C15. The content hash identifies a tensor: when SHA-256 does not collide on the two texts, two
  tensors of the four element types are the same exactly when their hashes are the same and they
  agree on the data, or on the name, the type and the shape. So equal data under different names
  have different hashes, and for one name and shape equal hashes mean equal data.
\<close>

theorem HashTensor_identifies:
  assumes "no_collision sha (hashed_bytes t) (hashed_bytes u)"
    and "standard_dtype (tensor_DType t)" "standard_dtype (tensor_DType u)"
  shows "t = u \<longleftrightarrow> HashTensor sha t = HashTensor sha u \<and>
    (Data t = Data u \<or> Name t = Name u \<and> tensor_DType t = tensor_DType u \<and> Shape t = Shape u)"
proof -
  have "t = u" if "hashed_bytes t = hashed_bytes u"
    "Data t = Data u \<or> Name t = Name u \<and> tensor_DType t = tensor_DType u \<and> Shape t = Shape u"
    using that header_inject [OF assms(2,3), of "Name t" "Shape t" "Name u" "Shape u"]
    by (auto simp: hashed_bytes_shape TensorBlob.equality)
  then show ?thesis using HashTensor_eq [OF assms(1)] by auto
qed

theorem HashTensor_identifies_witness:
  "HashTensor id \<lparr>Name = ''a'', tensor_DType = Float32, Shape = [2], Data = ''xy''\<rparr> \<noteq>
   HashTensor id \<lparr>Name = ''b'', tensor_DType = Float32, Shape = [2], Data = ''xy''\<rparr>"
  using HashTensor_identifies [of id "\<lparr>Name = ''a'', tensor_DType = Float32, Shape = [2], Data = ''xy''\<rparr>"
      "\<lparr>Name = ''b'', tensor_DType = Float32, Shape = [2], Data = ''xy''\<rparr>"]
  by (simp add: no_collision_def standard_dtype_def)

text \<open>
  Different tensors can have the same hash: the shape and the data run into each other, so
  whatever the hash function, the tensors with shape [2] and data "3,x" and with shape [2, 3] and
  data "x", of any one name and type, are stored as one file, the one that is saved first.
\<close>

theorem HashTensor_collision:
  "let t = \<lparr>Name = n, tensor_DType = ty, Shape = [2], Data = ''3,'' @ x\<rparr>;
       u = \<lparr>Name = n, tensor_DType = ty, Shape = [2, 3], Data = x\<rparr>
   in HashTensor sha t = HashTensor sha u \<and> TensorPath (HashTensor sha t) = TensorPath (HashTensor sha u) \<and>
     Data t \<noteq> Data u \<and> Shape t \<noteq> Shape u"
proof -
  have "format_int 2 = ''2''" "format_int 3 = ''3''" by code_simp+
  then show ?thesis by (simp add: HashTensor_def hashed_bytes_def)
qed

section \<open>The names of the files\<close>

lemma format_int_06_eq: "format_int_06 i = format_int_06 j \<longleftrightarrow> i = j"
proof
  assume eq: "format_int_06 i = format_int_06 j"
  have d: "0 \<le> k \<Longrightarrow> CHR ''-'' \<notin> set (pad_zeros n (dec_string k))" for n k
    using dec_string_digits [of k] by (auto simp: pad_zeros_def list_all_iff is_digit_def)
  have m: "k < 0 \<longleftrightarrow> CHR ''-'' \<in> set (format_int_06 k)" for k
    using d [of k 6] by (auto simp: format_int_06_def)
  show "i = j"
  proof (cases "i < 0")
    case True
    then have j: "j < 0" using eq m [of i] m [of j] by metis
    then have "pad_zeros 5 (dec_string (- i)) = pad_zeros 5 (dec_string (- j))"
      using eq True by (simp add: format_int_06_def)
    then have "dec_val 0 (dec_string (- i)) = dec_val 0 (dec_string (- j))"
      using dec_val_zeros unfolding pad_zeros_def by metis
    then show ?thesis using True j by (simp add: dec_val_string)
  next
    case False
    then have "\<not> j < 0" using eq m [of i] m [of j] by metis
    then show ?thesis using False eq by (intro format_int_06_inject) simp_all
  qed
qed simp

lemma no_underscore: "CHR ''_'' \<notin> set (format_int_06 i)"
proof -
  have "CHR ''_'' \<notin> set (dec_string k)" if "0 \<le> k" for k
    using dec_string_digits [OF that] by (auto simp: list_all_iff is_digit_def)
  then show ?thesis by (simp add: format_int_06_def pad_zeros_def)
qed

lemma MetaPath_inject: "MetaPath w i = MetaPath w' i' \<longleftrightarrow> w = w' \<and> i = i'"
proof
  assume eq: "MetaPath w i = MetaPath w' i'"
  have s: "MetaPath v k = ''output/checkpoints_'' @ ((v @ ''_step'') @ CHR ''_'' # format_int_06 k) @ ''.meta''" for v k
    by (simp add: MetaPath_def)
  have "(w @ ''_step'') @ CHR ''_'' # format_int_06 i = (w' @ ''_step'') @ CHR ''_'' # format_int_06 i'"
    using eq unfolding s by simp
  then have "w @ ''_step'' = w' @ ''_step'' \<and> format_int_06 i = format_int_06 i'"
    by (rule last_occurrence [OF _ no_underscore no_underscore])
  then show "w = w' \<and> i = i'" by (simp add: format_int_06_eq)
qed simp

lemma TensorPath_inject: "TensorPath h = Some p \<Longrightarrow> TensorPath h' = Some p \<Longrightarrow> h = h'"
proof -
  assume a: "TensorPath h = Some p" "TensorPath h' = Some p"
  then have l: "length h \<ge> 2" "length h' \<ge> 2"
    and eq: "take 2 h @ CHR ''_'' # drop 2 h = take 2 h' @ CHR ''_'' # drop 2 h'"
    by (auto simp: TensorPath_def split: if_splits)
  then have "take 2 h = take 2 h' \<and> drop 2 h = drop 2 h'" by (subst (asm) append_eq_append_conv) auto
  then show "h = h'" by (metis append_take_drop_id)
qed

text \<open>
  C25. The files of the checkpoint layer never share a name: a metadata file belongs to one worker and
  one step, a pointer to one worker, a tensor file to one hash, and no name is of two kinds.
\<close>

theorem checkpoint_names_distinct:
  "(MetaPath w i = MetaPath w' i' \<longleftrightarrow> w = w' \<and> i = i') \<and>
   (LatestMetaPath w = LatestMetaPath w' \<longleftrightarrow> w = w') \<and>
   (TensorPath h = TensorPath h' \<longleftrightarrow> h = h' \<or> (length h < 2 \<and> length h' < 2)) \<and>
   MetaPath w i \<noteq> LatestMetaPath w' \<and> TensorPath h \<noteq> Some (MetaPath w i) \<and> TensorPath h \<noteq> Some (LatestMetaPath w)"
proof (intro conjI)
  show "MetaPath w i = MetaPath w' i' \<longleftrightarrow> w = w' \<and> i = i'" by (rule MetaPath_inject)
  show "TensorPath h = TensorPath h' \<longleftrightarrow> h = h' \<or> (length h < 2 \<and> length h' < 2)"
    using TensorPath_inject [of h _ h'] by (auto simp: TensorPath_def split: if_splits)
qed (auto simp: LatestMetaPath_def MetaPath_def TensorPath_def)

section \<open>The accounts of \<open>SaveTensors\<close>\<close>

definition accounts :: "(bytes \<Rightarrow> bytes) \<Rightarrow> SaveTensorsResponse \<Rightarrow> TensorBlob list \<Rightarrow> SaveTensorsResponse \<Rightarrow> bool" where
  "accounts sha r ts r' \<longleftrightarrow>
     NewCount r' + DedupeCount r' = NewCount r + DedupeCount r + length ts \<and>
     NewBytes r' + DedupedBytes r' = NewBytes r + DedupedBytes r + sum_list (map (\<lambda>t. int (length (Data t))) ts) \<and>
     HashByName r' = fold (\<lambda>t. mput (Name t) (HashTensor sha t)) ts (HashByName r)"

lemma attempt_Value:
  "attempt h m k = (Value y, s') \<Longrightarrow> \<exists>x s. m = (Value x, s) \<and> k x s = (Value y, s')"
  by (cases m; cases "fst m") (auto simp: attempt_def)

lemma save_tensor_accounts:
  assumes "save_tensor sha svc ev wid t r c = (Value r', c')"
  shows "accounts sha r [t] r'"
proof -
  let ?r1 = "r\<lparr>HashByName := mput (Name t) (HashTensor sha t) (HashByName r)\<rparr>"
  obtain path where p: "TensorPath (HashTensor sha t) = Some path"
    using assms by (cases "TensorPath (HashTensor sha t)") (auto simp: save_tensor_def Let_def)
  obtain v c1 where v: "testAuth svc path c = (v, c1)" by fastforce
  obtain x c2 where x: "client_Create svc ev path wid c1 = (x, c2)" by fastforce
  let ?known = "case v of Value v \<Rightarrow> sint v > 0 | _ \<Rightarrow> False"
  have body: "save_tensor sha svc ev wid t r c = (if ?known then (Value (count_deduped t ?r1), c1)
      else (case x of
          Err er \<Rightarrow> if isAlreadyExists (Some er) then (Value (count_deduped t ?r1), c2)
            else (Err (wrapped (''Create tensor '' @ Name t) er), c2)
        | Crash \<Rightarrow> (Crash, c2)
        | Value en \<Rightarrow> attempt id (store_file svc ev (''Open tensor '' @ Name t) (''Write tensor '' @ Name t)
            (''Close tensor '' @ Name t) path wid (Data t) c2) (\<lambda>u c3. (Value (count_new t ?r1), c3))))"
    unfolding save_tensor_def Let_def p v x option.case prod.case by simp
  have "r' = count_new t ?r1 \<or> r' = count_deduped t ?r1"
  proof (cases ?known)
    case False
    note b = assms [unfolded body if_not_P [OF False]]
    show ?thesis
    proof (cases x)
      case (Value en)
      then show ?thesis using attempt_Value [OF b [unfolded Value result.case]] by blast
    qed (use b in \<open>auto split: if_splits\<close>)
  qed (use assms body in simp)
  then show ?thesis by (auto simp: accounts_def count_new_def count_deduped_def)
qed

lemma save_tensors_accounts:
  "save_tensors sha svc ev wid ts r c = (Value r', c') \<Longrightarrow> accounts sha r ts r'"
proof (induction ts arbitrary: r c)
  case (Cons t ts)
  then obtain r1 c1 where s: "save_tensor sha svc ev wid t r c = (Value r1, c1)"
    "save_tensors sha svc ev wid ts r1 c1 = (Value r', c')" by (auto dest!: attempt_Value)
  then show ?case using save_tensor_accounts [OF s(1)] Cons.IH [OF s(2)] by (simp add: accounts_def)
qed (simp add: accounts_def)

lemma find_snoc:
  "find P (xs @ [x]) = (case find P xs of Some y \<Rightarrow> Some y | None \<Rightarrow> if P x then Some x else None)"
  by (induction xs) auto

lemma fold_mput_get:
  "mget (fold (\<lambda>t. mput (f t) (g t)) ts m) k =
     (case find (\<lambda>t. f t = k) (rev ts) of Some t \<Rightarrow> Some (g t) | None \<Rightarrow> mget m k)"
proof (induction ts arbitrary: m)
  case (Cons t ts)
  then show ?case by (auto simp: find_snoc split: option.splits)
qed simp

text \<open>
  C22. \<open>SaveTensors\<close> accounts for every tensor, whatever the service does: when it succeeds, each
  tensor is counted once, as new or as deduplicated, with its bytes, and the answer maps the name of
  each tensor to its hash, of the last one where a name occurs twice, and no other name.
\<close>

theorem SaveTensors_accounts:
  assumes "SaveTensors sha svc ev req c = (Value resp, c')"
  shows "NewCount resp + DedupeCount resp = length (Tensors req) \<and>
    NewBytes resp + DedupedBytes resp = sum_list (map (\<lambda>t. int (length (Data t))) (Tensors req)) \<and>
    mget (HashByName resp) k =
      (case find (\<lambda>t. Name t = k) (rev (Tensors req)) of Some t \<Rightarrow> Some (HashTensor sha t) | None \<Rightarrow> None)"
  using save_tensors_accounts [OF assms [unfolded SaveTensors_def]]
  by (auto simp: accounts_def fold_mput_get split: option.split)

theorem SaveTensors_accounts_witness:
  "\<exists>resp. fst (SaveTensors id (constant_service (Inr (OpenResponse 0 0 [])) 1) example_client_env
      \<lparr>st_WorkerID = ''w'', st_Step = 100,
        Tensors = [\<lparr>Name = ''a'', tensor_DType = Float32, Shape = [1], Data = ''abcd''\<rparr>]\<rparr> example_client) = Value resp \<and>
    NewCount resp + DedupeCount resp = 1 \<and> NewBytes resp + DedupedBytes resp = 4"
proof -
  let ?req = "\<lparr>st_WorkerID = ''w'', st_Step = 100,
    Tensors = [\<lparr>Name = ''a'', tensor_DType = Float32, Shape = [1], Data = ''abcd''\<rparr>]\<rparr>"
  let ?r = "SaveTensors id (constant_service (Inr (OpenResponse 0 0 [])) 1) example_client_env ?req example_client"
  have "case fst ?r of Value resp \<Rightarrow> True | _ \<Rightarrow> False" by code_simp
  then obtain resp c' where r: "?r = (Value resp, c')" by (cases ?r; cases "fst ?r") auto
  show ?thesis using SaveTensors_accounts [OF r, of "''a''"] r by auto
qed

end
