(* ===== verification/TrainingProps.thy ===== *)
theory TrainingProps
  imports Worker
begin

text \<open>
  What holds of a worker: the type of its model, and the training loop with its checkpoints.
\<close>

section \<open>The model\<close>

text \<open>Every tensor has its name and as many bytes as its shape and type call for.\<close>

definition tensor_ok :: "string \<Rightarrow> TensorBlob \<Rightarrow> bool" where
  "tensor_ok n t \<longleftrightarrow> Name t = n \<and> int (length (Data t)) = uint (BytesForShape (Shape t) (tensor_DType t))"

definition model_ok :: "SimpleModel \<Rightarrow> bool" where
  "model_ok m \<longleftrightarrow> map fst m = map fst model_shapes \<and> (\<forall>n t. mget m n = Some t \<longrightarrow> tensor_ok n t)"

lemma length_PutUint32 [simp]: "length (PutUint32 x) = 4"
  by (simp add: PutUint32_def)

lemma length_update_words [simp]: "length (update_words adj i b) = length b"
  by (induction adj i b rule: update_words.induct) auto

lemma length_words: "length (concat (map (\<lambda>i. PutUint32 (f i)) xs)) = 4 * length xs"
  by (induction xs) simp_all

lemma length_randomTensor: "length (Data (randomTensor rnd n sh)) = 4 * prod_list sh"
  by (simp add: randomTensor_def length_words)

lemma model_ok_mput:
  assumes "model_ok m" "mget m n = Some t" "tensor_ok n t'"
  shows "model_ok (mput n t' m)"
proof -
  have "n \<in> fst ` set m" using assms(2) by (metis domI dom_map_of_conv_image_fst)
  then have "map fst (mput n t' m) = map fst m" by (simp add: update_keys)
  then show ?thesis using assms by (auto simp: model_ok_def)
qed

lemma model_has: "model_ok m \<Longrightarrow> n \<in> fst ` set model_shapes \<Longrightarrow> mget m n \<noteq> None"
  by (metis map_of_eq_None_iff list.set_map model_ok_def)

lemma step_tensors_ok:
  assumes "model_ok m" "distinct (map fst ps)" "fst ` set ps \<subseteq> fst ` set model_shapes"
  shows "\<exists>m'. step_tensors draw adj ps m = Some m' \<and> model_ok m' \<and>
    (\<forall>n. mget m' n = (case mget m n of None \<Rightarrow> None
       | Some t \<Rightarrow> Some (case mget ps n of
           Some prob \<Rightarrow> if draw n > prob then t else t\<lparr>Data := update_words (adj n) 0 (Data t)\<rparr>
         | None \<Rightarrow> t)))"
  using assms
proof (induction ps arbitrary: m)
  case (Cons p ps)
  obtain n prob where p: "p = (n, prob)" by fastforce
  obtain t where t: "mget m n = Some t" using model_has [OF Cons.prems(1), of n] Cons.prems(3) p by auto
  let ?t = "if draw n > prob then t else t\<lparr>Data := update_words (adj n) 0 (Data t)\<rparr>"
  have "tensor_ok n t" using Cons.prems(1) t by (simp add: model_ok_def)
  then have "model_ok (mput n (t\<lparr>Data := update_words (adj n) 0 (Data t)\<rparr>) m)"
    using t by (intro model_ok_mput [OF Cons.prems(1)]) (auto simp: tensor_ok_def)
  then obtain m1 where m1: "step_tensor draw adj n prob m = Some m1" "model_ok m1"
    "\<forall>k. mget m1 k = (if k = n then Some ?t else mget m k)"
    using Cons.prems(1) t by (cases "draw n > prob") (simp_all add: step_tensor_def)
  have n: "mget ps n = None" using Cons.prems(2) p by (simp add: map_of_eq_None_iff)
  from Cons.IH [OF m1(2)] Cons.prems obtain m' where m': "step_tensors draw adj ps m1 = Some m'" "model_ok m'"
    "\<forall>k. mget m' k = (case mget m1 k of None \<Rightarrow> None
       | Some t \<Rightarrow> Some (case mget ps k of
           Some prob \<Rightarrow> if draw k > prob then t else t\<lparr>Data := update_words (adj k) 0 (Data t)\<rparr>
         | None \<Rightarrow> t))" by auto
  show ?case
  proof (intro exI conjI)
    show "step_tensors draw adj (p # ps) m = Some m'" using p m1(1) m'(1) by simp
  qed (use p m'(2,3) m1(3) n t in \<open>auto split: option.splits\<close>)
qed (auto split: option.splits)

text \<open>
  C17. The model keeps its type: an optimizer step finds all its tensors, so it never panics, and
  leaves each with its name, its type, its shape and the right number of bytes. A tensor whose drawn
  number is above its update probability, as every positive draw is for the embedding from step 200
  on, is left as it is, and so keeps its hash.
\<close>

theorem model_keeps_type:
  assumes "model_ok m"
  shows "\<exists>m'. model_Step draw adj step m = Some m' \<and> model_ok m' \<and>
    (\<forall>n t. mget m n = Some t \<longrightarrow> (\<exists>t'. mget m' n = Some t' \<and> Name t' = Name t \<and> Shape t' = Shape t \<and>
       tensor_DType t' = tensor_DType t \<and> length (Data t') = length (Data t) \<and>
       ((\<exists>prob. mget (updateProb step) n = Some prob \<and> draw n > prob) \<longrightarrow> t' = t))) \<and>
    (step \<ge> 200 \<and> draw ''embedding.weight'' > 0 \<longrightarrow> mget m' ''embedding.weight'' = mget m ''embedding.weight'')"
proof -
  have d: "distinct (map fst (updateProb step))" "fst ` set (updateProb step) \<subseteq> fst ` set model_shapes"
    by (simp_all add: updateProb_def model_shapes_def)
  obtain m' where m': "model_Step draw adj step m = Some m'" "model_ok m'"
    "\<forall>n. mget m' n = (case mget m n of None \<Rightarrow> None
       | Some t \<Rightarrow> Some (case mget (updateProb step) n of
           Some prob \<Rightarrow> if draw n > prob then t else t\<lparr>Data := update_words (adj n) 0 (Data t)\<rparr>
         | None \<Rightarrow> t))"
    using step_tensors_ok [OF assms d] unfolding model_Step_def by blast
  have "mget (updateProb step) ''embedding.weight'' = Some (fading step 200)" by (simp add: updateProb_def)
  moreover have "fading step 200 = 0" if "step \<ge> 200"
  proof -
    have "(200 :: rat) \<le> of_int step" using that by (metis of_int_le_iff of_int_numeral)
    then show ?thesis by (simp add: fading_def)
  qed
  ultimately show ?thesis using m' by (intro exI [of _ m']) (auto split: option.splits)
qed

lemma model_ok_New: "model_ok (NewSimpleModel rnd)"
proof -
  have t: "tensor_ok n (randomTensor (rnd n) n sh)" if "(n, sh) \<in> set model_shapes" for n sh
  proof -
    have "int (4 * prod_list sh) = uint (BytesForShape (map int sh) Float32)"
      using that by (auto simp: model_shapes_def BytesForShape_def)
    then show ?thesis
      by (simp add: tensor_ok_def length_randomTensor) (simp add: randomTensor_def)
  qed
  have "(n, t) \<in> set (NewSimpleModel rnd) \<Longrightarrow> tensor_ok n t" for n t
    using t by (auto simp: NewSimpleModel_def)
  then show ?thesis by (auto simp: model_ok_def dest: map_of_SomeD) (auto simp: NewSimpleModel_def)
qed

theorem model_keeps_type_witness:
  "\<exists>m'. model_Step (\<lambda>n. 1 / 2) (\<lambda>n i x. x + 1) 300 (NewSimpleModel (\<lambda>n i. 0)) = Some m' \<and>
    mget m' ''embedding.weight'' = mget (NewSimpleModel (\<lambda>n i. 0)) ''embedding.weight''"
  using model_keeps_type [OF model_ok_New, of "\<lambda>n. 1 / 2" "\<lambda>n i x. x + 1" 300 "\<lambda>n i. 0"] by auto

section \<open>The training loop\<close>

lemma upto_snoc: "a \<le> b \<Longrightarrow> [a..b] = [a..b - 1] @ [b :: int]"
  by (rule upto_rec2)

text \<open>The checkpoints of the steps from \<open>i\<close> to \<open>j\<close>, one after the other.\<close>

definition checkpoints :: "(int \<Rightarrow> 'm \<Rightarrow> 'm) \<Rightarrow> (int \<Rightarrow> 'm \<Rightarrow> 'c \<Rightarrow> 'x result \<times> 'c) \<Rightarrow> int \<Rightarrow> int \<Rightarrow> 'm \<Rightarrow> 'c \<Rightarrow> 'c" where
  "checkpoints f save i j m c = fold (\<lambda>k c. snd (save k (fold f [i..k] m) c))
     (filter (\<lambda>k. k mod CheckpointInterval = 0) [i..j]) c"

lemma checkpoints_Nil: "i > j \<Longrightarrow> checkpoints f save i j m c = c"
  by (simp add: checkpoints_def)

lemma checkpoints_first:
  assumes "i \<le> j"
  shows "checkpoints f save i j m c = checkpoints f save (i + 1) j (f i m)
    (if i mod CheckpointInterval = 0 then snd (save i (f i m) c) else c)"
proof -
  let ?g = "\<lambda>i m k c. snd (save k (fold f [i..k] m) c)"
  have "fold (?g i m) ks c = fold (?g (i + 1) (f i m)) ks c" if "\<forall>k \<in> set ks. i < k" for ks c
    using that by (induction ks arbitrary: c) (simp_all add: upto_rec1)
  then show ?thesis using assms by (simp add: checkpoints_def upto_rec1)
qed

lemma train_eq:
  assumes "I m" "\<And>k m. I m \<Longrightarrow> I (f k m) \<and> opt k m = Some (f k m)"
    and "\<And>k m c. fst (save k m c) \<noteq> Crash"
  shows "train opt save crashAt step m c =
    (if 0 < crashAt \<and> step \<le> crashAt \<and> crashAt \<le> TotalSteps
     then (Crash, checkpoints f save step (crashAt - 1) m c)
     else (Value (fold f [step..TotalSteps] m), checkpoints f save step TotalSteps m c))"
  using assms(1)
proof (induction "nat (TotalSteps + 1 - step)" arbitrary: step m c)
  case 0
  then have "step > TotalSteps" by simp
  then show ?case by (subst train.simps) (simp add: checkpoints_Nil)
next
  case (Suc n)
  then have le: "step \<le> TotalSteps" by simp
  note o = assms(2) [OF Suc.prems, of step]
  let ?c = "if step mod CheckpointInterval = 0 then snd (save step (f step m) c) else c"
  have t: "train opt save crashAt step m c = (if crashAt > 0 \<and> step = crashAt then (Crash, c)
      else train opt save crashAt (step + 1) (f step m) ?c)"
    using le o assms(3) [of step "f step m" c]
    by (subst train.simps) (auto simp: case_prod_beta split: result.splits)
  have "n = nat (TotalSteps + 1 - (step + 1))" using Suc.hyps(2) by simp
  note IH = Suc.hyps(1) [OF this, of "f step m" ?c] 
  show ?case
  proof (cases "crashAt > 0 \<and> step = crashAt")
    case True
    then show ?thesis using t le by (simp add: checkpoints_Nil)
  next
    case False
    then have "0 < crashAt \<and> step \<le> crashAt \<and> crashAt \<le> TotalSteps \<longleftrightarrow>
        0 < crashAt \<and> step + 1 \<le> crashAt \<and> crashAt \<le> TotalSteps" by auto
    moreover have "train opt save crashAt step m c = train opt save crashAt (step + 1) (f step m) ?c"
      unfolding t if_not_P [OF False] ..
    ultimately show ?thesis using IH o False le
      by (auto simp: checkpoints_first [of step] upto_rec1 [of step])
  qed
qed

text \<open>
  C16. The training loop ends, and does what it is for: from any step, when the optimizer steps do not
  panic and no checkpoint ends the process, the worker makes every step up to the last one, or up to
  the one where it is told to crash, and saves the model after each hundredth step of these, in order,
  whether or not a checkpoint succeeds. It ends normally exactly when it was not told to crash.
\<close>

theorem training_run:
  assumes "I m" "\<And>k m. I m \<Longrightarrow> I (f k m) \<and> opt k m = Some (f k m)"
    and "\<And>k m c. fst (save k m c) \<noteq> Crash"
  shows "train opt save crashAt step m c =
    (if 0 < crashAt \<and> step \<le> crashAt \<and> crashAt \<le> TotalSteps
     then (Crash, checkpoints f save step (crashAt - 1) m c)
     else (Value (fold f [step..TotalSteps] m), checkpoints f save step TotalSteps m c))"
  using assms by (rule train_eq)

theorem training_run_witness:
  "train (\<lambda>k m. Some (m + k)) (\<lambda>k m c. (Value (), c @ [(k, m)])) 0 999 (5 :: int) [] =
    (Value 2004, [(1000, 2004)])"
proof -
  have u: "[999..TotalSteps] = [999, 1000]" "[999..1000] = [999, 1000 :: int]"
    by (simp_all add: TotalSteps_def upto_rec1)
  show ?thesis
    by (subst training_run [of "\<lambda>m. True" _ "\<lambda>k m. m + k"])
      (simp_all add: checkpoints_def u CheckpointInterval_def)
qed

text \<open>The last hundredth number.\<close>

lemma hundreds: "(n :: int) - 100 < n div 100 * 100" "n div 100 * 100 \<le> n" "0 \<le> n \<Longrightarrow> 0 \<le> n div 100 * 100"
proof -
  have e: "n div 100 * 100 = n - n mod 100" by (simp add: minus_mod_eq_div_mult)
  have "0 \<le> n mod 100" "n mod 100 < 100" by simp_all
  then show "n - 100 < n div 100 * 100" "n div 100 * 100 \<le> n" unfolding e by linarith+
qed (simp add: pos_imp_zdiv_nonneg_iff)

end
