(* ===== verification/Spec2Isabelle.thy ===== *)
theory Spec2Isabelle
  imports PseudoPrime Steady CoordinatorProps Restart
begin

text \<open>
  A model of a replicated file service for the checkpoints of a distributed training, written in Go: a
  primary and its backups keep files of numbers, clients cache them, training workers store their
  tensors and metadata through the client, and a coordinator watches the workers.

  \<^bold>\<open>The program and how its parts interact.\<close> A server (\<open>server_basics.go\<close>) answers \<open>Create\<close>, \<open>Open\<close>,
  \<open>Read\<close>, \<open>Write\<close>, \<open>Close\<close>, \<open>Delete\<close>, \<open>TestAuth\<close> and \<open>GetLeader\<close>. A dirty \<open>Close\<close> or \<open>Write\<close> merges
  the numbers of the data into the set the server has for the file, appends an entry to the log,
  sends it to the backups, waits for a majority and applies what is committed
  (\<open>server_replication.go\<close>); an election by the least id and heartbeats decide who is primary;
  \<open>server_snapshots.go\<close> records a global snapshot with markers. The client (\<open>client_basics.go\<close>)
  keeps local copies with an LRU list, tries calls again and follows redirects. The checkpoint layer
  (\<open>server_handle.go\<close>, \<open>ml_common\<close>) names a tensor's file by the SHA-256 of its content, so equal
  tensors are stored once, and writes a metadata file and a pointer to the latest step. The worker
  (\<open>ml_worker\<close>) trains, saves every hundredth step and restarts from the last checkpoint; the
  coordinator (\<open>ml_coordinator\<close>) tells a restarted worker its step.

  \<^bold>\<open>The theories.\<close>

  \<^item> \<open>Prelude\<close>: Go's maps as association lists, the outcomes of a handler (\<open>Ok\<close>, \<open>Fail\<close>, \<open>Panic\<close>,
    \<open>Exit\<close>, \<open>Deadlock\<close>, \<open>Blocked\<close>), errors, the collection \<open>inv_intros\<close>, and the locale of maps.
  \<^item> \<open>GoStrings\<close>, \<open>Numbers\<close>, \<open>Paths\<close>, \<open>Disk\<close>: the functions of \<open>strings\<close>, \<open>strconv\<close>, \<open>fmt\<close>,
    \<open>filepath\<close> and \<open>os\<close> the program calls, by their documented behaviour, with \<open>parseNumbers\<close>,
    \<open>sanitizePath\<close> (\<open>common.go\<close>), \<open>FilterUniquePrimes\<close>, \<open>isAlreadyExists\<close> and \<open>extractLeaderAddr\<close>.
    The disk has inodes, so an open file survives its removal; its laws are the locale \<open>file_store\<close>.
  \<^item> \<open>MillerRabin\<close>, \<open>Fermat\<close>, \<open>PseudoPrime\<close>: \<open>IsPrime\<close> of \<open>common.go\<close> on 64-bit words.
  \<^item> \<open>FileLock\<close>: \<open>FileEntry\<close>, the lock of a file, each operation as a function and the goroutines as
    the step relation \<open>lock_step\<close>.
  \<^item> \<open>ServerState\<close>: the record \<open>server\<close>, the version files, \<open>getFileEntry\<close>, the cleanups and the
    rebuilding of the tables. \<open>Replication\<close>: the log, \<open>AppendEntries\<close>, \<open>apply\<close>, the recovery from
    the file and from the leader, \<open>HandleWrite\<close>. \<open>Handlers\<close>: the file service.
  \<^item> \<open>LogReplay\<close>, \<open>ReplicationProps\<close>, \<open>HandlerInv\<close>, \<open>CloseCommit\<close>, \<open>CloseProps\<close>, \<open>Service\<close>,
    \<open>ServiceProps\<close>, \<open>ServiceFaults\<close>, \<open>WriteProps\<close>: the lemmas and properties of the servers.
  \<^item> \<open>Election\<close>: \<open>electPrimary\<close>, \<open>SendHeartbeat\<close>, a turn of the two loops, \<open>StartServer\<close>.
    \<open>Programs\<close>: the three server programs and the configuration they share.
  \<^item> \<open>Snapshot\<close>: \<open>server_snapshots.go\<close>, split where it releases the mutex.
  \<^item> \<open>Client\<close>, \<open>ClientProps\<close>: \<open>client_basics.go\<close> and \<open>DialClient\<close>; the service behind the connection
    is the record \<open>FileServiceClient\<close>, one function for each call, over a state \<open>world\<close>.
  \<^item> \<open>Checkpoint\<close>, \<open>CheckpointProps\<close>: \<open>ml_common\<close> and \<open>server_handle.go\<close>.
  \<^item> \<open>Coordinator\<close>, \<open>CoordinatorProps\<close>, \<open>Worker\<close>, \<open>TrainingProps\<close>: the two programs of the training.
  \<^item> \<open>ByteStore\<close>: a service that keeps the bytes it is given, for examples only. \<open>Restart\<close>: a crash of
    a worker and its restart, by \<open>worker_main\<close>, \<open>SaveCheckpoint\<close> and \<open>RestoreCheckpoint\<close>.
  \<^item> \<open>Cluster\<close>, \<open>EndToEnd\<close>: the model of the servers as the service of the model of the client, and
    what a save and a restore do across all the layers.
  \<^item> \<open>Steady\<close>: the invariant of a server in service, from its program's start through any calls; it
    gives the hypotheses of the properties about commits.

  A method that changes its receiver is a function that returns it changed, a result with an error is
  an \<open>outcome\<close> on the servers and a \<open>result\<close> on the client, a Go map is an association list and the
  order of a \<open>range\<close> over it is its order; where the order matters to a result it is the parameter
  \<open>range_order\<close>, constrained by \<open>fair_order\<close> to a permutation.

  \<^bold>\<open>What the lemmas show.\<close> A commit stores the union of the numbers of the data with the set
  the server has in memory for the file, and the primary and every backup then hold the same files (the locale of replayed logs relates \<open>applyCommitted\<close> to an abstract
  replay); a restart restores a log whose lines fit the scanner's buffer; the handlers keep the descriptors, locks and handles in order
  (locales over the steps the handlers are made of); retries are idempotent; the lock excludes and
  loses no wake-up; \<open>IsPrime\<close> accepts every prime; the election agrees and heartbeats converge; a
  server in service always has the state a commit needs; the client's cache is bounded and eviction never loses dirty data (the locale \<open>cache_property\<close>, with
  three interpretations); the content hash identifies a tensor and file names do not clash; training
  ends, keeps the model well formed, and a crash with its restart gives the model of a run without
  it, if the storage keeps the checkpoint; the coordinator finds exactly the silent workers and loads
  their steps; and, end to end, what one client saves
  another reads back as the set of its numbers. The properties of kind error are behaviours that the
  program has and should not have: the bytes of tensors and metadata are lost because a commit keeps
  only numbers, a tensor whose save was cut short counts as stored, and others; each has an example.

  \<^bold>\<open>Termination and bounds.\<close> No definition uses fuel. Loops are structural, or decrease a measure:
  the steps left to train, the lines left of a log, the entries left to apply. The halving loop of
  \<open>IsPrime\<close> is a \<open>partial_function\<close> with a proof that it returns for every argument the program
  gives it. A retry loop makes at most \<open>maxTries\<close> rounds. Loops that run for ever (heartbeats,
  monitors, cleanups) are given by one turn. Descriptors and versions are 32-bit words, numbers,
  counters and sizes of tensors 64-bit words; log indices and training steps are integers.

  \<^bold>\<open>Parameters.\<close> The clock, the answers of the peers, crashes that the environment variables inject
  and write faults are fields of \<open>env\<close> and \<open>client_env\<close>; SHA-256, the JSON text of the metadata, the
  random draws and the floating-point arithmetic of an optimizer step are arguments of the
  definitions that use them. What a property assumes of them is a hypothesis: no collision on two
  given texts, that a text \<open>json.Unmarshal\<close> takes for a struct has a brace or is \<open>null\<close>, and, for the
  restart of a worker, that the storage gives back the metadata and the tensors of its last checkpoint
  (which the servers do not: other properties show what they lose). The counter of the request ids
  belongs to the process, and is kept with the one client a process makes. The goroutine that
  \<open>MonitorPrimary\<close> starts to rebuild the sets is a step of its own.

  \<^bold>\<open>Not modelled.\<close> The generated gRPC code and the transport, HTTP serving, pauses between retries,
  the texts of logs (\<open>DeduplicationStats\<close> among them) and the parsing of the flags, whose values are
  arguments. A handler runs to its end before the next one begins, except in \<open>FileLock\<close>, where
  the goroutines interleave, in \<open>Snapshot\<close>, where the parts of a call can, and in the properties about
  two calls at once. A handler that would wait for a
  lock no other handler can release in that model answers \<open>Blocked\<close>, one that locks a mutex it holds
  \<open>Deadlock\<close>. While the coordinator loads a checkpoint no worker registers or sends a heartbeat.
\<close>

end
